theory Spec2Isabelle
  imports Main "HOL-Library.AList"
begin

section \<open>Strings of the Go standard library\<close>

text \<open>
  Go strings are byte sequences; they are modelled as \<open>string\<close> (a list of 8-bit
  characters). \<open>strings.ToUpper\<close> and \<open>strings.ToLower\<close> first scan the string for a
  byte of \<open>utf8.RuneSelf\<close> (128) or more. Without one they work byte by byte:
  \<open>c -= 'a' - 'A'\<close> for \<open>'a' <= c <= 'z'\<close>, and \<open>c += 'a' - 'A'\<close> for \<open>'A' <= c <= 'Z'\<close>.
  With one they return \<open>strings.Map(unicode.ToUpper, s)\<close> or
  \<open>strings.Map(unicode.ToLower, s)\<close>, which decode UTF-8 and read the Unicode tables:
  these two functions of the library are parameters (\<open>mapToUpper\<close> below, \<open>mapToLower\<close>
  of the world of the wrapper), about which nothing is supposed.
\<close>

definition isASCII :: "string \<Rightarrow> bool" where
  "isASCII s = (\<forall>c \<in> set s. (of_char c :: nat) < 128)"

definition upperChar :: "char \<Rightarrow> char" where
  "upperChar c =
     (if 97 \<le> (of_char c :: nat) \<and> (of_char c :: nat) \<le> 122
      then char_of ((of_char c :: nat) - 32) else c)"

definition lowerChar :: "char \<Rightarrow> char" where
  "lowerChar c =
     (if 65 \<le> (of_char c :: nat) \<and> (of_char c :: nat) \<le> 90
      then char_of ((of_char c :: nat) + 32) else c)"

text \<open>
  What the environment builder reads of the Go runtime and library:
  \<open>runtime.GOOS == "windows"\<close> and \<open>strings.Map(unicode.ToUpper, s)\<close>.
\<close>

record Runtime =
  Windows :: bool
  mapToUpper :: "string \<Rightarrow> string"

definition ToUpper :: "Runtime \<Rightarrow> string \<Rightarrow> string" where
  "ToUpper rt s = (if isASCII s then map upperChar s else mapToUpper rt s)"

text \<open>\<open>strings.HasPrefix(s, prefix)\<close>\<close>

definition HasPrefix :: "string \<Rightarrow> string \<Rightarrow> bool" where
  "HasPrefix s p = (take (length p) s = p)"

text \<open>\<open>strings.Contains(s, substr)\<close>: some suffix of \<open>s\<close> starts with \<open>substr\<close>.\<close>

fun Contains :: "string \<Rightarrow> string \<Rightarrow> bool" where
  "Contains [] sub = (sub = [])"
| "Contains (c # cs) sub = (HasPrefix (c # cs) sub \<or> Contains cs sub)"

text \<open>\<open>strings.Index(s, sep)\<close> for a one-byte separator: the first position, or \<open>-1\<close>.\<close>

fun Index :: "string \<Rightarrow> char \<Rightarrow> int" where
  "Index [] c = -1"
| "Index (x # xs) c =
     (if x = c then 0 else (let i = Index xs c in if i < 0 then -1 else i + 1))"

section \<open>Configuration (package config)\<close>

text \<open>
  \<open>InheritMode\<close> is a Go string type with four named constants; any other string can be
  stored in it, so it stays a string here.
\<close>

type_synonym InheritMode = string

definition InheritNone :: InheritMode where
  "InheritNone = ''none''"

definition InheritTier1 :: InheritMode where
  "InheritTier1 = ''tier1''"

definition InheritTier1Tier2 :: InheritMode where
  "InheritTier1Tier2 = ''tier1+tier2''"

definition InheritAll :: InheritMode where
  "InheritAll = ''all''"

record InheritConfig =
  Mode :: InheritMode
  Extra :: "string list"
  Prefix :: "string list"
  Deny :: "string list"
  AllowDeniedIfExplicit :: bool

record AuthConfig =
  AuthType :: string
  Token :: string
  Username :: string
  Password :: string

text \<open>
  \<open>ServerConfig\<close>. The field \<open>Prefix\<close> of the Go struct is \<open>ServerPrefix\<close> here (the name
  \<open>Prefix\<close> is taken by \<open>InheritConfig\<close>), \<open>Type\<close> of \<open>AuthConfig\<close> is \<open>AuthType\<close>. The Go
  map \<open>Env\<close> is an association list: its order stands for the order in which the
  runtime happens to range over the map, and a Go map has no key twice.
  A nil pointer is \<open>None\<close>.
\<close>

record ServerConfig =
  Name :: string
  ServerPrefix :: string
  Transport :: string
  Command :: string
  Args :: "string list"
  Env :: "(string \<times> string) list"
  Inherit :: "InheritConfig option"
  URL :: string
  Auth :: "AuthConfig option"
  Timeout :: string

definition ResolveInheritConfig :: "ServerConfig \<Rightarrow> InheritConfig option \<Rightarrow> InheritConfig" where
  "ResolveInheritConfig s proxyDefault =
     (case Inherit s of
        Some i \<Rightarrow> i
      | None \<Rightarrow>
          (case proxyDefault of
             Some p \<Rightarrow> p
           | None \<Rightarrow> \<lparr>Mode = InheritTier1, Extra = [], Prefix = [], Deny = [],
                       AllowDeniedIfExplicit = False\<rparr>))"

section \<open>The environment builder (client/envbuilder.go)\<close>

definition Tier1Vars :: "string list" where
  "Tier1Vars = [''PATH'', ''HOME'', ''USER'', ''SHELL'', ''LANG'', ''LC_ALL'', ''TZ'',
                ''TMPDIR'', ''TEMP'', ''TMP'']"

definition Tier2Vars :: "string list" where
  "Tier2Vars = [''SSL_CERT_FILE'', ''SSL_CERT_DIR'', ''REQUESTS_CA_BUNDLE'',
                ''CURL_CA_BUNDLE'', ''NODE_EXTRA_CA_CERTS'']"

definition ImplicitDenylist :: "string list" where
  "ImplicitDenylist = [''HTTP_PROXY'', ''HTTPS_PROXY'', ''http_proxy'', ''https_proxy'',
                       ''NO_PROXY'', ''no_proxy'']"

definition normalizeKey :: "string \<Rightarrow> Runtime \<Rightarrow> string" where
  "normalizeKey key rt = (if Windows rt then ToUpper rt key else key)"

definition splitEnvEntry :: "string \<Rightarrow> string \<times> string" where
  "splitEnvEntry entry =
     (let idx = Index entry (CHR ''='') in
      if idx \<le> 0 then ('''', '''')
      else (take (nat idx) entry, drop (nat idx + 1) entry))"

text \<open>
  \<open>map[string]bool\<close> holding only \<open>true\<close> is the set of its keys; a missing key reads
  \<open>false\<close>.
\<close>

definition buildDenyMap :: "ServerConfig \<Rightarrow> InheritConfig option \<Rightarrow> Runtime \<Rightarrow> string set" where
  "buildDenyMap serverConfig proxyInherit rt =
     (let denyMap = fold (\<lambda>key m. insert (normalizeKey key rt) m) ImplicitDenylist {};
          denyMap1 = (case Inherit serverConfig of
                        Some i \<Rightarrow> fold (\<lambda>key m. insert (normalizeKey key rt) m) (Deny i) denyMap
                      | None \<Rightarrow> denyMap);
          denyMap2 = (case proxyInherit of
                        Some p \<Rightarrow> fold (\<lambda>key m. insert (normalizeKey key rt) m) (Deny p) denyMap1
                      | None \<Rightarrow> denyMap1)
      in denyMap2)"

text \<open>
  The parent environment \<open>os.Environ()\<close> is the parameter \<open>environ\<close>, a list of
  \<open>KEY=value\<close> strings, and the runtime is the parameter \<open>rt\<close>.
  Go maps that are ranged over are association lists written with \<open>AList.update\<close>
  (a key is stored once, a later write replaces the value in place).
\<close>

definition buildParentMap :: "string list \<Rightarrow> Runtime \<Rightarrow> (string \<times> string) list" where
  "buildParentMap environ rt =
     fold (\<lambda>entry parentMap.
             (let (key, val) = splitEnvEntry entry in
              if key = '''' then parentMap
              else AList.update (normalizeKey key rt) val parentMap))
          environ []"

type_synonym envMap = "(string \<times> string \<times> string) list"

definition addVar ::
  "Runtime \<Rightarrow> ServerConfig \<Rightarrow> InheritConfig option \<Rightarrow> string set \<Rightarrow> (string \<times> string) list \<Rightarrow>
   string \<Rightarrow> bool \<Rightarrow> envMap \<Rightarrow> envMap" where
  "addVar rt serverConfig proxyInherit denyMap parentMap key explicitExtra envMap =
     (let lookupKey = normalizeKey key rt;
          denied =
            (if lookupKey \<in> denyMap then
               (if explicitExtra then
                  (if (case Inherit serverConfig of
                         Some i \<Rightarrow> AllowDeniedIfExplicit i | None \<Rightarrow> False) then False
                   else if (case proxyInherit of
                              Some p \<Rightarrow> AllowDeniedIfExplicit p | None \<Rightarrow> False) then False
                   else True)
                else True)
             else False)
      in if denied then envMap
         else (case map_of parentMap lookupKey of
                 Some val \<Rightarrow> AList.update lookupKey (key, val) envMap
               | None \<Rightarrow> envMap))"

text \<open>The search for the original spelling of a parent variable (inner loop of step 4).\<close>

fun findOriginalKey :: "Runtime \<Rightarrow> string list \<Rightarrow> string \<Rightarrow> string \<Rightarrow> string" where
  "findOriginalKey rt [] lookupKey val = ''''"
| "findOriginalKey rt (entry # rest) lookupKey val =
     (let (k, v) = splitEnvEntry entry in
      if normalizeKey k rt = lookupKey \<and> v = val then k
      else findOriginalKey rt rest lookupKey val)"

text \<open>The loop over the prefixes for one parent variable; it stops at the first match.\<close>

fun matchPrefixes ::
  "Runtime \<Rightarrow> string list \<Rightarrow> string list \<Rightarrow> string \<Rightarrow> string \<Rightarrow> envMap \<Rightarrow> envMap" where
  "matchPrefixes rt environ [] lookupKey val envMap = envMap"
| "matchPrefixes rt environ (prefix # rest) lookupKey val envMap =
     (let normalizedPrefix = normalizeKey prefix rt in
      if HasPrefix lookupKey normalizedPrefix then
        (let originalKey = findOriginalKey rt environ lookupKey val in
         if originalKey \<noteq> '''' then AList.update lookupKey (originalKey, val) envMap
         else envMap)
      else matchPrefixes rt environ rest lookupKey val envMap)"

definition tier2Enabled :: "ServerConfig \<Rightarrow> InheritConfig option \<Rightarrow> bool" where
  "tier2Enabled serverConfig proxyInherit =
     (let t = (case Inherit serverConfig of
                 Some i \<Rightarrow> Mode i = InheritTier1Tier2 \<or> Mode i = InheritAll
               | None \<Rightarrow> False)
      in if \<not> t then
           (case proxyInherit of
              Some p \<Rightarrow> Mode p = InheritTier1Tier2 \<or> Mode p = InheritAll
            | None \<Rightarrow> False)
         else t)"

text \<open>
  Steps 1 to 5 of \<open>BuildEnvironment\<close>: the map from the normalized name to the pair of
  the name as written and the value.
\<close>

definition BuildEnvironment_envMap ::
  "Runtime \<Rightarrow> string list \<Rightarrow> ServerConfig \<Rightarrow> InheritConfig option \<Rightarrow> envMap" where
  "BuildEnvironment_envMap rt environ serverConfig proxyInherit =
     (let denyMap = buildDenyMap serverConfig proxyInherit rt;
          parentMap = buildParentMap environ rt;
          add = addVar rt serverConfig proxyInherit denyMap parentMap;
          envMap1 = fold (\<lambda>key. add key False) Tier1Vars [];
          envMap2 = (if tier2Enabled serverConfig proxyInherit
                     then fold (\<lambda>key. add key False) Tier2Vars envMap1 else envMap1);
          envMap3a = (case Inherit serverConfig of
                        Some i \<Rightarrow> fold (\<lambda>key. add key True) (Extra i) envMap2
                      | None \<Rightarrow> envMap2);
          envMap3 = (case proxyInherit of
                       Some p \<Rightarrow> fold (\<lambda>key. add key True) (Extra p) envMap3a
                     | None \<Rightarrow> envMap3a);
          prefixes = (case Inherit serverConfig of Some i \<Rightarrow> Prefix i | None \<Rightarrow> [])
                     @ (case proxyInherit of Some p \<Rightarrow> Prefix p | None \<Rightarrow> []);
          envMap4 = fold (\<lambda>(lookupKey, val) m.
                            if lookupKey \<in> denyMap then m
                            else matchPrefixes rt environ prefixes lookupKey val m)
                         parentMap envMap3;
          envMap5 = fold (\<lambda>(key, val) m. AList.update (normalizeKey key rt) (key, val) m)
                         (Env serverConfig) envMap4
      in envMap5)"

text \<open>
  The result loop ranges over the entries of the map, the structs \<open>{key, value}\<close>,
  and joins each to \<open>KEY=value\<close>. Go ranges over a map in an unspecified order; the
  list below is in the order of first insertion, and the properties proved of it do
  not depend on the order.
\<close>

definition BuildEnvironment_entries ::
  "Runtime \<Rightarrow> string list \<Rightarrow> ServerConfig \<Rightarrow> InheritConfig option \<Rightarrow> (string \<times> string) list" where
  "BuildEnvironment_entries rt environ serverConfig proxyInherit =
     map snd (BuildEnvironment_envMap rt environ serverConfig proxyInherit)"

definition BuildEnvironment ::
  "Runtime \<Rightarrow> string list \<Rightarrow> ServerConfig \<Rightarrow> InheritConfig option \<Rightarrow> string list" where
  "BuildEnvironment rt environ serverConfig proxyInherit =
     map (\<lambda>(key, val). key @ ''='' @ val)
         (BuildEnvironment_entries rt environ serverConfig proxyInherit)"

section \<open>The dynamic wrapper (integration/dynamic_wrapper.go)\<close>

subsection \<open>Values of the MCP library\<close>

text \<open>
  A tool-call request carries a JSON object of arguments. Of a JSON value only this
  matters to the handlers: it is a string, or it is not.
\<close>

datatype jval = JString string | JOther

record CallToolRequest =
  Arguments :: "(string \<times> jval) list"

text \<open>
  \<open>request.RequireString(key)\<close> fails when the argument is missing or is not a string
  (\<open>None\<close> here); \<open>request.GetString(key, default)\<close> returns the default then.
\<close>

definition RequireString :: "CallToolRequest \<Rightarrow> string \<Rightarrow> string option" where
  "RequireString request key =
     (case map_of (Arguments request) key of
        Some (JString s) \<Rightarrow> Some s
      | _ \<Rightarrow> None)"

definition GetString :: "CallToolRequest \<Rightarrow> string \<Rightarrow> string \<Rightarrow> string" where
  "GetString request key defaultValue =
     (case map_of (Arguments request) key of
        Some (JString s) \<Rightarrow> s
      | _ \<Rightarrow> defaultValue)"

datatype Content = TextContent string

record CallToolResult =
  Content :: "Content list"
  IsError :: bool

definition NewToolResultText :: "string \<Rightarrow> CallToolResult" where
  "NewToolResultText text = \<lparr>Content = [TextContent text], IsError = False\<rparr>"

definition NewToolResultError :: "string \<Rightarrow> CallToolResult" where
  "NewToolResultError text = \<lparr>Content = [TextContent text], IsError = True\<rparr>"

fun contentText :: "Content \<Rightarrow> string" where
  "contentText (TextContent t) = t"

subsection \<open>Text helpers\<close>

definition newline :: string where
  "newline = [CHR 0x0A]"

definition quoted :: "string \<Rightarrow> string" where
  "quoted s = [CHR 0x27] @ s @ [CHR 0x27]"

text \<open>\<open>%d\<close> of a length.\<close>

fun itoa :: "nat \<Rightarrow> string" where
  "itoa n = (if n < 10 then [char_of (48 + n)] else itoa (n div 10) @ [char_of (48 + n mod 10)])"

text \<open>\<open>strings.Join(elems, sep)\<close>\<close>

fun Join :: "string list \<Rightarrow> string \<Rightarrow> string" where
  "Join [] sep = []"
| "Join [x] sep = x"
| "Join (x # y # ys) sep = x @ sep @ Join (y # ys) sep"

text \<open>
  \<open>strings.Fields(s)\<close> on a string of ASCII bytes: the maximal runs of bytes that are
  not one of the six bytes of \<open>asciiSpace\<close>.
\<close>

definition isSpace :: "char \<Rightarrow> bool" where
  "isSpace c = (c \<in> set [CHR 0x20, CHR 0x09, CHR 0x0A, CHR 0x0B, CHR 0x0C, CHR 0x0D])"

fun fieldsFrom :: "string \<Rightarrow> string \<Rightarrow> string list" where
  "fieldsFrom [] cur = (if cur = [] then [] else [cur])"
| "fieldsFrom (c # cs) cur =
     (if isSpace c then (if cur = [] then fieldsFrom cs [] else cur # fieldsFrom cs [])
      else fieldsFrom cs (cur @ [c]))"

subsection \<open>Upstream clients and the world outside\<close>

text \<open>
  A client reference is the identity of a \<open>StdioClient\<close> object together with the
  server name it was created with (\<open>ServerName()\<close>). The package that implements the
  client is outside this development: what a call on a client returns is given by the
  parameter \<open>world\<close>, as a function of everything done to the clients so far, and
  every such call is appended to the wrapper's \<open>trace\<close>. \<open>EvConnect\<close> is the spawn of
  the child process.
\<close>

record MCPClient =
  ClientId :: nat
  ClientServerName :: string

record ToolInfo =
  TName :: string
  TDescription :: string
  TInputSchema :: string

datatype event =
    EvSetInheritConfig MCPClient InheritConfig
  | EvSetEnvironment MCPClient "string list"
  | EvConnect MCPClient
  | EvInitialize MCPClient
  | EvListTools MCPClient
  | EvCallTool MCPClient string "(string \<times> jval) list"
  | EvClose MCPClient

text \<open>
  An error is its text (\<open>err.Error()\<close>); \<open>None\<close> and \<open>Inr\<close> are success.
  \<open>absPath\<close> is \<open>filepath.Abs\<close>. The last two fields are the functions of the Go
  library that read the Unicode tables: \<open>strings.Map(unicode.ToLower, s)\<close> and
  \<open>strings.FieldsFunc(s, unicode.IsSpace)\<close>.
\<close>

record World =
  connectResult :: "event list \<Rightarrow> MCPClient \<Rightarrow> string option"
  initializeResult :: "event list \<Rightarrow> MCPClient \<Rightarrow> string option"
  listToolsResult :: "event list \<Rightarrow> MCPClient \<Rightarrow> string + ToolInfo list"
  callToolResult ::
    "event list \<Rightarrow> MCPClient \<Rightarrow> string \<Rightarrow> (string \<times> jval) list \<Rightarrow> string + CallToolResult"
  absPath :: "string \<Rightarrow> string option"
  mapToLower :: "string \<Rightarrow> string"
  fieldsUnicode :: "string \<Rightarrow> string list"

text \<open>
  \<open>strings.ToLower\<close> and \<open>strings.Fields\<close>: byte by byte on a string of ASCII bytes,
  through the Unicode tables when a byte is 128 or more.
\<close>

definition ToLower :: "World \<Rightarrow> string \<Rightarrow> string" where
  "ToLower world s = (if isASCII s then map lowerChar s else mapToLower world s)"

definition Fields :: "World \<Rightarrow> string \<Rightarrow> string list" where
  "Fields world s = (if isASCII s then fieldsFrom s [] else fieldsUnicode world s)"

subsection \<open>The state of the wrapper\<close>

text \<open>
  \<open>DynamicServerInfo\<close>; the field \<open>Name\<close> is \<open>InfoName\<close> here. A nil client is \<open>None\<close>.
\<close>

record DynamicServerInfo =
  InfoName :: string
  Client :: "MCPClient option"
  Tools :: "string list"
  Config :: ServerConfig
  IsConnected :: bool
  ErrorMessage :: string

record RemoteTool =
  OriginalName :: string
  PrefixedName :: string
  Description :: string
  InputSchema :: string
  ServerName :: string

text \<open>
  A handler bound on the host-side server is a closure: its code and the variables it
  captured. \<open>createDynamicProxyHandler\<close> is the only constructor of tool handlers in
  this file; its closure captures the two strings and the wrapper itself.
\<close>

datatype ToolHandler = DynamicProxyHandler string string

definition createDynamicProxyHandler :: "string \<Rightarrow> string \<Rightarrow> ToolHandler" where
  "createDynamicProxyHandler serverName originalToolName =
     DynamicProxyHandler serverName originalToolName"

datatype payload = RequestPayload CallToolRequest | ResultPayload CallToolResult

text \<open>\<open>RecordedMessage\<close> without its time stamp; \<open>ServerName\<close> is \<open>RecServerName\<close> here.\<close>

record RecordedMessage =
  Direction :: string
  MessageType :: string
  ToolName :: string
  RecServerName :: string
  Message :: payload

text \<open>
  The wrapper with the parts of the proxy server and of the base server it writes:
  \<open>proxyClients\<close> is \<open>proxyServer.clients\<close>, \<open>proxyInherit\<close> is
  \<open>proxyServer.config.Inherit\<close>, \<open>registry\<close> is \<open>proxyServer.registry\<close>, \<open>baseTools\<close> the
  upstream tools added to \<open>baseServer\<close> with their handlers (the five management tools,
  bound once by \<open>registerManagementTools\<close>, are the handler functions of the following
  subsections and are not kept in this list), \<open>recordFile\<close> the lines written to the
  recording. \<open>nextClient\<close> numbers the client objects allocated so far. The Go
  maps that are only looked up by key are partial functions. The table holds pointers
  to the records; no pointer to a record is kept anywhere else between two handler
  runs, so the record is stored in the table itself. Each handler runs from start to
  end without interleaving.
\<close>

record DynamicWrapper =
  dynamicServers :: "string \<rightharpoonup> DynamicServerInfo"
  proxyClients :: "MCPClient list"
  proxyInherit :: "InheritConfig option"
  registry :: "string \<rightharpoonup> RemoteTool \<times> MCPClient"
  baseTools :: "(string \<times> ToolHandler) list"
  recordEnabled :: bool
  recordFilename :: string
  recordFile :: "RecordedMessage list"
  nextClient :: nat
  trace :: "event list"

text \<open>
  \<open>NewDynamicWrapper\<close>: no upstream yet, recording off. Of the proxy configuration
  only its \<open>Inherit\<close> is read by the handlers below. The five management tools it binds
  are the handlers of the following subsections.
\<close>

definition NewDynamicWrapper :: "InheritConfig option \<Rightarrow> DynamicWrapper" where
  "NewDynamicWrapper inherit =
     \<lparr>dynamicServers = Map.empty, proxyClients = [], proxyInherit = inherit, registry = Map.empty,
      baseTools = [], recordEnabled = False, recordFilename = '''', recordFile = [],
      nextClient = 0, trace = []\<rparr>"

type_synonym handlerReturn = "(CallToolResult \<times> string option) \<times> DynamicWrapper"

text \<open>
  What a handler run ends in: it returns a result and a Go error (always nil in this
  file), or the Go runtime panics.
\<close>

datatype outcome = Returns handlerReturn | Panics string

subsection \<open>Operations on clients\<close>

definition NewStdioClient :: "DynamicWrapper \<Rightarrow> string \<Rightarrow> MCPClient \<times> DynamicWrapper" where
  "NewStdioClient w name =
     (\<lparr>ClientId = nextClient w, ClientServerName = name\<rparr>, w\<lparr>nextClient := Suc (nextClient w)\<rparr>)"

definition emit :: "DynamicWrapper \<Rightarrow> event \<Rightarrow> DynamicWrapper" where
  "emit w e = w\<lparr>trace := trace w @ [e]\<rparr>"

definition Connect :: "World \<Rightarrow> DynamicWrapper \<Rightarrow> MCPClient \<Rightarrow> string option \<times> DynamicWrapper" where
  "Connect world w c = (connectResult world (trace w) c, emit w (EvConnect c))"

definition Initialize :: "World \<Rightarrow> DynamicWrapper \<Rightarrow> MCPClient \<Rightarrow> string option \<times> DynamicWrapper" where
  "Initialize world w c = (initializeResult world (trace w) c, emit w (EvInitialize c))"

definition ListTools ::
  "World \<Rightarrow> DynamicWrapper \<Rightarrow> MCPClient \<Rightarrow> (string + ToolInfo list) \<times> DynamicWrapper" where
  "ListTools world w c = (listToolsResult world (trace w) c, emit w (EvListTools c))"

definition CallTool ::
  "World \<Rightarrow> DynamicWrapper \<Rightarrow> MCPClient \<Rightarrow> string \<Rightarrow> (string \<times> jval) list \<Rightarrow>
   (string + CallToolResult) \<times> DynamicWrapper" where
  "CallTool world w c name args =
     (callToolResult world (trace w) c name args, emit w (EvCallTool c name args))"

text \<open>The error of \<open>Close\<close> is only logged.\<close>

definition Close :: "DynamicWrapper \<Rightarrow> MCPClient \<Rightarrow> DynamicWrapper" where
  "Close w c = emit w (EvClose c)"

text \<open>
  Modelled from the spec: \<open>registry.RegisterTool\<close> of package discovery is not among the
  sources; the registry is keyed by the prefixed tool name and stores the tool with the
  client it was registered with.
\<close>

definition RegisterTool :: "DynamicWrapper \<Rightarrow> RemoteTool \<Rightarrow> MCPClient \<Rightarrow> DynamicWrapper" where
  "RegisterTool w tool c = w\<lparr>registry := (registry w)(PrefixedName tool \<mapsto> (tool, c))\<rparr>"

text \<open>\<open>baseServer.AddTool\<close> of the MCP library stores the tool under its name.\<close>

definition AddTool :: "DynamicWrapper \<Rightarrow> string \<Rightarrow> ToolHandler \<Rightarrow> DynamicWrapper" where
  "AddTool w toolName handler = w\<lparr>baseTools := AList.update toolName handler (baseTools w)\<rparr>"

subsection \<open>Recording\<close>

text \<open>
  \<open>recordMessage\<close>. The values recorded are a decoded request or a result built in this
  file, which \<open>json.Marshal\<close> accepts; the two branches that only log a marshalling
  error are left out.
\<close>

definition recordMessage ::
  "DynamicWrapper \<Rightarrow> string \<Rightarrow> string \<Rightarrow> string \<Rightarrow> string \<Rightarrow> payload \<Rightarrow> DynamicWrapper" where
  "recordMessage w direction messageType toolName serverName message =
     (if \<not> recordEnabled w then w
      else w\<lparr>recordFile := recordFile w @
               [\<lparr>Direction = direction, MessageType = messageType, ToolName = toolName,
                 RecServerName = serverName, Message = message\<rparr>]\<rparr>)"

text \<open>The first bytes of the metadata text, as the source file has them.\<close>

definition recordingBanner :: string where
  "recordingBanner =
     [CHR 0xC3, CHR 0xB0, CHR 0xC5, CHR 0xB8, CHR 0xE2, CHR 0x80, CHR 0x9C, CHR 0xC2, CHR 0xB9]
     @ '' Recording: ''"

definition metadataText :: "string \<Rightarrow> string \<Rightarrow> string" where
  "metadataText filename absolute =
     recordingBanner @ filename @ newline @ ''   Full path: '' @ absolute @ newline
     @ ''   Purpose: JSON-RPC message log for debugging and playback testing''"

definition addRecordingMetadata :: "World \<Rightarrow> DynamicWrapper \<Rightarrow> CallToolResult \<Rightarrow> CallToolResult" where
  "addRecordingMetadata world w result =
     (if \<not> recordEnabled w then result
      else
        (let filename = recordFilename w in
         if filename = '''' then result
         else
           (let absolute = (case absPath world filename of Some p \<Rightarrow> p | None \<Rightarrow> filename);
                metadataItem = TextContent (metadataText filename absolute)
            in \<lparr>Content = Content result @ [metadataItem], IsError = IsError result\<rparr>)))"

text \<open>
  The three lines every return of a handler repeats: add the metadata, record the
  response, return the result with a nil error.
\<close>

definition respond ::
  "World \<Rightarrow> DynamicWrapper \<Rightarrow> string \<Rightarrow> string \<Rightarrow> CallToolResult \<Rightarrow> handlerReturn" where
  "respond world w toolName serverName result =
     (let result1 = addRecordingMetadata world w result;
          w1 = recordMessage w ''response'' ''tool_call'' toolName serverName (ResultPayload result1)
      in ((result1, None), w1))"

subsection \<open>server_add\<close>

text \<open>The loop of \<open>handleServerAdd\<close> that registers the tools of the new server.\<close>

fun registerTools ::
  "string \<Rightarrow> MCPClient \<Rightarrow> ToolInfo list \<Rightarrow> DynamicWrapper \<times> DynamicServerInfo \<Rightarrow>
   DynamicWrapper \<times> DynamicServerInfo" where
  "registerTools name stdioClient [] (w, serverInfo) = (w, serverInfo)"
| "registerTools name stdioClient (tool # tools) (w, serverInfo) =
     (let discoveredTool =
            \<lparr>OriginalName = TName tool, PrefixedName = name @ ''_'' @ TName tool,
             Description = TDescription tool, InputSchema = TInputSchema tool,
             ServerName = name\<rparr>;
          w1 = RegisterTool w discoveredTool stdioClient;
          handler = createDynamicProxyHandler name (OriginalName discoveredTool);
          w2 = AddTool w1 (PrefixedName discoveredTool) handler;
          serverInfo1 = serverInfo\<lparr>Tools := Tools serverInfo @ [PrefixedName discoveredTool]\<rparr>
      in registerTools name stdioClient tools (w2, serverInfo1))"

definition handleServerAdd :: "World \<Rightarrow> DynamicWrapper \<Rightarrow> CallToolRequest \<Rightarrow> handlerReturn" where
  "handleServerAdd world w0 request =
     (let w1 = recordMessage w0 ''request'' ''tool_call'' ''server_add'' ''proxy''
                 (RequestPayload request)
      in case RequireString request ''name'' of
        None \<Rightarrow> respond world w1 ''server_add'' ''proxy'' (NewToolResultError ''name is required'')
      | Some name \<Rightarrow>
      (case RequireString request ''command'' of
        None \<Rightarrow> respond world w1 ''server_add'' ''proxy'' (NewToolResultError ''command is required'')
      | Some command \<Rightarrow>
      if dynamicServers w1 name \<noteq> None then
        respond world w1 ''server_add'' ''proxy''
          (NewToolResultError (''Server '' @ quoted name @ '' already exists''))
      else
      (let parts = Fields world command in
      if parts = [] then
        respond world w1 ''server_add'' ''proxy'' (NewToolResultError ''Invalid command'')
      else
      (let serverConfig =
             \<lparr>Name = name, ServerPrefix = name, Transport = ''stdio'', Command = hd parts,
              Args = tl parts, Env = [], Inherit = None, URL = '''', Auth = None,
              Timeout = ''30s''\<rparr>;
           (stdioClient, w2) = NewStdioClient w1 name;
           inheritCfg = ResolveInheritConfig serverConfig (proxyInherit w2);
           w3 = emit w2 (EvSetInheritConfig stdioClient inheritCfg);
           (connectErr, w4) = Connect world w3 stdioClient
       in case connectErr of
         Some err \<Rightarrow>
           respond world w4 ''server_add'' ''proxy''
             (NewToolResultError (''Failed to connect: '' @ err))
       | None \<Rightarrow>
       (let (initErr, w5) = Initialize world w4 stdioClient in
        case initErr of
          Some err \<Rightarrow>
            respond world (Close w5 stdioClient) ''server_add'' ''proxy''
              (NewToolResultError (''Failed to initialize: '' @ err))
        | None \<Rightarrow>
        (let (listed, w6) = ListTools world w5 stdioClient in
         case listed of
           Inl err \<Rightarrow>
             respond world (Close w6 stdioClient) ''server_add'' ''proxy''
               (NewToolResultError (''Failed to list tools: '' @ err))
         | Inr tools \<Rightarrow>
         (let serverInfo =
                \<lparr>InfoName = name, Client = Some stdioClient, Tools = [],
                 Config = serverConfig, IsConnected = True, ErrorMessage = ''''\<rparr>;
              (w7, serverInfo1) = registerTools name stdioClient tools (w6, serverInfo);
              registeredCount = length tools;
              w8 = w7\<lparr>dynamicServers := (dynamicServers w7)(name \<mapsto> serverInfo1)\<rparr>;
              w9 = w8\<lparr>proxyClients := proxyClients w8 @ [stdioClient]\<rparr>;
              result = ''Added server '' @ quoted name @ '' with command: ''
                       @ Command serverConfig @ '' '' @ Join (Args serverConfig) '' '' @ newline
                       @ ''Registered '' @ itoa registeredCount @ '' tools successfully.''
          in respond world w9 ''server_add'' ''proxy'' (NewToolResultText result))))))))"

subsection \<open>server_remove\<close>

text \<open>
  \<open>handleServerRemove\<close> calls \<open>Close\<close> on the client of the record without testing it:
  on a record with no client that is a method call on a nil interface, and the Go
  runtime panics. The new client list is made as in \<open>handleServerDisconnect\<close>, and
  leaves out the client of the record.
\<close>

definition handleServerRemove :: "World \<Rightarrow> DynamicWrapper \<Rightarrow> CallToolRequest \<Rightarrow> outcome" where
  "handleServerRemove world w0 request =
     (let w1 = recordMessage w0 ''request'' ''tool_call'' ''server_remove'' ''proxy''
                 (RequestPayload request)
      in case RequireString request ''name'' of
        None \<Rightarrow>
          Returns (respond world w1 ''server_remove'' ''proxy''
                     (NewToolResultError ''name is required''))
      | Some name \<Rightarrow>
      (case dynamicServers w1 name of
        None \<Rightarrow>
          Returns (respond world w1 ''server_remove'' ''proxy''
                     (NewToolResultError (''Server '' @ quoted name @ '' not found'')))
      | Some serverInfo \<Rightarrow>
      (case Client serverInfo of
        None \<Rightarrow> Panics ''invalid memory address or nil pointer dereference''
      | Some c \<Rightarrow>
          (let w2 = Close w1 c;
               w3 = w2\<lparr>dynamicServers := (dynamicServers w2)(name := None)\<rparr>
           in if proxyClients w3 = [] then Panics ''makeslice: cap out of range''
              else
                (let newClients = filter (\<lambda>x. x \<noteq> c) (proxyClients w3);
                     w4 = w3\<lparr>proxyClients := newClients\<rparr>;
                     result = ''Removed server '' @ quoted name @ ''. Note: ''
                              @ itoa (length (Tools serverInfo))
                              @ '' tools remain registered but are now unavailable.''
                 in Returns (respond world w4 ''server_remove'' ''proxy''
                               (NewToolResultText result)))))))"

subsection \<open>server_disconnect\<close>

text \<open>
  The block of \<open>handleServerDisconnect\<close> for a record that holds a client: close it and
  take the clients of that name off the proxy server's list. The new list is made with
  capacity \<open>len(clients) - 1\<close>; on an empty list that is \<open>make\<close> with a negative
  capacity, on which the Go runtime panics (\<open>None\<close> here).
\<close>

definition closeAndUnlist :: "DynamicWrapper \<Rightarrow> string \<Rightarrow> MCPClient \<Rightarrow> DynamicWrapper option" where
  "closeAndUnlist w name c =
     (let w1 = Close w c in
      if proxyClients w1 = [] then None
      else
        (let newClients = filter (\<lambda>c. ClientServerName c \<noteq> name) (proxyClients w1)
         in Some (w1\<lparr>proxyClients := newClients\<rparr>)))"

definition handleServerDisconnect :: "World \<Rightarrow> DynamicWrapper \<Rightarrow> CallToolRequest \<Rightarrow> outcome" where
  "handleServerDisconnect world w0 request =
     (let w1 = recordMessage w0 ''request'' ''tool_call'' ''server_disconnect'' ''proxy''
                 (RequestPayload request)
      in case RequireString request ''name'' of
        None \<Rightarrow>
          Returns (respond world w1 ''server_disconnect'' ''proxy''
                     (NewToolResultError ''name is required''))
      | Some name \<Rightarrow>
      (case dynamicServers w1 name of
        None \<Rightarrow>
          Returns (respond world w1 ''server_disconnect'' ''proxy''
                     (NewToolResultError (''Server '' @ quoted name @ '' not found'')))
      | Some serverInfo \<Rightarrow>
      if \<not> IsConnected serverInfo then
        Returns (respond world w1 ''server_disconnect'' ''proxy''
                   (NewToolResultText (''Server '' @ quoted name @ '' is already disconnected'')))
      else
      (case (case Client serverInfo of
               Some c \<Rightarrow> closeAndUnlist w1 name c
             | None \<Rightarrow> Some w1) of
         None \<Rightarrow> Panics ''makeslice: cap out of range''
       | Some w3 \<Rightarrow>
           (let serverInfo1 = serverInfo\<lparr>IsConnected := False,
                                ErrorMessage := ''Server disconnected by user'', Client := None\<rparr>;
                w4 = w3\<lparr>dynamicServers := (dynamicServers w3)(name \<mapsto> serverInfo1)\<rparr>;
                result = ''Disconnected server '' @ quoted name
                         @ ''. Tools remain registered but will return errors.''
                         @ [CHR 0x5C, CHR ''n'']
                         @ ''Use server_reconnect to restore with new binary/command.''
            in Returns (respond world w4 ''server_disconnect'' ''proxy''
                          (NewToolResultText result))))))"

subsection \<open>server_reconnect\<close>

text \<open>The proxy server's client list gets the new client in place of the first one of that name.\<close>

fun replaceClient :: "string \<Rightarrow> MCPClient \<Rightarrow> MCPClient list \<Rightarrow> MCPClient list option" where
  "replaceClient name stdioClient [] = None"
| "replaceClient name stdioClient (c # cs) =
     (if ClientServerName c = name then Some (stdioClient # cs)
      else map_option (\<lambda>cs'. c # cs') (replaceClient name stdioClient cs))"

text \<open>The loop that registers again the listed tools whose prefixed name the record holds.\<close>

fun reRegisterTools ::
  "string \<Rightarrow> MCPClient \<Rightarrow> string list \<Rightarrow> ToolInfo list \<Rightarrow> DynamicWrapper \<Rightarrow> DynamicWrapper" where
  "reRegisterTools name stdioClient registered [] w = w"
| "reRegisterTools name stdioClient registered (tool # tools) w =
     (let prefixedName = name @ ''_'' @ TName tool;
          found = (prefixedName \<in> set registered);
          w1 = (if found then
                  RegisterTool w
                    \<lparr>OriginalName = TName tool, PrefixedName = prefixedName,
                     Description = TDescription tool, InputSchema = TInputSchema tool,
                     ServerName = name\<rparr> stdioClient
                else w)
      in reRegisterTools name stdioClient registered tools w1)"

text \<open>What the three failure branches of \<open>handleServerReconnect\<close> write to the record.\<close>

definition reconnectFailed ::
  "DynamicWrapper \<Rightarrow> string \<Rightarrow> DynamicServerInfo \<Rightarrow> ServerConfig \<Rightarrow> string \<Rightarrow> DynamicWrapper" where
  "reconnectFailed w name serverInfo serverConfig message =
     w\<lparr>dynamicServers := (dynamicServers w)(name \<mapsto>
          serverInfo\<lparr>IsConnected := False, ErrorMessage := message, Config := serverConfig\<rparr>)\<rparr>"

definition reconnectWith ::
  "World \<Rightarrow> DynamicWrapper \<Rightarrow> string \<Rightarrow> string \<Rightarrow> DynamicServerInfo \<Rightarrow> ServerConfig \<Rightarrow>
   handlerReturn" where
  "reconnectWith world w1 name commandStr serverInfo serverConfig =
     (let (stdioClient, w2) = NewStdioClient w1 (Name serverConfig);
          inheritCfg = ResolveInheritConfig serverConfig (proxyInherit w2);
          w3 = emit w2 (EvSetInheritConfig stdioClient inheritCfg);
          w3a = (if length (Env serverConfig) > 0
                 then emit w3 (EvSetEnvironment stdioClient
                                 (map (\<lambda>(key, val). key @ ''='' @ val) (Env serverConfig)))
                 else w3);
          (connectErr, w4) = Connect world w3a stdioClient
      in case connectErr of
        Some err \<Rightarrow>
          respond world (reconnectFailed w4 name serverInfo serverConfig (''Failed to connect: '' @ err))
            ''server_reconnect'' ''proxy'' (NewToolResultError (''Failed to connect: '' @ err))
      | None \<Rightarrow>
      (let (initErr, w5) = Initialize world w4 stdioClient in
       case initErr of
         Some err \<Rightarrow>
           respond world
             (reconnectFailed (Close w5 stdioClient) name serverInfo serverConfig
                (''Failed to initialize: '' @ err))
             ''server_reconnect'' ''proxy'' (NewToolResultError (''Failed to initialize: '' @ err))
       | None \<Rightarrow>
       (let (listed, w6) = ListTools world w5 stdioClient in
        case listed of
          Inl err \<Rightarrow>
            respond world
              (reconnectFailed (Close w6 stdioClient) name serverInfo serverConfig
                 (''Failed to list tools: '' @ err))
              ''server_reconnect'' ''proxy'' (NewToolResultError (''Failed to list tools: '' @ err))
        | Inr tools \<Rightarrow>
        (let serverInfo1 = serverInfo\<lparr>Client := Some stdioClient, Config := serverConfig,
                             ErrorMessage := ''''\<rparr>;
             w7 = w6\<lparr>proxyClients :=
                      (case replaceClient name stdioClient (proxyClients w6) of
                         Some cs \<Rightarrow> cs
                       | None \<Rightarrow> proxyClients w6 @ [stdioClient])\<rparr>;
             w8 = reRegisterTools name stdioClient (Tools serverInfo1) tools w7;
             serverInfo2 = serverInfo1\<lparr>IsConnected := True\<rparr>;
             w9 = w8\<lparr>dynamicServers := (dynamicServers w8)(name \<mapsto> serverInfo2)\<rparr>;
             resultMsg =
               (if commandStr \<noteq> '''' then
                  ''Reconnected server '' @ quoted name @ '' with NEW command: ''
                  @ Command serverConfig @ '' '' @ Join (Args serverConfig) '' '' @ newline
                  @ ''Server now connected and tools updated.''
                else
                  ''Reconnected server '' @ quoted name @ '' using STORED configuration''
                  @ newline @ ''Server now connected and tools updated.'')
         in respond world w9 ''server_reconnect'' ''proxy'' (NewToolResultText resultMsg)))))"

definition handleServerReconnect :: "World \<Rightarrow> DynamicWrapper \<Rightarrow> CallToolRequest \<Rightarrow> handlerReturn" where
  "handleServerReconnect world w0 request =
     (let w1 = recordMessage w0 ''request'' ''tool_call'' ''server_reconnect'' ''proxy''
                 (RequestPayload request)
      in case RequireString request ''name'' of
        None \<Rightarrow>
          respond world w1 ''server_reconnect'' ''proxy'' (NewToolResultError ''name is required'')
      | Some name \<Rightarrow>
      (let commandStr = GetString request ''command'' '''' in
       case dynamicServers w1 name of
         None \<Rightarrow>
           respond world w1 ''server_reconnect'' ''proxy''
             (NewToolResultError (''Server '' @ quoted name @ '' not found''))
       | Some serverInfo \<Rightarrow>
       if IsConnected serverInfo then
         respond world w1 ''server_reconnect'' ''proxy''
           (NewToolResultError
              (''Server '' @ quoted name @ '' is still connected. Use server_disconnect first.''))
       else if commandStr \<noteq> '''' then
         (let parts = Fields world commandStr in
          if parts = [] then
            respond world w1 ''server_reconnect'' ''proxy'' (NewToolResultError ''Invalid command'')
          else
            reconnectWith world w1 name commandStr serverInfo
              \<lparr>Name = name, ServerPrefix = ServerPrefix (Config serverInfo),
               Transport = ''stdio'', Command = hd parts, Args = tl parts, Env = [],
               Inherit = None, URL = '''', Auth = None, Timeout = ''30s''\<rparr>)
       else if Command (Config serverInfo) = '''' then
         respond world w1 ''server_reconnect'' ''proxy''
           (NewToolResultError ''Stored config has no command. Please provide command parameter.'')
       else reconnectWith world w1 name commandStr serverInfo (Config serverInfo)))"

subsection \<open>Proxied tool calls\<close>

definition isConnectionError :: "World \<Rightarrow> string \<Rightarrow> bool" where
  "isConnectionError world err =
     (let errStr = ToLower world err in
      Contains errStr ''connection'' \<or> Contains errStr ''broken pipe'' \<or> Contains errStr ''eof''
      \<or> Contains errStr ''closed'' \<or> Contains errStr ''timeout'')"

text \<open>The text of a successful upstream result: its content items joined by line feeds.\<close>

definition flattenContent :: "Content list \<Rightarrow> string" where
  "flattenContent items = Join (map contentText items) newline"

text \<open>Running a handler: the body of the closure, on the variables it captured.\<close>

fun invoke :: "World \<Rightarrow> ToolHandler \<Rightarrow> DynamicWrapper \<Rightarrow> CallToolRequest \<Rightarrow> handlerReturn" where
  "invoke world (DynamicProxyHandler serverName originalToolName) w0 request =
     (let prefixedToolName = serverName @ ''_'' @ originalToolName;
          w1 = recordMessage w0 ''request'' ''tool_call'' prefixedToolName serverName
                 (RequestPayload request);
          client = (case dynamicServers w1 serverName of
                      Some serverInfo \<Rightarrow> if IsConnected serverInfo then Client serverInfo else None
                    | None \<Rightarrow> None)
      in case dynamicServers w1 serverName of
        None \<Rightarrow>
          respond world w1 prefixedToolName serverName
            (NewToolResultError (''Server '' @ quoted serverName @ '' not found''))
      | Some serverInfo \<Rightarrow>
      (case client of
        None \<Rightarrow>
          (let errorMsg = ''Server '' @ quoted serverName @ '' is disconnected'';
               errorMsg1 = (if ErrorMessage serverInfo \<noteq> ''''
                            then errorMsg @ '': '' @ ErrorMessage serverInfo else errorMsg);
               errorMsg2 = errorMsg1 @ newline @ ''Use server_reconnect to restore connection.''
           in respond world w1 prefixedToolName serverName (NewToolResultError errorMsg2))
      | Some c \<Rightarrow>
          (let args = Arguments request;
               (called, w2) = CallTool world w1 c originalToolName args
           in case called of
             Inl err \<Rightarrow>
               if isConnectionError world err then
                 (let w3 = w2\<lparr>dynamicServers := (dynamicServers w2)(serverName \<mapsto>
                              serverInfo\<lparr>IsConnected := False, ErrorMessage := err\<rparr>)\<rparr>;
                      errorMsg = ''Server '' @ quoted serverName @ '' connection failed: '' @ err
                                 @ newline @ ''Use server_reconnect to restore connection.''
                  in respond world w3 prefixedToolName serverName (NewToolResultError errorMsg))
               else
                 respond world w2 prefixedToolName serverName
                   (NewToolResultError (''['' @ serverName @ ''] '' @ err))
           | Inr result \<Rightarrow>
               (let finalResult =
                      (if IsError result then
                         (if length (Content result) > 0
                          then NewToolResultError (contentText (hd (Content result)))
                          else NewToolResultError ''Tool execution failed'')
                       else
                         (if length (Content result) > 0
                          then NewToolResultText (flattenContent (Content result))
                          else NewToolResultText ''Tool executed successfully''))
                in respond world w2 prefixedToolName serverName finalResult))))"

text \<open>A sequence of tool calls, each through a handler with its request.\<close>

fun invokeAll ::
  "World \<Rightarrow> (ToolHandler \<times> CallToolRequest) list \<Rightarrow> DynamicWrapper \<Rightarrow> DynamicWrapper" where
  "invokeAll world [] w = w"
| "invokeAll world ((h, request) # calls) w = invokeAll world calls (snd (invoke world h w request))"

text \<open>
  The host-side server of the MCP library answers \<open>tools/call\<close> for a tool name by
  running the handler that \<open>AddTool\<close> bound to the name last. For a name that is not
  bound it runs no handler (\<open>None\<close>).
\<close>

definition callTool ::
  "World \<Rightarrow> DynamicWrapper \<Rightarrow> string \<Rightarrow> CallToolRequest \<Rightarrow> handlerReturn option" where
  "callTool world w toolName request =
     (case map_of (baseTools w) toolName of
        Some handler \<Rightarrow> Some (invoke world handler w request)
      | None \<Rightarrow> None)"


subsection \<open>Static servers\<close>

text \<open>
  \<open>populateStaticServers\<close> runs once, after the proxy server has connected the servers
  of the configuration file. The body of its loop, for one configured server: the
  tools that \<open>registry.GetAllTools\<close> returns and the discovery results (server name and
  error, if any) are parameters.
\<close>

definition populateStaticServer ::
  "RemoteTool list \<Rightarrow> (string \<times> string option) list \<Rightarrow> ServerConfig \<Rightarrow>
   DynamicWrapper \<Rightarrow> DynamicWrapper" where
  "populateStaticServer allTools discoveryResults serverConfig w =
     (case find (\<lambda>c. ClientServerName c = Name serverConfig) (proxyClients w) of
        Some matchingClient \<Rightarrow>
          (let serverTools = map PrefixedName
                 (filter (\<lambda>tool. ServerName tool = Name serverConfig) allTools);
               serverInfo =
                 \<lparr>InfoName = Name serverConfig, Client = Some matchingClient,
                  Tools = serverTools, Config = serverConfig, IsConnected = True,
                  ErrorMessage = ''''\<rparr>
           in w\<lparr>dynamicServers := (dynamicServers w)(Name serverConfig \<mapsto> serverInfo)\<rparr>)
      | None \<Rightarrow>
          (let errorMsg =
                 (case find (\<lambda>(serverName, err). serverName = Name serverConfig \<and> err \<noteq> None)
                         discoveryResults of
                    Some (serverName, Some err) \<Rightarrow> err
                  | _ \<Rightarrow> '''');
               errorMsg1 = (if errorMsg = '''' then ''Failed to connect during initialization''
                            else errorMsg);
               serverInfo =
                 \<lparr>InfoName = Name serverConfig, Client = None, Tools = [],
                  Config = serverConfig, IsConnected = False, ErrorMessage = errorMsg1\<rparr>
           in w\<lparr>dynamicServers := (dynamicServers w)(Name serverConfig \<mapsto> serverInfo)\<rparr>))"

definition populateStaticServers ::
  "ServerConfig list \<Rightarrow> RemoteTool list \<Rightarrow> (string \<times> string option) list \<Rightarrow>
   DynamicWrapper \<Rightarrow> DynamicWrapper" where
  "populateStaticServers servers allTools discoveryResults w =
     fold (populateStaticServer allTools discoveryResults) servers w"

text \<open>
  Modelled from the spec: \<open>ProxyServer.Initialize\<close> (\<open>integration/proxy_server.go\<close>),
  which connects the servers of the configuration file, registers their tools and binds
  the handlers of these tools before \<open>populateStaticServers\<close> runs, is not among the
  sources. The spec (sections 2 and 4.3, invariant I3): the aggregator installs one
  handler per upstream tool, under the name \<open><upstream-name>_<original-name>\<close>, and the
  handler resolves the current client at call time via the table, by the name of the
  upstream; no handler holds a client. \<open>bindStaticTools\<close> is that installation, for the
  tools discovered at start-up. (\<open>docs/RECORDING.md\<close> reports an earlier state of that
  function, in which the handlers of these tools held the client they were created
  with, as a defect to be repaired by binding them as \<open>server_add\<close> does.)
\<close>

definition bindStaticTools :: "RemoteTool list \<Rightarrow> DynamicWrapper \<Rightarrow> DynamicWrapper" where
  "bindStaticTools tools w0 =
     fold (\<lambda>tool w. AddTool w (ServerName tool @ ''_'' @ OriginalName tool)
                       (createDynamicProxyHandler (ServerName tool) (OriginalName tool)))
          tools w0"

section \<open>Notions used in the statements and proofs\<close>

text \<open>
  The names of the \<open>extra\<close> lists and of the \<open>prefix\<close> lists, server level first, as
  steps 3 and 4 of \<open>BuildEnvironment\<close> read them.
\<close>

definition extraNames :: "ServerConfig \<Rightarrow> InheritConfig option \<Rightarrow> string list" where
  "extraNames cfg proxy =
     (case Inherit cfg of Some i \<Rightarrow> Extra i | None \<Rightarrow> [])
     @ (case proxy of Some p \<Rightarrow> Extra p | None \<Rightarrow> [])"

definition prefixNames :: "ServerConfig \<Rightarrow> InheritConfig option \<Rightarrow> string list" where
  "prefixNames cfg proxy =
     (case Inherit cfg of Some i \<Rightarrow> Prefix i | None \<Rightarrow> [])
     @ (case proxy of Some p \<Rightarrow> Prefix p | None \<Rightarrow> [])"


text \<open>\<open>addVar\<close> does not return early for the normalized name \<open>lk\<close>.\<close>

definition admits :: "ServerConfig \<Rightarrow> InheritConfig option \<Rightarrow> string set \<Rightarrow> string \<Rightarrow> bool \<Rightarrow> bool" where
  "admits cfg proxy D lk ex =
     (lk \<in> D \<longrightarrow> ex \<and> ((case Inherit cfg of Some i \<Rightarrow> AllowDeniedIfExplicit i | None \<Rightarrow> False)
                    \<or> (case proxy of Some p \<Rightarrow> AllowDeniedIfExplicit p | None \<Rightarrow> False)))"

text \<open>
  The name that a \<open>KEY=value\<close> string defines: what stands before its first \<open>=\<close> (as
  \<open>splitEnvEntry\<close> reads the strings of the parent environment), normalized.
\<close>

definition definedName :: "Runtime \<Rightarrow> string \<Rightarrow> string" where
  "definedName rt s = normalizeKey (fst (splitEnvEntry s)) rt"

text \<open>
  The value that the parent environment gives to a normalized name: that of the last
  of its strings that define the name.
\<close>

definition parentValue :: "Runtime \<Rightarrow> string list \<Rightarrow> string \<Rightarrow> string option" where
  "parentValue rt environ n =
     (case filter (\<lambda>entry. fst (splitEnvEntry entry) \<noteq> [] \<and> definedName rt entry = n) environ of
        [] \<Rightarrow> None
      | e # es \<Rightarrow> Some (snd (splitEnvEntry (last (e # es)))))"

text \<open>
  \<open>=\<close> is not a letter: upper-casing a string neither adds nor removes it. Of the
  library function for strings with a byte of 128 or more this is a hypothesis where
  it is needed.
\<close>

definition keepsEquals :: "Runtime \<Rightarrow> bool" where
  "keepsEquals rt =
     (\<forall>s. \<not> isASCII s \<longrightarrow> (CHR ''='' \<in> set (mapToUpper rt s)) = (CHR ''='' \<in> set s))"

text \<open>The loops of \<open>buildParentMap\<close>, of step 4 and of step 5, from any starting map.\<close>

definition parentStage :: "Runtime \<Rightarrow> string list \<Rightarrow> (string \<times> string) list \<Rightarrow> (string \<times> string) list" where
  "parentStage w environ acc =
     fold (\<lambda>entry parentMap.
             (let (key, val) = splitEnvEntry entry in
              if key = [] then parentMap
              else AList.update (normalizeKey key w) val parentMap))
          environ acc"

definition prefixStage ::
  "Runtime \<Rightarrow> string list \<Rightarrow> string set \<Rightarrow> string list \<Rightarrow> (string \<times> string) list \<Rightarrow> envMap \<Rightarrow> envMap" where
  "prefixStage w environ D ps P m =
     fold (\<lambda>(lookupKey, val) m. if lookupKey \<in> D then m
                                  else matchPrefixes w environ ps lookupKey val m) P m"

definition overrideStage :: "Runtime \<Rightarrow> (string \<times> string) list \<Rightarrow> envMap \<Rightarrow> envMap" where
  "overrideStage w env m =
     fold (\<lambda>(key, val) m. AList.update (normalizeKey key w) (key, val) m) env m"

text \<open>The entry that step 4 writes for the parent variable \<open>lk\<close> with value \<open>val\<close>.\<close>

definition prefixEntry ::
  "Runtime \<Rightarrow> string list \<Rightarrow> string list \<Rightarrow> string \<Rightarrow> string \<Rightarrow> string \<times> string \<times> string \<Rightarrow> bool" where
  "prefixEntry w environ ps lk val x =
     (x = (lk, findOriginalKey w environ lk val, val) \<and> findOriginalKey w environ lk val \<noteq> []
      \<and> (\<exists>p \<in> set ps. HasPrefix lk (normalizeKey p w)))"

text \<open>
  The client object that a handler run allocates in the state \<open>w\<close>, the configuration
  that \<open>server_add\<close> builds, and the trace once the new client has been given its
  inheritance policy and its environment, before it connects.
\<close>

definition addedClient :: "DynamicWrapper \<Rightarrow> string \<Rightarrow> MCPClient" where
  "addedClient w name = \<lparr>ClientId = nextClient w, ClientServerName = name\<rparr>"


definition addedConfig :: "World \<Rightarrow> string \<Rightarrow> string \<Rightarrow> ServerConfig" where
  "addedConfig world name command =
     \<lparr>Name = name, ServerPrefix = name, Transport = ''stdio'', Command = hd (Fields world command),
      Args = tl (Fields world command), Env = [], Inherit = None, URL = [], Auth = None,
      Timeout = ''30s''\<rparr>"

definition configured :: "DynamicWrapper \<Rightarrow> MCPClient \<Rightarrow> ServerConfig \<Rightarrow> event list" where
  "configured w c cfg =
     trace w @ [EvSetInheritConfig c (ResolveInheritConfig cfg (proxyInherit w))]
     @ (if length (Env cfg) > 0
        then [EvSetEnvironment c (map (\<lambda>(key, val). key @ ''='' @ val) (Env cfg))] else [])"

text \<open>The upstream table, the registry, the bound tools and the client list are as before.\<close>

definition unchangedServers :: "DynamicWrapper \<Rightarrow> DynamicWrapper \<Rightarrow> bool" where
  "unchangedServers w w' =
     (dynamicServers w' = dynamicServers w \<and> registry w' = registry w
      \<and> baseTools w' = baseTools w \<and> proxyClients w' = proxyClients w)"

text \<open>
  Every record of the table is stored under the name of its configuration, and the
  client it holds bears that name and is on the proxy server's client list.
\<close>

definition clientsListed :: "DynamicWrapper \<Rightarrow> bool" where
  "clientsListed w =
     (\<forall>n info. dynamicServers w n = Some info \<longrightarrow>
        Name (Config info) = n
        \<and> (\<forall>c. Client info = Some c \<longrightarrow> ClientServerName c = n \<and> c \<in> set (proxyClients w)))"

text \<open>The client list after a successful \<open>server_reconnect\<close>.\<close>

definition relisted :: "string \<Rightarrow> MCPClient \<Rightarrow> MCPClient list \<Rightarrow> MCPClient list" where
  "relisted name c cs = (case replaceClient name c cs of Some cs' \<Rightarrow> cs' | None \<Rightarrow> cs @ [c])"

text \<open>
  Every handler bound on the host-side server was made by \<open>createDynamicProxyHandler\<close>
  from the two parts of the name it is bound to. Every tool name of a record is bound.
  Every client on the client list was allocated before \<open>nextClient\<close>.
\<close>

definition boundByName :: "DynamicWrapper \<Rightarrow> bool" where
  "boundByName w =
     (\<forall>p h. map_of (baseTools w) p = Some h \<longrightarrow>
        (\<exists>sn tn. h = createDynamicProxyHandler sn tn \<and> p = sn @ ''_'' @ tn))"

definition toolsBound :: "DynamicWrapper \<Rightarrow> bool" where
  "toolsBound w =
     (\<forall>n info p. dynamicServers w n = Some info \<longrightarrow> p \<in> set (Tools info) \<longrightarrow>
        p \<in> fst ` set (baseTools w))"

definition clientsAllocated :: "DynamicWrapper \<Rightarrow> bool" where
  "clientsAllocated w = (\<forall>c \<in> set (proxyClients w). ClientId c < nextClient w)"

text \<open>The tools bound on the host-side server once \<open>registerTools\<close> has run.\<close>

definition boundAfter ::
  "string \<Rightarrow> ToolInfo list \<Rightarrow> (string \<times> ToolHandler) list \<Rightarrow> (string \<times> ToolHandler) list" where
  "boundAfter name tools bound =
     fold (\<lambda>tool. AList.update (name @ ''_'' @ TName tool)
                     (createDynamicProxyHandler name (TName tool)))
          tools bound"

text \<open>
  What a step from \<open>w\<close> to \<open>w'\<close> may do to the bound tools, the tool names of the records
  and the clients: a tool newly bound, or bound again, gets a handler made from the two
  parts of its name; a name stays bound; a tool name of a record was one before or is
  bound; a client on the list was there before or is newly allocated.
\<close>

definition grows :: "DynamicWrapper \<Rightarrow> DynamicWrapper \<Rightarrow> bool" where
  "grows w w' =
     ((\<forall>p h. map_of (baseTools w') p = Some h \<longrightarrow>
         map_of (baseTools w) p = Some h
         \<or> (\<exists>sn tn. h = createDynamicProxyHandler sn tn \<and> p = sn @ ''_'' @ tn))
      \<and> fst ` set (baseTools w) \<subseteq> fst ` set (baseTools w')
      \<and> (\<forall>n info' p. dynamicServers w' n = Some info' \<longrightarrow> p \<in> set (Tools info') \<longrightarrow>
            (\<exists>info. dynamicServers w n = Some info \<and> p \<in> set (Tools info))
            \<or> p \<in> fst ` set (baseTools w'))
      \<and> nextClient w \<le> nextClient w'
      \<and> (\<forall>c \<in> set (proxyClients w').
            c \<in> set (proxyClients w) \<or> ClientId c < nextClient w'))"

text \<open>
  The states of the wrapper. At start-up the table is empty and no upstream tool is
  bound; the proxy server has its clients, the tools it discovered (each under the
  prefixed name \<open><upstream-name>_<original-name>\<close>) are bound, and \<open>Initialize\<close> fills
  the table from the static servers. Then the management tools and the tools bound on
  the host-side server run, one call after the other. \<open>server_list\<close> only reads the
  table.
\<close>

inductive reachable :: "World \<Rightarrow> DynamicWrapper \<Rightarrow> bool" for world :: World where
  initialized:
    "dynamicServers w = Map.empty \<Longrightarrow> baseTools w = [] \<Longrightarrow>
     \<forall>c \<in> set (proxyClients w). ClientId c < nextClient w \<Longrightarrow>
     \<forall>tool \<in> set allTools. PrefixedName tool = ServerName tool @ ''_'' @ OriginalName tool \<Longrightarrow>
     reachable world
       (populateStaticServers servers allTools discoveryResults (bindStaticTools allTools w))"
| added:
    "reachable world w \<Longrightarrow> reachable world (snd (handleServerAdd world w request))"
| removed:
    "reachable world w \<Longrightarrow> handleServerRemove world w request = Returns (x, w') \<Longrightarrow>
     reachable world w'"
| disconnected:
    "reachable world w \<Longrightarrow> handleServerDisconnect world w request = Returns (x, w') \<Longrightarrow>
     reachable world w'"
| reconnected:
    "reachable world w \<Longrightarrow> reachable world (snd (handleServerReconnect world w request))"
| called:
    "reachable world w \<Longrightarrow> callTool world w toolName request = Some r \<Longrightarrow>
     reachable world (snd r)"

text \<open>
  The classification of an error text in the words of the specification: a
  case-insensitive substring match against a lower-case word. \<open>foldEq c k\<close>: the byte \<open>c\<close>
  is \<open>k\<close>, or \<open>k\<close> is a lower-case letter and \<open>c\<close> is the same letter in upper case.
\<close>

definition foldEq :: "char \<Rightarrow> char \<Rightarrow> bool" where
  "foldEq c k =
     (c = k \<or> (97 \<le> (of_char k :: nat) \<and> (of_char k :: nat) \<le> 122
               \<and> (of_char c :: nat) + 32 = of_char k))"

definition containsFold :: "string \<Rightarrow> string \<Rightarrow> bool" where
  "containsFold s word = (\<exists>pre mid post. s = pre @ mid @ post \<and> list_all2 foldEq mid word)"

definition connectionWords :: "string list" where
  "connectionWords = [''connection'', ''broken pipe'', ''eof'', ''closed'', ''timeout'']"

definition matchesConnectionWord :: "World \<Rightarrow> string \<Rightarrow> bool" where
  "matchesConnectionWord world err =
     (if isASCII err then \<exists>word \<in> set connectionWords. containsFold err word
      else \<exists>word \<in> set connectionWords. \<exists>pre post. mapToLower world err = pre @ word @ post)"

section \<open>Example inputs\<close>

text \<open>
  A runtime that is not Windows and one that is. The strings of the examples hold ASCII
  bytes only, so \<open>mapToUpper\<close> is never applied in them.
\<close>

definition posix :: Runtime where
  "posix = \<lparr>Windows = False, mapToUpper = (\<lambda>s. s)\<rparr>"

definition windows :: Runtime where
  "windows = \<lparr>Windows = True, mapToUpper = (\<lambda>s. s)\<rparr>"

definition exampleConfig :: "(string \<times> string) list \<Rightarrow> InheritConfig option \<Rightarrow> ServerConfig" where
  "exampleConfig env inh =
     \<lparr>Name = ''echo'', ServerPrefix = ''echo'', Transport = ''stdio'',
      Command = ''/usr/bin/echo-mcp'', Args = [], Env = env, Inherit = inh,
      URL = [], Auth = None, Timeout = ''30s''\<rparr>"

definition exampleInherit :: "InheritMode \<Rightarrow> string list \<Rightarrow> bool \<Rightarrow> InheritConfig" where
  "exampleInherit m extra allow =
     \<lparr>Mode = m, Extra = extra, Prefix = [], Deny = [], AllowDeniedIfExplicit = allow\<rparr>"

text \<open>
  A world in which every child starts, advertises the tool \<open>greet\<close> and answers with
  its own number; worlds in which every tool call, or every connect, fails with a
  given error.
\<close>

definition exampleWorld :: World where
  "exampleWorld =
     \<lparr>connectResult = (\<lambda>tr c. None), initializeResult = (\<lambda>tr c. None),
      listToolsResult = (\<lambda>tr c. Inr [\<lparr>TName = ''greet'', TDescription = ''Greets'', TInputSchema = ''{}''\<rparr>]),
      callToolResult = (\<lambda>tr c name args. Inr (NewToolResultText (''hi from child '' @ itoa (ClientId c)))),
      absPath = (\<lambda>f. Some (''/work/'' @ f)), mapToLower = (\<lambda>s. s), fieldsUnicode = (\<lambda>s. [s])\<rparr>"

definition failingCalls :: "string \<Rightarrow> World" where
  "failingCalls err = exampleWorld\<lparr>callToolResult := (\<lambda>tr c name args. Inl err)\<rparr>"

definition failingConnect :: "string \<Rightarrow> World" where
  "failingConnect err = exampleWorld\<lparr>connectResult := (\<lambda>tr c. Some err)\<rparr>"

definition failingInitialize :: "string \<Rightarrow> World" where
  "failingInitialize err = exampleWorld\<lparr>initializeResult := (\<lambda>tr c. Some err)\<rparr>"

definition failingListTools :: "string \<Rightarrow> World" where
  "failingListTools err = exampleWorld\<lparr>listToolsResult := (\<lambda>tr c. Inl err)\<rparr>"

definition stringArgs :: "(string \<times> string) list \<Rightarrow> CallToolRequest" where
  "stringArgs args = \<lparr>Arguments = map (\<lambda>(k, v). (k, JString v)) args\<rparr>"

text \<open>
  The wrapper after \<open>server_add echo\<close>, after \<open>server_disconnect echo\<close>, after
  \<open>server_reconnect echo\<close> with no command, and the first of them with recording on.
\<close>

definition exampleConnected :: DynamicWrapper where
  "exampleConnected =
     snd (handleServerAdd exampleWorld (NewDynamicWrapper None)
            (stringArgs [(''name'', ''echo''), (''command'', ''/usr/bin/echo-mcp --fast'')]))"



definition exampleRecording :: DynamicWrapper where
  "exampleRecording = exampleConnected\<lparr>recordEnabled := True, recordFilename := ''session.jsonl''\<rparr>"






section \<open>Properties of the environment builder\<close>

subsection \<open>Writes to the map and the deny set\<close>

lemma set_update_subset: "set (AList.update k v al) \<subseteq> insert (k, v) (set al)"
  by (induction al) auto

lemma fold_insert_image: "fold (\<lambda>key m. insert (f key) m) xs A = f ` set xs \<union> A"
  by (induction xs arbitrary: A) auto

lemma buildDenyMap_eq:
  "buildDenyMap cfg proxy w =
     (\<lambda>k. normalizeKey k w) ` (set ImplicitDenylist
        \<union> (case Inherit cfg of Some i \<Rightarrow> set (Deny i) | None \<Rightarrow> {})
        \<union> (case proxy of Some p \<Rightarrow> set (Deny p) | None \<Rightarrow> {}))"
  by (auto simp: buildDenyMap_def fold_insert_image split: option.splits)

lemma addVar_eq:
  "addVar w cfg proxy D P key ex m =
     (if admits cfg proxy D (normalizeKey key w) ex then
        (case map_of P (normalizeKey key w) of
           Some val \<Rightarrow> AList.update (normalizeKey key w) (key, val) m
         | None \<Rightarrow> m)
      else m)"
  by (auto simp: addVar_def admits_def Let_def split: option.splits)

lemma addVar_keys:
  "fst ` set (addVar w cfg proxy D P key ex m) =
     fst ` set m \<union> (if admits cfg proxy D (normalizeKey key w) ex \<and> normalizeKey key w \<in> fst ` set P
                     then {normalizeKey key w} else {})"
proof (cases "map_of P (normalizeKey key w)")
  case None
  then have "normalizeKey key w \<notin> fst ` set P"
    by (simp add: map_of_eq_None_iff)
  with None show ?thesis by (simp add: addVar_eq)
next
  case (Some val)
  then have "normalizeKey key w \<in> fst ` set P"
    using map_of_SomeD by force
  with Some show ?thesis by (simp add: addVar_eq AList.dom_update)
qed

lemma fold_addVar_keys:
  "fst ` set (fold (\<lambda>key. addVar w cfg proxy D P key ex) ks m) =
     fst ` set m \<union> {normalizeKey key w | key. key \<in> set ks
                       \<and> admits cfg proxy D (normalizeKey key w) ex
                       \<and> normalizeKey key w \<in> fst ` set P}"
proof (induction ks arbitrary: m)
  case Nil
  show ?case by simp
next
  case (Cons k ks)
  show ?case
    unfolding fold_simps Cons.IH addVar_keys by auto
qed

lemma addVar_entries:
  "x \<in> set (addVar w cfg proxy D P key ex m) \<Longrightarrow>
     x \<in> set m \<or> (\<exists>val. x = (normalizeKey key w, key, val) \<and>
                 map_of P (normalizeKey key w) = Some val \<and> admits cfg proxy D (normalizeKey key w) ex)"
  using set_update_subset [of "normalizeKey key w" _ m]
  by (auto simp: addVar_eq split: option.splits if_splits)

lemma fold_addVar_entries:
  "x \<in> set (fold (\<lambda>key. addVar w cfg proxy D P key ex) ks m) \<Longrightarrow>
     x \<in> set m \<or> (\<exists>key val. key \<in> set ks \<and> x = (normalizeKey key w, key, val) \<and>
                 map_of P (normalizeKey key w) = Some val \<and> admits cfg proxy D (normalizeKey key w) ex)"
proof (induction ks arbitrary: m)
  case Nil
  then show ?case by simp
next
  case (Cons k ks)
  from Cons.prems have "x \<in> set (fold (\<lambda>key. addVar w cfg proxy D P key ex) ks (addVar w cfg proxy D P k ex m))"
    by simp
  from Cons.IH [OF this] addVar_entries [of x w cfg proxy D P k ex m]
  show ?case by auto
qed

lemma addVar_distinct:
  "distinct (map fst m) \<Longrightarrow> distinct (map fst (addVar w cfg proxy D P key ex m))"
  by (simp add: addVar_eq AList.distinct_update split: option.splits)

lemma fold_addVar_distinct:
  "distinct (map fst m) \<Longrightarrow> distinct (map fst (fold (\<lambda>key. addVar w cfg proxy D P key ex) ks m))"
  by (induction ks arbitrary: m) (simp_all add: addVar_distinct)

subsection \<open>Prefix stage\<close>

lemma findOriginalKey_props:
  "findOriginalKey w environ lk val \<noteq> [] \<Longrightarrow>
     normalizeKey (findOriginalKey w environ lk val) w = lk
     \<and> (\<exists>entry \<in> set environ. splitEnvEntry entry = (findOriginalKey w environ lk val, val))"
  by (induction environ) (auto split: prod.splits if_splits)

lemma matchPrefixes_entries:
  "x \<in> set (matchPrefixes w environ ps lk val m) \<Longrightarrow> x \<in> set m \<or> prefixEntry w environ ps lk val x"
proof (induction ps)
  case Nil
  then show ?case by simp
next
  case (Cons p ps)
  show ?case
  proof (cases "HasPrefix lk (normalizeKey p w)")
    case True
    with Cons.prems set_update_subset [of lk "(findOriginalKey w environ lk val, val)" m]
    show ?thesis
      by (auto simp: Let_def prefixEntry_def split: if_splits)
  next
    case False
    with Cons show ?thesis by (auto simp: Let_def prefixEntry_def)
  qed
qed


lemma matchPrefixes_distinct:
  "distinct (map fst m) \<Longrightarrow> distinct (map fst (matchPrefixes w environ ps lk val m))"
  by (induction ps) (auto simp: Let_def AList.distinct_update)

lemma prefixStage_Cons:
  "prefixStage w environ D ps ((lk, val) # P) m =
     prefixStage w environ D ps P (if lk \<in> D then m else matchPrefixes w environ ps lk val m)"
  by (simp add: prefixStage_def)

lemma prefixStage_entries:
  "x \<in> set (prefixStage w environ D ps P m) \<Longrightarrow>
     x \<in> set m \<or> (\<exists>lk val. (lk, val) \<in> set P \<and> lk \<notin> D \<and> prefixEntry w environ ps lk val x)"
proof (induction P arbitrary: m)
  case Nil
  then show ?case by (simp add: prefixStage_def)
next
  case (Cons e P)
  obtain lk val where e: "e = (lk, val)" by (cases e)
  let ?m = "if lk \<in> D then m else matchPrefixes w environ ps lk val m"
  from Cons.prems have "x \<in> set (prefixStage w environ D ps P ?m)"
    unfolding e prefixStage_Cons .
  from Cons.IH [OF this]
  consider "x \<in> set ?m" | "\<exists>lk val. (lk, val) \<in> set P \<and> lk \<notin> D \<and> prefixEntry w environ ps lk val x"
    by blast
  then show ?case
  proof cases
    case 1
    then have "x \<in> set m \<or> (lk \<notin> D \<and> prefixEntry w environ ps lk val x)"
      using matchPrefixes_entries [of x w environ ps lk val m] by (auto split: if_splits)
    then show ?thesis unfolding e by auto
  next
    case 2
    then show ?thesis by auto
  qed
qed


lemma prefixStage_distinct:
  "distinct (map fst m) \<Longrightarrow> distinct (map fst (prefixStage w environ D ps P m))"
  unfolding prefixStage_def
  by (induction P arbitrary: m) (auto simp: matchPrefixes_distinct)

lemma prefixStage_no_prefixes: "prefixStage w environ D [] P m = m"
  unfolding prefixStage_def by (induction P arbitrary: m) auto

subsection \<open>Override stage\<close>

lemma overrideStage_Cons:
  "overrideStage w ((k, v) # env) m = overrideStage w env (AList.update (normalizeKey k w) (k, v) m)"
  by (simp add: overrideStage_def)

lemma overrideStage_keys:
  "fst ` set (overrideStage w env m) = fst ` set m \<union> (\<lambda>k. normalizeKey k w) ` fst ` set env"
proof (induction env arbitrary: m)
  case Nil
  show ?case by (simp add: overrideStage_def)
next
  case (Cons e env)
  obtain k v where e: "e = (k, v)" by (cases e)
  show ?case
    unfolding e overrideStage_Cons Cons.IH AList.dom_update by auto
qed

lemma overrideStage_distinct:
  "distinct (map fst m) \<Longrightarrow> distinct (map fst (overrideStage w env m))"
  unfolding overrideStage_def
  by (induction env arbitrary: m) (auto simp: AList.distinct_update)

lemma overrideStage_other:
  "lk \<notin> (\<lambda>k. normalizeKey k w) ` fst ` set env \<Longrightarrow>
     map_of (overrideStage w env m) lk = map_of m lk"
  unfolding overrideStage_def
  by (induction env arbitrary: m) (auto simp: AList.update_conv')

lemma overrideStage_hit:
  "lk \<in> (\<lambda>k. normalizeKey k w) ` fst ` set env \<Longrightarrow>
     \<exists>key val. (key, val) \<in> set env \<and> normalizeKey key w = lk
        \<and> map_of (overrideStage w env m) lk = Some (key, val)"
proof (induction env arbitrary: m)
  case Nil
  then show ?case by simp
next
  case (Cons e env)
  obtain k v where e: "e = (k, v)" by (cases e)
  show ?case
  proof (cases "lk \<in> (\<lambda>k. normalizeKey k w) ` fst ` set env")
    case True
    from Cons.IH [OF True, of "AList.update (normalizeKey k w) (k, v) m"]
    show ?thesis unfolding e overrideStage_Cons by auto
  next
    case False
    with Cons.prems have lk: "normalizeKey k w = lk" by (auto simp: e)
    have "map_of (overrideStage w (e # env) m) lk = Some (k, v)"
      unfolding e overrideStage_Cons using overrideStage_other [OF False] lk
      by (simp add: AList.update_conv')
    with lk show ?thesis by (auto simp: e)
  qed
qed

lemma overrideStage_distinct_hit:
  "distinct (map (\<lambda>e. normalizeKey (fst e) w) env) \<Longrightarrow> (key, val) \<in> set env \<Longrightarrow>
     map_of (overrideStage w env m) (normalizeKey key w) = Some (key, val)"
proof (induction env arbitrary: m)
  case Nil
  then show ?case by simp
next
  case (Cons e env)
  obtain k v where e: "e = (k, v)" by (cases e)
  show ?case
  proof (cases "(key, val) = e")
    case True
    with Cons.prems(1) have "normalizeKey key w \<notin> (\<lambda>k. normalizeKey k w) ` fst ` set env"
      by (auto simp: e image_iff)
    from overrideStage_other [OF this] True show ?thesis
      unfolding e overrideStage_Cons by (simp add: e AList.update_conv')
  next
    case False
    with Cons.prems have "(key, val) \<in> set env" "distinct (map (\<lambda>e. normalizeKey (fst e) w) env)"
      by auto
    from Cons.IH [OF this(2) this(1)] show ?thesis unfolding e overrideStage_Cons .
  qed
qed

lemma overrideStage_entries:
  "x \<in> set (overrideStage w env m) \<Longrightarrow>
     x \<in> set m \<or> (\<exists>key val. (key, val) \<in> set env \<and> x = (normalizeKey key w, key, val))"
proof (induction env arbitrary: m)
  case Nil
  then show ?case by (simp add: overrideStage_def)
next
  case (Cons e env)
  obtain k v where e: "e = (k, v)" by (cases e)
  from Cons.prems have "x \<in> set (overrideStage w env (AList.update (normalizeKey k w) (k, v) m))"
    unfolding e overrideStage_Cons .
  from Cons.IH [OF this] set_update_subset [of "normalizeKey k w" "(k, v)" m]
  show ?case unfolding e by auto
qed

subsection \<open>The whole map\<close>

lemma BuildEnvironment_envMap_stages:
  "BuildEnvironment_envMap w environ cfg proxy =
     overrideStage w (Env cfg)
       (prefixStage w environ (buildDenyMap cfg proxy w)
          ((case Inherit cfg of Some i \<Rightarrow> Prefix i | None \<Rightarrow> [])
            @ (case proxy of Some p \<Rightarrow> Prefix p | None \<Rightarrow> []))
          (buildParentMap environ w)
          (fold (\<lambda>key. addVar w cfg proxy (buildDenyMap cfg proxy w) (buildParentMap environ w) key True)
             ((case Inherit cfg of Some i \<Rightarrow> Extra i | None \<Rightarrow> [])
               @ (case proxy of Some p \<Rightarrow> Extra p | None \<Rightarrow> []))
             (fold (\<lambda>key. addVar w cfg proxy (buildDenyMap cfg proxy w) (buildParentMap environ w) key False)
                (Tier1Vars @ (if tier2Enabled cfg proxy then Tier2Vars else [])) [])))"
  unfolding BuildEnvironment_envMap_def overrideStage_def prefixStage_def Let_def
  by (simp split: option.splits)

subsection \<open>Parent map\<close>

lemma Index_ge: "- 1 \<le> Index s c"
  by (induction s) (auto simp: Let_def)

lemma Index_take: "c \<notin> set (take (nat (Index s c)) s)"
proof (induction s)
  case Nil
  show ?case by simp
next
  case (Cons x s)
  show ?case
  proof (cases "x = c")
    case True
    then show ?thesis by simp
  next
    case False
    show ?thesis
    proof (cases "Index s c < 0")
      case True
      with False show ?thesis by (simp add: Let_def)
    next
      case nonneg: False
      then have "nat (Index s c + 1) = Suc (nat (Index s c))" by simp
      with False nonneg Cons.IH show ?thesis by (simp add: Let_def)
    qed
  qed
qed

lemma Index_append: "c \<notin> set k \<Longrightarrow> Index (k @ c # v) c = int (length k)"
  by (induction k) (auto simp: Let_def)

lemma splitEnvEntry_key_noeq: "CHR ''='' \<notin> set (fst (splitEnvEntry e))"
  using Index_take [of "CHR ''=''" e] by (simp add: splitEnvEntry_def Let_def)

lemma splitEnvEntry_join:
  assumes "CHR ''='' \<notin> set key"
  shows "fst (splitEnvEntry (key @ ''='' @ val)) = key"
proof -
  have idx: "Index (key @ ''='' @ val) (CHR ''='') = int (length key)"
    using Index_append [OF assms, of val] by simp
  show ?thesis
    unfolding splitEnvEntry_def idx Let_def by simp
qed

lemma of_char_upperChar:
  "(of_char (upperChar c) :: nat) =
     (if 97 \<le> (of_char c :: nat) \<and> (of_char c :: nat) \<le> 122 then of_char c - 32 else of_char c)"
  by (auto simp: upperChar_def)

lemma char_eq_iff_nat: "c = d \<longleftrightarrow> (of_char c :: nat) = of_char d"
  by simp

lemma upperChar_eq: "upperChar c = CHR ''='' \<longleftrightarrow> c = CHR ''=''"
  unfolding char_eq_iff_nat [of _ "CHR ''=''"] of_char_upperChar by auto

lemma ToUpper_noeq:
  "keepsEquals rt \<Longrightarrow> CHR ''='' \<in> set (ToUpper rt k) \<longleftrightarrow> CHR ''='' \<in> set k"
proof (cases "isASCII k")
  case True
  have "CHR ''='' \<in> set (map upperChar k) \<longleftrightarrow> CHR ''='' \<in> set k"
    by (induction k) (simp_all add: upperChar_eq eq_commute [of "CHR ''=''"])
  with True show ?thesis by (simp add: ToUpper_def)
next
  case False
  assume "keepsEquals rt"
  with False show ?thesis by (simp add: ToUpper_def keepsEquals_def)
qed

lemma normalizeKey_noeq:
  "Windows w \<longrightarrow> keepsEquals w \<Longrightarrow>
   CHR ''='' \<in> set (normalizeKey k w) \<longleftrightarrow> CHR ''='' \<in> set k"
  by (simp add: normalizeKey_def ToUpper_noeq)

lemma buildParentMap_parentStage: "buildParentMap environ w = parentStage w environ []"
  by (simp add: buildParentMap_def parentStage_def)

lemma parentStage_Cons:
  "parentStage w (entry # environ) acc =
     parentStage w environ
       (if fst (splitEnvEntry entry) = [] then acc
        else AList.update (normalizeKey (fst (splitEnvEntry entry)) w) (snd (splitEnvEntry entry)) acc)"
  by (simp add: parentStage_def split: prod.splits)

lemma parentStage_distinct:
  "distinct (map fst acc) \<Longrightarrow> distinct (map fst (parentStage w environ acc))"
proof (induction environ arbitrary: acc)
  case Nil
  then show ?case by (simp add: parentStage_def)
next
  case (Cons e environ)
  show ?case
    unfolding parentStage_Cons
    by (rule Cons.IH) (simp add: Cons.prems AList.distinct_update)
qed

lemma parentStage_keys:
  "fst ` set (parentStage w environ acc) =
     fst ` set acc \<union> {normalizeKey (fst (splitEnvEntry entry)) w | entry.
                           entry \<in> set environ \<and> fst (splitEnvEntry entry) \<noteq> []}"
proof (induction environ arbitrary: acc)
  case Nil
  show ?case by (simp add: parentStage_def)
next
  case (Cons e environ)
  show ?case
    unfolding parentStage_Cons Cons.IH by (auto simp: AList.dom_update)
qed

lemma buildParentMap_distinct: "distinct (map fst (buildParentMap environ w))"
  by (simp add: buildParentMap_parentStage parentStage_distinct)

lemma buildParentMap_keys:
  "fst ` set (buildParentMap environ w) =
     {normalizeKey (fst (splitEnvEntry entry)) w | entry.
        entry \<in> set environ \<and> fst (splitEnvEntry entry) \<noteq> []}"
  by (simp add: buildParentMap_parentStage parentStage_keys)

lemma buildParentMap_key_noeq:
  assumes "Windows w \<longrightarrow> keepsEquals w" and "lk \<in> fst ` set (buildParentMap environ w)"
  shows "CHR ''='' \<notin> set lk"
proof -
  from assms(2) obtain entry where lk: "lk = normalizeKey (fst (splitEnvEntry entry)) w"
    unfolding buildParentMap_keys by auto
  have "CHR ''='' \<notin> set (fst (splitEnvEntry entry))" by (rule splitEnvEntry_key_noeq)
  then show ?thesis unfolding lk by (simp add: normalizeKey_noeq [OF assms(1)])
qed

subsection \<open>Entries of the built map\<close>

lemma envMap_stages:
  "BuildEnvironment_envMap w environ cfg proxy =
     overrideStage w (Env cfg)
       (prefixStage w environ (buildDenyMap cfg proxy w) (prefixNames cfg proxy)
          (buildParentMap environ w)
          (fold (\<lambda>key. addVar w cfg proxy (buildDenyMap cfg proxy w) (buildParentMap environ w) key True)
             (extraNames cfg proxy)
             (fold (\<lambda>key. addVar w cfg proxy (buildDenyMap cfg proxy w) (buildParentMap environ w) key False)
                (Tier1Vars @ (if tier2Enabled cfg proxy then Tier2Vars else [])) [])))"
  unfolding BuildEnvironment_envMap_stages extraNames_def prefixNames_def ..

lemma envMap_distinct: "distinct (map fst (BuildEnvironment_envMap w environ cfg proxy))"
  unfolding envMap_stages
  by (intro overrideStage_distinct prefixStage_distinct fold_addVar_distinct) simp

lemma envMap_entry_cases:
  assumes "(lk, key, val) \<in> set (BuildEnvironment_envMap w environ cfg proxy)"
  shows "normalizeKey key w = lk \<and>
     ((key, val) \<in> set (Env cfg)
      \<or> (map_of (buildParentMap environ w) lk = Some val \<and>
           ((key \<in> set Tier1Vars \<union> (if tier2Enabled cfg proxy then set Tier2Vars else {})
               \<and> lk \<notin> buildDenyMap cfg proxy w)
            \<or> (key \<in> set (extraNames cfg proxy) \<and> admits cfg proxy (buildDenyMap cfg proxy w) lk True)
            \<or> (lk \<notin> buildDenyMap cfg proxy w
                \<and> (\<exists>p \<in> set (prefixNames cfg proxy). HasPrefix lk (normalizeKey p w))
                \<and> (\<exists>entry \<in> set environ. splitEnvEntry entry = (key, val))))))"
proof -
  let ?D = "buildDenyMap cfg proxy w"
  let ?P = "buildParentMap environ w"
  let ?m2 = "fold (\<lambda>key. addVar w cfg proxy ?D ?P key False)
                (Tier1Vars @ (if tier2Enabled cfg proxy then Tier2Vars else [])) []"
  let ?m3 = "fold (\<lambda>key. addVar w cfg proxy ?D ?P key True) (extraNames cfg proxy) ?m2"
  let ?m4 = "prefixStage w environ ?D (prefixNames cfg proxy) ?P ?m3"
  from assms have "(lk, key, val) \<in> set (overrideStage w (Env cfg) ?m4)"
    unfolding envMap_stages .
  from overrideStage_entries [OF this]
  consider (override) "(key, val) \<in> set (Env cfg)" "lk = normalizeKey key w"
    | (earlier) "(lk, key, val) \<in> set ?m4"
    by auto
  then show ?thesis
  proof cases
    case override
    then show ?thesis by simp
  next
    case earlier
    from prefixStage_entries [OF earlier]
    consider (pre) lk' val' where "(lk', val') \<in> set ?P" "lk' \<notin> ?D"
        "prefixEntry w environ (prefixNames cfg proxy) lk' val' (lk, key, val)"
      | (m3) "(lk, key, val) \<in> set ?m3"
      by auto
    then show ?thesis
    proof cases
      case pre
      from pre(3) have eq: "lk' = lk" "val' = val" "key = findOriginalKey w environ lk val"
        and ne: "findOriginalKey w environ lk val \<noteq> []"
        and px: "\<exists>p \<in> set (prefixNames cfg proxy). HasPrefix lk (normalizeKey p w)"
        by (auto simp: prefixEntry_def)
      from pre(1) eq have "map_of ?P lk = Some val"
        using buildParentMap_distinct [of environ w] by simp
      moreover from findOriginalKey_props [OF ne] eq
      have "normalizeKey key w = lk" "\<exists>entry \<in> set environ. splitEnvEntry entry = (key, val)"
        by auto
      ultimately show ?thesis using pre(2) eq px by simp
    next
      case m3
      from fold_addVar_entries [OF m3]
      consider (extra) "key \<in> set (extraNames cfg proxy)" "lk = normalizeKey key w"
          "map_of ?P lk = Some val" "admits cfg proxy ?D lk True"
        | (m2) "(lk, key, val) \<in> set ?m2"
        by auto
      then show ?thesis
      proof cases
        case extra
        then show ?thesis by simp
      next
        case m2
        from fold_addVar_entries [OF m2]
        have "key \<in> set (Tier1Vars @ (if tier2Enabled cfg proxy then Tier2Vars else []))
              \<and> lk = normalizeKey key w \<and> map_of ?P lk = Some val \<and> admits cfg proxy ?D lk False"
          by auto
        then show ?thesis by (auto simp: admits_def split: if_splits)
      qed
    qed
  qed
qed

lemma envMap_keyed:
  "(lk, key, val) \<in> set (BuildEnvironment_envMap w environ cfg proxy) \<Longrightarrow> normalizeKey key w = lk"
  using envMap_entry_cases by blast

lemma envMap_key_noeq:
  assumes "(lk, key, val) \<in> set (BuildEnvironment_envMap w environ cfg proxy)"
    and "\<forall>k \<in> fst ` set (Env cfg). CHR ''='' \<notin> set k"
    and "Windows w \<longrightarrow> keepsEquals w"
  shows "CHR ''='' \<notin> set key"
proof -
  from envMap_entry_cases [OF assms(1)]
  consider "(key, val) \<in> set (Env cfg)"
    | "normalizeKey key w = lk" "map_of (buildParentMap environ w) lk = Some val"
    by blast
  then show ?thesis
  proof cases
    case 1
    with assms(2) show ?thesis by force
  next
    case 2
    from 2(2) have "lk \<in> fst ` set (buildParentMap environ w)"
      using map_of_SomeD by force
    from buildParentMap_key_noeq [OF assms(3) this] have "CHR ''='' \<notin> set lk" .
    with 2(1) have "CHR ''='' \<notin> set (normalizeKey key w)" by simp
    then show ?thesis by (simp add: normalizeKey_noeq [OF assms(3)])
  qed
qed

lemma envMap_key_override_or_noeq:
  assumes "(lk, key, val) \<in> set (BuildEnvironment_envMap w environ cfg proxy)"
    and "Windows w \<longrightarrow> keepsEquals w"
  shows "(key, val) \<in> set (Env cfg) \<or> CHR ''='' \<notin> set key"
proof -
  from envMap_entry_cases [OF assms(1)]
  consider "(key, val) \<in> set (Env cfg)"
    | "normalizeKey key w = lk" "map_of (buildParentMap environ w) lk = Some val"
    by blast
  then show ?thesis
  proof cases
    case 1
    then show ?thesis by simp
  next
    case 2
    from 2(2) have "lk \<in> fst ` set (buildParentMap environ w)"
      using map_of_SomeD by force
    from buildParentMap_key_noeq [OF assms(2) this] have "CHR ''='' \<notin> set lk" .
    with 2(1) have "CHR ''='' \<notin> set (normalizeKey key w)" by simp
    then show ?thesis by (simp add: normalizeKey_noeq [OF assms(2)])
  qed
qed

lemma entries_names:
  "map (\<lambda>(key, val). normalizeKey key w) (BuildEnvironment_entries w environ cfg proxy)
     = map fst (BuildEnvironment_envMap w environ cfg proxy)"
  unfolding BuildEnvironment_entries_def map_map
  by (rule map_cong [OF refl]) (auto dest: envMap_keyed)

lemma entries_mem:
  "(key, val) \<in> set (BuildEnvironment_entries w environ cfg proxy) \<longleftrightarrow>
     (normalizeKey key w, key, val) \<in> set (BuildEnvironment_envMap w environ cfg proxy)"
  unfolding BuildEnvironment_entries_def using envMap_keyed by force

lemma envMap_lookup:
  "(lk, key, val) \<in> set (BuildEnvironment_envMap w environ cfg proxy) \<longleftrightarrow>
     map_of (BuildEnvironment_envMap w environ cfg proxy) lk = Some (key, val)"
  using envMap_distinct [of w environ cfg proxy] by simp


lemma envMap_mode:
  assumes "tier2Enabled (cfg\<lparr>Inherit := Some (ic\<lparr>Mode := a\<rparr>)\<rparr>) proxy
         = tier2Enabled (cfg\<lparr>Inherit := Some (ic\<lparr>Mode := b\<rparr>)\<rparr>) proxy"
  shows "BuildEnvironment_envMap w environ (cfg\<lparr>Inherit := Some (ic\<lparr>Mode := a\<rparr>)\<rparr>) proxy
       = BuildEnvironment_envMap w environ (cfg\<lparr>Inherit := Some (ic\<lparr>Mode := b\<rparr>)\<rparr>) proxy"
proof -
  have D: "buildDenyMap (cfg\<lparr>Inherit := Some (ic\<lparr>Mode := m\<rparr>)\<rparr>) proxy w
           = buildDenyMap (cfg\<lparr>Inherit := Some ic\<rparr>) proxy w" for m
    by (simp add: buildDenyMap_def)
  have A: "addVar w (cfg\<lparr>Inherit := Some (ic\<lparr>Mode := m\<rparr>)\<rparr>) proxy
           = addVar w (cfg\<lparr>Inherit := Some ic\<rparr>) proxy" for m
    by (simp add: addVar_def fun_eq_iff)
  have E: "extraNames (cfg\<lparr>Inherit := Some (ic\<lparr>Mode := m\<rparr>)\<rparr>) proxy
           = extraNames (cfg\<lparr>Inherit := Some ic\<rparr>) proxy"
    and F: "prefixNames (cfg\<lparr>Inherit := Some (ic\<lparr>Mode := m\<rparr>)\<rparr>) proxy
           = prefixNames (cfg\<lparr>Inherit := Some ic\<rparr>) proxy" for m
    by (simp_all add: extraNames_def prefixNames_def)
  show ?thesis
    unfolding envMap_stages D A E F assms by simp
qed

lemma envMap_proxy_mode:
  assumes "tier2Enabled cfg (Some (pc\<lparr>Mode := a\<rparr>)) = tier2Enabled cfg (Some (pc\<lparr>Mode := b\<rparr>))"
  shows "BuildEnvironment_envMap w environ cfg (Some (pc\<lparr>Mode := a\<rparr>))
       = BuildEnvironment_envMap w environ cfg (Some (pc\<lparr>Mode := b\<rparr>))"
proof -
  have D: "buildDenyMap cfg (Some (pc\<lparr>Mode := m\<rparr>)) w = buildDenyMap cfg (Some pc) w" for m
    by (simp add: buildDenyMap_def)
  have A: "addVar w cfg (Some (pc\<lparr>Mode := m\<rparr>)) = addVar w cfg (Some pc)" for m
    by (simp add: addVar_def fun_eq_iff)
  have E: "extraNames cfg (Some (pc\<lparr>Mode := m\<rparr>)) = extraNames cfg (Some pc)"
    and F: "prefixNames cfg (Some (pc\<lparr>Mode := m\<rparr>)) = prefixNames cfg (Some pc)" for m
    by (simp_all add: extraNames_def prefixNames_def)
  show ?thesis
    unfolding envMap_stages D A E F assms by simp
qed

lemma tier2Enabled_modes:
  "tier2Enabled (cfg\<lparr>Inherit := Some (ic\<lparr>Mode := InheritNone\<rparr>)\<rparr>) proxy
     = tier2Enabled (cfg\<lparr>Inherit := Some (ic\<lparr>Mode := InheritTier1\<rparr>)\<rparr>) proxy"
  "tier2Enabled (cfg\<lparr>Inherit := Some (ic\<lparr>Mode := InheritAll\<rparr>)\<rparr>) proxy
     = tier2Enabled (cfg\<lparr>Inherit := Some (ic\<lparr>Mode := InheritTier1Tier2\<rparr>)\<rparr>) proxy"
  "tier2Enabled cfg (Some (pc\<lparr>Mode := InheritNone\<rparr>)) = tier2Enabled cfg (Some (pc\<lparr>Mode := InheritTier1\<rparr>))"
  "tier2Enabled cfg (Some (pc\<lparr>Mode := InheritAll\<rparr>)) = tier2Enabled cfg (Some (pc\<lparr>Mode := InheritTier1Tier2\<rparr>))"
  by (simp_all add: tier2Enabled_def InheritNone_def InheritTier1_def InheritTier1Tier2_def
        InheritAll_def split: option.splits)

subsection \<open>The returned strings and the parent's values\<close>

lemma definedName_join:
  "CHR ''='' \<notin> set key \<Longrightarrow> definedName rt (key @ ''='' @ val) = normalizeKey key rt"
  using splitEnvEntry_join [of key val] by (simp add: definedName_def)

lemma BuildEnvironment_mem:
  "s \<in> set (BuildEnvironment rt environ cfg proxy) \<longleftrightarrow>
     (\<exists>key val. (key, val) \<in> set (BuildEnvironment_entries rt environ cfg proxy) \<and> s = key @ ''='' @ val)"
  unfolding BuildEnvironment_def by force

lemma Tier1Vars_noeq: "k \<in> set Tier1Vars \<Longrightarrow> CHR ''='' \<notin> set k"
  by (auto simp: Tier1Vars_def)

lemma parentStage_lookup:
  "map_of (parentStage rt environ acc) n =
     (case parentValue rt environ n of Some v \<Rightarrow> Some v | None \<Rightarrow> map_of acc n)"
proof (induction environ arbitrary: acc)
  case Nil
  show ?case by (simp add: parentStage_def parentValue_def)
next
  case (Cons e environ)
  show ?case
    unfolding parentStage_Cons Cons.IH
    by (auto simp: parentValue_def definedName_def update_conv' split: list.splits option.splits)
qed

lemma buildParentMap_lookup: "map_of (buildParentMap environ rt) n = parentValue rt environ n"
  by (simp add: buildParentMap_parentStage parentStage_lookup split: option.splits)

lemma buildParentMap_defined:
  "n \<in> fst ` set (buildParentMap environ rt) \<longleftrightarrow> parentValue rt environ n \<noteq> None"
  using buildParentMap_lookup [of environ rt n]
  by (metis domIff dom_map_of_conv_image_fst)

subsection \<open>Tier 1 only\<close>

lemma tier1_entries:
  assumes "Inherit cfg = Some ic" and "Mode ic = InheritTier1"
    and "Extra ic = []" and "Prefix ic = []"
  shows "(\<lambda>(key, val). normalizeKey key w) ` set (BuildEnvironment_entries w environ cfg None)
       = (\<lambda>k. normalizeKey k w) `
           ({k \<in> set Tier1Vars. normalizeKey k w \<in> fst ` set (buildParentMap environ w)
                                  \<and> normalizeKey k w \<notin> buildDenyMap cfg None w}
            \<union> fst ` set (Env cfg))
     \<and> (\<forall>(key, val) \<in> set (BuildEnvironment_entries w environ cfg None).
           if normalizeKey key w \<in> (\<lambda>k. normalizeKey k w) ` fst ` set (Env cfg)
           then (key, val) \<in> set (Env cfg)
           else key \<in> set Tier1Vars
                \<and> map_of (buildParentMap environ w) (normalizeKey key w) = Some val
                \<and> normalizeKey key w \<notin> buildDenyMap cfg None w)"
proof -
  let ?D = "buildDenyMap cfg None w"
  let ?P = "buildParentMap environ w"
  let ?M = "BuildEnvironment_envMap w environ cfg None"
  let ?m1 = "fold (\<lambda>key. addVar w cfg None ?D ?P key False) Tier1Vars []"
  have t2: "\<not> tier2Enabled cfg None"
    using assms(1,2)
    by (simp add: tier2Enabled_def InheritTier1_def InheritTier1Tier2_def InheritAll_def)
  have ex: "extraNames cfg None = []" and px: "prefixNames cfg None = []"
    using assms by (simp_all add: extraNames_def prefixNames_def)
  have M: "?M = overrideStage w (Env cfg) ?m1"
    unfolding envMap_stages ex px using t2 by (simp add: prefixStage_no_prefixes)
  have "(\<lambda>(key, val). normalizeKey key w) ` set (BuildEnvironment_entries w environ cfg None)
        = set (map (\<lambda>(key, val). normalizeKey key w) (BuildEnvironment_entries w environ cfg None))"
    by simp
  also have "\<dots> = fst ` set ?M"
    unfolding entries_names by simp
  also have "\<dots> = fst ` set ?m1 \<union> (\<lambda>k. normalizeKey k w) ` fst ` set (Env cfg)"
    unfolding M overrideStage_keys ..
  also have "fst ` set ?m1 = (\<lambda>k. normalizeKey k w) `
      {k \<in> set Tier1Vars. normalizeKey k w \<in> fst ` set ?P \<and> normalizeKey k w \<notin> ?D}"
    unfolding fold_addVar_keys by (auto simp: admits_def)
  finally have names: "(\<lambda>(key, val). normalizeKey key w) ` set (BuildEnvironment_entries w environ cfg None)
       = (\<lambda>k. normalizeKey k w) `
           ({k \<in> set Tier1Vars. normalizeKey k w \<in> fst ` set ?P \<and> normalizeKey k w \<notin> ?D}
            \<union> fst ` set (Env cfg))"
    by (simp add: image_Un)
  have vals: "if normalizeKey key w \<in> (\<lambda>k. normalizeKey k w) ` fst ` set (Env cfg)
           then (key, val) \<in> set (Env cfg)
           else key \<in> set Tier1Vars \<and> map_of ?P (normalizeKey key w) = Some val
                \<and> normalizeKey key w \<notin> ?D"
    if "(key, val) \<in> set (BuildEnvironment_entries w environ cfg None)" for key val
  proof (cases "normalizeKey key w \<in> (\<lambda>k. normalizeKey k w) ` fst ` set (Env cfg)")
    case True
    from that have "map_of ?M (normalizeKey key w) = Some (key, val)"
      by (simp add: entries_mem envMap_lookup)
    moreover from overrideStage_hit [OF True, of ?m1]
    obtain k' v' where "(k', v') \<in> set (Env cfg)" "map_of ?M (normalizeKey key w) = Some (k', v')"
      unfolding M by blast
    ultimately show ?thesis using True by simp
  next
    case False
    then have notov: "(key, val) \<notin> set (Env cfg)" by force
    from that have "(normalizeKey key w, key, val) \<in> set ?M"
      by (simp add: entries_mem)
    from envMap_entry_cases [OF this] notov t2 show ?thesis
      using False by (simp add: ex px)
  qed
  from names vals show ?thesis by blast
qed

section \<open>The claims about the environment builder\<close>




text \<open>
  Claim C4, as the code has it. When no two names of the \<open>env\<close> overrides coincide after
  normalization (on a system other than Windows: always, since a Go map holds a key
  once), every pair of the overrides is in the returned list as \<open>KEY=value\<close>, whatever
  the deny lists hold, and no inherited value for its name is returned: every returned
  string that defines the name is a pair of the overrides, and it is this pair when no
  name of the overrides contains \<open>=\<close>. (On Windows the second part supposes of the
  library's upper-casing that it neither adds nor removes \<open>=\<close>.)
\<close>

theorem env_overrides_verbatim:
  assumes "distinct (map (\<lambda>e. normalizeKey (fst e) rt) (Env cfg))"
    and "(key, val) \<in> set (Env cfg)"
  shows "key @ ''='' @ val \<in> set (BuildEnvironment rt environ cfg proxy)
     \<and> ((Windows rt \<longrightarrow> keepsEquals rt) \<longrightarrow>
          (\<forall>s \<in> set (BuildEnvironment rt environ cfg proxy).
             definedName rt s = normalizeKey key rt \<longrightarrow>
               (\<exists>(k, v) \<in> set (Env cfg). s = k @ ''='' @ v)
               \<and> ((\<forall>k \<in> fst ` set (Env cfg). CHR ''='' \<notin> set k) \<longrightarrow> s = key @ ''='' @ val)))"
proof -
  let ?M = "BuildEnvironment_envMap rt environ cfg proxy"
  have look: "map_of ?M (normalizeKey key rt) = Some (key, val)"
    unfolding envMap_stages by (rule overrideStage_distinct_hit [OF assms])
  then have "(key, val) \<in> set (BuildEnvironment_entries rt environ cfg proxy)"
    by (simp add: entries_mem envMap_lookup)
  then have 1: "key @ ''='' @ val \<in> set (BuildEnvironment rt environ cfg proxy)"
    by (auto simp: BuildEnvironment_mem)
  have 2: "(\<exists>(k, v) \<in> set (Env cfg). s = k @ ''='' @ v)
           \<and> ((\<forall>k \<in> fst ` set (Env cfg). CHR ''='' \<notin> set k) \<longrightarrow> s = key @ ''='' @ val)"
    if lib: "Windows rt \<longrightarrow> keepsEquals rt"
      and s: "s \<in> set (BuildEnvironment rt environ cfg proxy)"
      and n: "definedName rt s = normalizeKey key rt" for s
  proof -
    from s obtain k' v' where kv: "(k', v') \<in> set (BuildEnvironment_entries rt environ cfg proxy)"
      and s': "s = k' @ ''='' @ v'"
      by (auto simp: BuildEnvironment_mem)
    from kv have m: "(normalizeKey k' rt, k', v') \<in> set ?M"
      by (simp add: entries_mem)
    have same: "s = key @ ''='' @ val" if "CHR ''='' \<notin> set k'"
    proof -
      from definedName_join [OF that, of rt v'] n s' have "normalizeKey k' rt = normalizeKey key rt"
        by simp
      with m have "map_of ?M (normalizeKey key rt) = Some (k', v')"
        by (simp add: envMap_lookup)
      with look s' show ?thesis by simp
    qed
    have a: "\<exists>(k, v) \<in> set (Env cfg). s = k @ ''='' @ v"
    proof (cases "(k', v') \<in> set (Env cfg)")
      case True
      with s' show ?thesis by force
    next
      case False
      with envMap_key_override_or_noeq [OF m lib] have "CHR ''='' \<notin> set k'" by simp
      from same [OF this] assms(2) show ?thesis by force
    qed
    have b: "s = key @ ''='' @ val" if "\<forall>k \<in> fst ` set (Env cfg). CHR ''='' \<notin> set k"
      by (rule same) (rule envMap_key_noeq [OF m that lib])
    from a b show ?thesis by blast
  qed
  from 1 2 show ?thesis by blast
qed

theorem env_overrides_verbatim_witness:
  "(''Path'', ''C:/Custom'') \<in> set (Env (exampleConfig [(''Path'', ''C:/Custom''), (''HTTP_PROXY'', ''http://override:8080'')]
               (Some (exampleInherit InheritTier1 [] False))))
   \<and> ''Path'' @ ''='' @ ''C:/Custom''
        \<in> set (BuildEnvironment windows [''PATH=C:/Windows'', ''HTTP_PROXY=http://parent:8080'']
               (exampleConfig [(''Path'', ''C:/Custom''), (''HTTP_PROXY'', ''http://override:8080'')]
                  (Some (exampleInherit InheritTier1 [] False))) None)
   \<and> BuildEnvironment windows [''PATH=C:/Windows'', ''HTTP_PROXY=http://parent:8080'']
               (exampleConfig [(''Path'', ''C:/Custom''), (''HTTP_PROXY'', ''http://override:8080'')]
                  (Some (exampleInherit InheritTier1 [] False))) None
      = [''Path=C:/Custom'', ''HTTP_PROXY=http://override:8080'']"
proof -
  let ?cfg = "exampleConfig [(''Path'', ''C:/Custom''), (''HTTP_PROXY'', ''http://override:8080'')]
               (Some (exampleInherit InheritTier1 [] False))"
  have h1: "distinct (map (\<lambda>e. normalizeKey (fst e) windows) (Env ?cfg))"
    by code_simp
  have h2: "(''Path'', ''C:/Custom'') \<in> set (Env ?cfg)"
    by code_simp
  have out: "BuildEnvironment windows [''PATH=C:/Windows'', ''HTTP_PROXY=http://parent:8080''] ?cfg None
      = [''Path=C:/Custom'', ''HTTP_PROXY=http://override:8080'']"
    by code_simp
  from env_overrides_verbatim [OF h1 h2, of "[''PATH=C:/Windows'', ''HTTP_PROXY=http://parent:8080'']" None]
  have "''Path'' @ ''='' @ ''C:/Custom''
        \<in> set (BuildEnvironment windows [''PATH=C:/Windows'', ''HTTP_PROXY=http://parent:8080''] ?cfg None)"
    by (rule conjunct1)
  with h2 out show ?thesis by (intro conjI)
qed

text \<open>
  On Windows two override names that differ only in case are written to the same key
  of the map: whichever the loop reaches first is replaced by the other and is not in
  the result. Both orders of the loop are shown.
\<close>

theorem env_overrides_windows_counterexample:
  "(''Path'', ''a'') \<in> set (Env (exampleConfig [(''Path'', ''a''), (''PATH'', ''b'')] None))
   \<and> ''Path=a'' \<notin> set (BuildEnvironment windows [] (exampleConfig [(''Path'', ''a''), (''PATH'', ''b'')] None) None)
   \<and> (''PATH'', ''b'') \<in> set (Env (exampleConfig [(''PATH'', ''b''), (''Path'', ''a'')] None))
   \<and> ''PATH=b'' \<notin> set (BuildEnvironment windows [] (exampleConfig [(''PATH'', ''b''), (''Path'', ''a'')] None) None)"
  by code_simp

text \<open>
  Claim C5, as the code has it. With \<open>inherit.mode = tier1\<close>, no \<open>extra\<close>, no \<open>prefix\<close>,
  no proxy-level inherit configuration and no \<open>=\<close> in a name of the \<open>env\<close> overrides,
  the names that the returned strings define are exactly those of the Tier 1 variables
  that the parent environment defines and that are in neither the implicit deny list
  nor the server's \<open>deny\<close>, and those of the overrides. A returned string whose name is
  overridden is a pair of the overrides; any other is a Tier 1 name with the parent's
  value. Names are compared after normalization.
\<close>

theorem tier1_only_environment:
  assumes i: "Inherit cfg = Some ic" and m: "Mode ic = InheritTier1"
    and e: "Extra ic = []" and p: "Prefix ic = []"
    and noeq: "\<forall>k \<in> fst ` set (Env cfg). CHR ''='' \<notin> set k"
  shows "definedName rt ` set (BuildEnvironment rt environ cfg None)
       = (\<lambda>k. normalizeKey k rt) `
           ({k \<in> set Tier1Vars.
               parentValue rt environ (normalizeKey k rt) \<noteq> None
               \<and> normalizeKey k rt
                   \<notin> (\<lambda>d. normalizeKey d rt) ` (set ImplicitDenylist \<union> set (Deny ic))}
            \<union> fst ` set (Env cfg))
     \<and> (\<forall>s \<in> set (BuildEnvironment rt environ cfg None).
           if definedName rt s \<in> (\<lambda>k. normalizeKey k rt) ` fst ` set (Env cfg)
           then \<exists>(k, v) \<in> set (Env cfg). s = k @ ''='' @ v
           else \<exists>k \<in> set Tier1Vars. \<exists>v.
                  s = k @ ''='' @ v
                  \<and> parentValue rt environ (normalizeKey k rt) = Some v
                  \<and> normalizeKey k rt
                      \<notin> (\<lambda>d. normalizeKey d rt) ` (set ImplicitDenylist \<union> set (Deny ic)))"
proof -
  let ?E = "BuildEnvironment_entries rt environ cfg None"
  let ?deny = "(\<lambda>d. normalizeKey d rt) ` (set ImplicitDenylist \<union> set (Deny ic))"
  let ?ov = "(\<lambda>k. normalizeKey k rt) ` fst ` set (Env cfg)"
  have D: "buildDenyMap cfg None rt = ?deny"
    by (simp add: buildDenyMap_eq i)
  note E = tier1_entries [OF i m e p, of rt environ, unfolded D buildParentMap_defined buildParentMap_lookup]
  have entry: "if normalizeKey key rt \<in> ?ov then (key, val) \<in> set (Env cfg)
               else key \<in> set Tier1Vars \<and> parentValue rt environ (normalizeKey key rt) = Some val
                    \<and> normalizeKey key rt \<notin> ?deny"
    if "(key, val) \<in> set ?E" for key val
    using E [THEN conjunct2] that by blast
  have key_noeq: "CHR ''='' \<notin> set key" if "(key, val) \<in> set ?E" for key val
  proof (cases "normalizeKey key rt \<in> ?ov")
    case True
    with entry [OF that] have "(key, val) \<in> set (Env cfg)" by simp
    with noeq show ?thesis by force
  next
    case False
    with entry [OF that] have "key \<in> set Tier1Vars" by simp
    then show ?thesis by (rule Tier1Vars_noeq)
  qed
  have dn: "definedName rt (key @ ''='' @ val) = normalizeKey key rt"
    if "(key, val) \<in> set ?E" for key val
    by (rule definedName_join) (rule key_noeq [OF that])
  have "definedName rt ` set (BuildEnvironment rt environ cfg None)
        = (\<lambda>(key, val). normalizeKey key rt) ` set ?E"
  proof (intro set_eqI iffI)
    fix n assume "n \<in> definedName rt ` set (BuildEnvironment rt environ cfg None)"
    then obtain key val where kv: "(key, val) \<in> set ?E" and n: "n = definedName rt (key @ ''='' @ val)"
      by (auto simp: BuildEnvironment_mem)
    from kv have "normalizeKey key rt \<in> (\<lambda>(key, val). normalizeKey key rt) ` set ?E" by force
    with dn [OF kv] n show "n \<in> (\<lambda>(key, val). normalizeKey key rt) ` set ?E" by simp
  next
    fix n assume "n \<in> (\<lambda>(key, val). normalizeKey key rt) ` set ?E"
    then obtain key val where kv: "(key, val) \<in> set ?E" and n: "n = normalizeKey key rt"
      by auto
    from kv have "key @ ''='' @ val \<in> set (BuildEnvironment rt environ cfg None)"
      by (auto simp: BuildEnvironment_mem)
    then have "definedName rt (key @ ''='' @ val) \<in> definedName rt ` set (BuildEnvironment rt environ cfg None)"
      by (rule imageI)
    with dn [OF kv] n show "n \<in> definedName rt ` set (BuildEnvironment rt environ cfg None)" by simp
  qed
  with E [THEN conjunct1]
  have names: "definedName rt ` set (BuildEnvironment rt environ cfg None)
       = (\<lambda>k. normalizeKey k rt) `
           ({k \<in> set Tier1Vars. parentValue rt environ (normalizeKey k rt) \<noteq> None
                                  \<and> normalizeKey k rt \<notin> ?deny}
            \<union> fst ` set (Env cfg))"
    by simp
  have vals: "if definedName rt s \<in> ?ov
           then \<exists>(k, v) \<in> set (Env cfg). s = k @ ''='' @ v
           else \<exists>k \<in> set Tier1Vars. \<exists>v.
                  s = k @ ''='' @ v
                  \<and> parentValue rt environ (normalizeKey k rt) = Some v
                  \<and> normalizeKey k rt \<notin> ?deny"
    if "s \<in> set (BuildEnvironment rt environ cfg None)" for s
  proof -
    from that obtain key val where kv: "(key, val) \<in> set ?E" and s: "s = key @ ''='' @ val"
      by (auto simp: BuildEnvironment_mem)
    from dn [OF kv] s have n: "definedName rt s = normalizeKey key rt" by simp
    show ?thesis
    proof (cases "normalizeKey key rt \<in> ?ov")
      case True
      with entry [OF kv] have "(key, val) \<in> set (Env cfg)" by simp
      with s have "\<exists>(k, v) \<in> set (Env cfg). s = k @ ''='' @ v" by force
      with True n show ?thesis by simp
    next
      case False
      with entry [OF kv] have "key \<in> set Tier1Vars"
        "parentValue rt environ (normalizeKey key rt) = Some val" "normalizeKey key rt \<notin> ?deny"
        by simp_all
      with s have "\<exists>k \<in> set Tier1Vars. \<exists>v. s = k @ ''='' @ v
                  \<and> parentValue rt environ (normalizeKey k rt) = Some v
                  \<and> normalizeKey k rt \<notin> ?deny" by blast
      with False n show ?thesis by simp
    qed
  qed
  from names vals show ?thesis by blast
qed

theorem tier1_only_environment_witness:
  "definedName posix ` set (BuildEnvironment posix [''PATH=/bin'', ''HOME=/h'', ''SECRET=s'']
        (exampleConfig [(''CUSTOM'', ''value'')]
           (Some ((exampleInherit InheritTier1 [] False)\<lparr>Deny := [''HOME'']\<rparr>))) None)
   = (\<lambda>k. normalizeKey k posix) `
       ({k \<in> set Tier1Vars.
           parentValue posix [''PATH=/bin'', ''HOME=/h'', ''SECRET=s''] (normalizeKey k posix) \<noteq> None
           \<and> normalizeKey k posix
               \<notin> (\<lambda>d. normalizeKey d posix) `
                    (set ImplicitDenylist
                     \<union> set (Deny ((exampleInherit InheritTier1 [] False)\<lparr>Deny := [''HOME'']\<rparr>)))}
        \<union> fst ` set (Env (exampleConfig [(''CUSTOM'', ''value'')]
                            (Some ((exampleInherit InheritTier1 [] False)\<lparr>Deny := [''HOME'']\<rparr>)))))
   \<and> BuildEnvironment posix [''PATH=/bin'', ''HOME=/h'', ''SECRET=s'']
        (exampleConfig [(''CUSTOM'', ''value'')]
           (Some ((exampleInherit InheritTier1 [] False)\<lparr>Deny := [''HOME'']\<rparr>))) None
      = [''PATH=/bin'', ''CUSTOM=value'']
   \<and> ''HOME'' \<in> set Tier1Vars
   \<and> parentValue posix [''PATH=/bin'', ''HOME=/h'', ''SECRET=s''] (normalizeKey ''HOME'' posix) = Some ''/h''"
proof -
  let ?ic = "(exampleInherit InheritTier1 [] False)\<lparr>Deny := [''HOME'']\<rparr>"
  let ?cfg = "exampleConfig [(''CUSTOM'', ''value'')] (Some ?ic)"
  let ?env = "[''PATH=/bin'', ''HOME=/h'', ''SECRET=s'']"
  have h1: "Inherit ?cfg = Some ?ic" by (simp add: exampleConfig_def)
  have h2: "Mode ?ic = InheritTier1" and h3: "Extra ?ic = []" and h4: "Prefix ?ic = []"
    by (simp_all add: exampleInherit_def)
  have h5: "\<forall>k \<in> fst ` set (Env ?cfg). CHR ''='' \<notin> set k" by code_simp
  have out: "BuildEnvironment posix ?env ?cfg None = [''PATH=/bin'', ''CUSTOM=value'']"
    by code_simp
  have home: "''HOME'' \<in> set Tier1Vars"
    "parentValue posix ?env (normalizeKey ''HOME'' posix) = Some ''/h''"
    by code_simp+
  from tier1_only_environment [OF h1 h2 h3 h4 h5, of posix ?env, THEN conjunct1] out home
  show ?thesis by (intro conjI)
qed

text \<open>
  The names of the overrides are not checked. With the override \<open>SECRET=x \<mapsto> y\<close> the
  returned string is \<open>SECRET=x=y\<close>, which defines \<open>SECRET\<close>: not a Tier 1 name and not
  the name of an override.
\<close>

theorem override_defines_other_name_counterexample:
  "Mode (exampleInherit InheritTier1 [] False) = InheritTier1
   \<and> Extra (exampleInherit InheritTier1 [] False) = []
   \<and> Prefix (exampleInherit InheritTier1 [] False) = []
   \<and> BuildEnvironment posix [] (exampleConfig [(''SECRET=x'', ''y'')] (Some (exampleInherit InheritTier1 [] False))) None
      = [''SECRET=x=y'']
   \<and> definedName posix ''SECRET=x=y'' = ''SECRET''
   \<and> ''SECRET'' \<notin> set Tier1Vars
   \<and> ''SECRET'' \<notin> fst ` set (Env (exampleConfig [(''SECRET=x'', ''y'')] (Some (exampleInherit InheritTier1 [] False))))"
  by code_simp

text \<open>
  Claim C6. \<open>BuildEnvironment\<close> returns the same list for \<open>mode = none\<close> as for
  \<open>mode = tier1\<close>, and the same for \<open>mode = all\<close> as for \<open>mode = tier1+tier2\<close>, at the
  server level and at the proxy level. For every configuration (so also with
  \<open>mode = all\<close>) each entry of the result is a pair of the \<open>env\<close> overrides, or carries
  the parent's value for a name of Tier 1, of Tier 2, of an \<open>extra\<close> list, or a name that
  starts with one of the prefixes.
\<close>

theorem mode_aliases:
  "BuildEnvironment w environ (cfg\<lparr>Inherit := Some (ic\<lparr>Mode := InheritNone\<rparr>)\<rparr>) proxy
     = BuildEnvironment w environ (cfg\<lparr>Inherit := Some (ic\<lparr>Mode := InheritTier1\<rparr>)\<rparr>) proxy
   \<and> BuildEnvironment w environ (cfg\<lparr>Inherit := Some (ic\<lparr>Mode := InheritAll\<rparr>)\<rparr>) proxy
     = BuildEnvironment w environ (cfg\<lparr>Inherit := Some (ic\<lparr>Mode := InheritTier1Tier2\<rparr>)\<rparr>) proxy
   \<and> BuildEnvironment w environ cfg (Some (pc\<lparr>Mode := InheritNone\<rparr>))
     = BuildEnvironment w environ cfg (Some (pc\<lparr>Mode := InheritTier1\<rparr>))
   \<and> BuildEnvironment w environ cfg (Some (pc\<lparr>Mode := InheritAll\<rparr>))
     = BuildEnvironment w environ cfg (Some (pc\<lparr>Mode := InheritTier1Tier2\<rparr>))
   \<and> (\<forall>(key, val) \<in> set (BuildEnvironment_entries w environ cfg proxy).
         (key, val) \<in> set (Env cfg)
         \<or> (map_of (buildParentMap environ w) (normalizeKey key w) = Some val
            \<and> (key \<in> set Tier1Vars \<or> key \<in> set Tier2Vars
                \<or> key \<in> set (extraNames cfg proxy)
                \<or> (\<exists>p \<in> set (prefixNames cfg proxy).
                      HasPrefix (normalizeKey key w) (normalizeKey p w)))))"
proof -
  have origin: "(key, val) \<in> set (Env cfg)
         \<or> (map_of (buildParentMap environ w) (normalizeKey key w) = Some val
            \<and> (key \<in> set Tier1Vars \<or> key \<in> set Tier2Vars
                \<or> key \<in> set (extraNames cfg proxy)
                \<or> (\<exists>p \<in> set (prefixNames cfg proxy).
                      HasPrefix (normalizeKey key w) (normalizeKey p w))))"
    if "(key, val) \<in> set (BuildEnvironment_entries w environ cfg proxy)" for key val
  proof -
    from that have "(normalizeKey key w, key, val) \<in> set (BuildEnvironment_envMap w environ cfg proxy)"
      by (simp add: entries_mem)
    from envMap_entry_cases [OF this] show ?thesis
      by (auto split: if_splits)
  qed
  show ?thesis
    unfolding BuildEnvironment_def BuildEnvironment_entries_def
      envMap_mode [OF tier2Enabled_modes(1)] envMap_mode [OF tier2Enabled_modes(2)]
      envMap_proxy_mode [OF tier2Enabled_modes(3)] envMap_proxy_mode [OF tier2Enabled_modes(4)]
    using origin unfolding BuildEnvironment_entries_def by blast
qed

theorem mode_aliases_witness:
  "(''HOME'', ''/h'') \<in> set (BuildEnvironment_entries posix [''HOME=/h'', ''SECRET=s'']
        (exampleConfig [] (Some (exampleInherit InheritAll [] False))) None)
   \<and> ((''HOME'', ''/h'') \<in> set (Env (exampleConfig [] (Some (exampleInherit InheritAll [] False))))
       \<or> (map_of (buildParentMap [''HOME=/h'', ''SECRET=s''] posix) (normalizeKey ''HOME'' posix) = Some ''/h''
          \<and> (''HOME'' \<in> set Tier1Vars \<or> ''HOME'' \<in> set Tier2Vars
              \<or> ''HOME'' \<in> set (extraNames (exampleConfig [] (Some (exampleInherit InheritAll [] False))) None)
              \<or> (\<exists>p \<in> set (prefixNames (exampleConfig [] (Some (exampleInherit InheritAll [] False))) None).
                    HasPrefix (normalizeKey ''HOME'' posix) (normalizeKey p posix)))))
   \<and> BuildEnvironment posix [''HOME=/h'', ''SECRET=s'']
        (exampleConfig [] (Some (exampleInherit InheritAll [] False))) None = [''HOME=/h'']"
proof -
  have mem: "(''HOME'', ''/h'') \<in> set (BuildEnvironment_entries posix [''HOME=/h'', ''SECRET=s'']
        (exampleConfig [] (Some (exampleInherit InheritAll [] False))) None)"
    by code_simp
  have out: "BuildEnvironment posix [''HOME=/h'', ''SECRET=s'']
        (exampleConfig [] (Some (exampleInherit InheritAll [] False))) None = [''HOME=/h'']"
    by code_simp
  note all = mode_aliases [where w = posix and environ = "[''HOME=/h'', ''SECRET=s'']"
      and cfg = "exampleConfig [] (Some (exampleInherit InheritAll [] False))" and proxy = None,
      THEN conjunct2, THEN conjunct2, THEN conjunct2, THEN conjunct2]
  from bspec [OF all mem] mem out show ?thesis
    by (intro conjI) simp_all
qed

text \<open>
  Claim C10, as the code has it. When no name of the \<open>env\<close> overrides contains \<open>=\<close>, the
  returned strings define pairwise different names (compared after normalization):
  every stage writes through the one map keyed by the normalized name. (On Windows
  this supposes of the library's upper-casing that it neither adds nor removes \<open>=\<close>.)
\<close>

theorem one_entry_per_name:
  assumes noeq: "\<forall>k \<in> fst ` set (Env cfg). CHR ''='' \<notin> set k"
    and lib: "Windows rt \<longrightarrow> keepsEquals rt"
  shows "distinct (map (definedName rt) (BuildEnvironment rt environ cfg proxy))"
proof -
  have d: "distinct (map (\<lambda>(key, val). normalizeKey key rt) (BuildEnvironment_entries rt environ cfg proxy))"
    unfolding entries_names by (rule envMap_distinct)
  have "map (definedName rt) (BuildEnvironment rt environ cfg proxy)
        = map (\<lambda>(key, val). normalizeKey key rt) (BuildEnvironment_entries rt environ cfg proxy)"
    unfolding BuildEnvironment_def map_map
  proof (rule map_cong [OF refl])
    fix e assume e: "e \<in> set (BuildEnvironment_entries rt environ cfg proxy)"
    obtain key val where kv: "e = (key, val)" by (cases e)
    from e kv have "(normalizeKey key rt, key, val) \<in> set (BuildEnvironment_envMap rt environ cfg proxy)"
      by (simp add: entries_mem)
    from envMap_key_noeq [OF this noeq lib] have "CHR ''='' \<notin> set key" .
    from definedName_join [OF this, of rt val]
    show "(definedName rt \<circ> (\<lambda>(key, val). key @ ''='' @ val)) e
          = (case e of (key, val) \<Rightarrow> normalizeKey key rt)"
      by (simp add: kv)
  qed
  with d show ?thesis by simp
qed

theorem one_entry_per_name_witness:
  "distinct (map (definedName windows)
        (BuildEnvironment windows [''PATH=C:/Windows'', ''HOME=C:/Users/test'']
           (exampleConfig [(''Path'', ''C:/Custom'')] (Some (exampleInherit InheritTier1 [] False))) None))
   \<and> BuildEnvironment windows [''PATH=C:/Windows'', ''HOME=C:/Users/test'']
        (exampleConfig [(''Path'', ''C:/Custom'')] (Some (exampleInherit InheritTier1 [] False))) None
      = [''Path=C:/Custom'', ''HOME=C:/Users/test'']
   \<and> map (definedName windows) [''Path=C:/Custom'', ''HOME=C:/Users/test''] = [''PATH'', ''HOME'']"
proof -
  let ?cfg = "exampleConfig [(''Path'', ''C:/Custom'')] (Some (exampleInherit InheritTier1 [] False))"
  have hyp: "\<forall>k \<in> fst ` set (Env ?cfg). CHR ''='' \<notin> set k"
    by code_simp
  have lib: "Windows windows \<longrightarrow> keepsEquals windows"
    by (simp add: keepsEquals_def windows_def)
  have out: "BuildEnvironment windows [''PATH=C:/Windows'', ''HOME=C:/Users/test''] ?cfg None
      = [''Path=C:/Custom'', ''HOME=C:/Users/test'']"
    by code_simp
  have names: "map (definedName windows) [''Path=C:/Custom'', ''HOME=C:/Users/test''] = [''PATH'', ''HOME'']"
    by code_simp
  from one_entry_per_name [OF hyp lib, of "[''PATH=C:/Windows'', ''HOME=C:/Users/test'']" None] out names
  show ?thesis by (intro conjI)
qed

text \<open>
  The names of the overrides are not checked. The overrides \<open>A=B \<mapsto> c\<close> and
  \<open>A \<mapsto> B=c\<close> are two keys of the map and two entries, and both are returned as the
  string \<open>A=B=c\<close>.
\<close>

theorem duplicate_entry_counterexample:
  "BuildEnvironment posix [] (exampleConfig [(''A=B'', ''c''), (''A'', ''B=c'')] None) None
     = [''A=B=c'', ''A=B=c'']
   \<and> \<not> distinct (BuildEnvironment posix [] (exampleConfig [(''A=B'', ''c''), (''A'', ''B=c'')] None) None)
   \<and> \<not> distinct (map (definedName posix)
          (BuildEnvironment posix [] (exampleConfig [(''A=B'', ''c''), (''A'', ''B=c'')] None) None))"
  by code_simp

section \<open>Properties of the wrapper\<close>

subsection \<open>Fields that a step leaves alone\<close>

lemma recordMessage_fields [simp]:
  "dynamicServers (recordMessage w d m t s p) = dynamicServers w"
  "proxyClients (recordMessage w d m t s p) = proxyClients w"
  "proxyInherit (recordMessage w d m t s p) = proxyInherit w"
  "registry (recordMessage w d m t s p) = registry w"
  "baseTools (recordMessage w d m t s p) = baseTools w"
  "recordEnabled (recordMessage w d m t s p) = recordEnabled w"
  "recordFilename (recordMessage w d m t s p) = recordFilename w"
  "nextClient (recordMessage w d m t s p) = nextClient w"
  "trace (recordMessage w d m t s p) = trace w"
  by (simp_all add: recordMessage_def)

lemma emit_fields [simp]:
  "dynamicServers (emit w e) = dynamicServers w"
  "proxyClients (emit w e) = proxyClients w"
  "proxyInherit (emit w e) = proxyInherit w"
  "registry (emit w e) = registry w"
  "baseTools (emit w e) = baseTools w"
  "recordEnabled (emit w e) = recordEnabled w"
  "recordFilename (emit w e) = recordFilename w"
  "nextClient (emit w e) = nextClient w"
  "trace (emit w e) = trace w @ [e]"
  by (simp_all add: emit_def)

lemma Close_fields [simp]:
  "dynamicServers (Close w c) = dynamicServers w"
  "proxyClients (Close w c) = proxyClients w"
  "proxyInherit (Close w c) = proxyInherit w"
  "registry (Close w c) = registry w"
  "baseTools (Close w c) = baseTools w"
  "recordEnabled (Close w c) = recordEnabled w"
  "recordFilename (Close w c) = recordFilename w"
  "nextClient (Close w c) = nextClient w"
  "trace (Close w c) = trace w @ [EvClose c]"
  by (simp_all add: Close_def)

lemma addRecordingMetadata_cong:
  "recordEnabled w = recordEnabled w' \<Longrightarrow> recordFilename w = recordFilename w' \<Longrightarrow>
     addRecordingMetadata world w r = addRecordingMetadata world w' r"
  by (simp add: addRecordingMetadata_def)

lemma addRecordingMetadata_IsError [simp]:
  "IsError (addRecordingMetadata world w r) = IsError r"
  by (simp add: addRecordingMetadata_def Let_def)

lemma addRecordingMetadata_Content:
  "Content (addRecordingMetadata world w r) =
     (if recordEnabled w \<and> recordFilename w \<noteq> []
      then Content r @ [TextContent (metadataText (recordFilename w)
                          (case absPath world (recordFilename w) of Some p \<Rightarrow> p
                           | None \<Rightarrow> recordFilename w))]
      else Content r)"
  by (simp add: addRecordingMetadata_def Let_def)

lemma addRecordingMetadata_hd:
  "Content r \<noteq> [] \<Longrightarrow> hd (Content (addRecordingMetadata world w r)) = hd (Content r)"
  by (simp add: addRecordingMetadata_Content)

lemma respond_fst [simp]:
  "fst (respond world w t s r) = (addRecordingMetadata world w r, None)"
  by (simp add: respond_def Let_def)

lemma respond_snd [simp]:
  "snd (respond world w t s r) =
     recordMessage w ''response'' ''tool_call'' t s (ResultPayload (addRecordingMetadata world w r))"
  by (simp add: respond_def Let_def)

lemma respond_eq:
  "respond world w t s r = ((result, goErr), w') \<longleftrightarrow>
     result = addRecordingMetadata world w r \<and> goErr = None
     \<and> w' = recordMessage w ''response'' ''tool_call'' t s (ResultPayload (addRecordingMetadata world w r))"
  by (auto simp: respond_def Let_def)

lemma NewToolResult_simps [simp]:
  "Content (NewToolResultText t) = [TextContent t]"
  "IsError (NewToolResultText t) = False"
  "Content (NewToolResultError t) = [TextContent t]"
  "IsError (NewToolResultError t) = True"
  by (simp_all add: NewToolResultText_def NewToolResultError_def)

subsection \<open>Substrings\<close>

lemma HasPrefix_append: "HasPrefix (p @ s) p"
  by (simp add: HasPrefix_def)

lemma Contains_prefix: "HasPrefix s sub \<Longrightarrow> Contains s sub"
  by (cases s) (auto simp: HasPrefix_def)

lemma Contains_append: "Contains s sub \<Longrightarrow> Contains (pre @ s) sub"
proof (induction pre)
  case Nil
  then show ?case by simp
next
  case (Cons c pre)
  then show ?case by simp
qed

lemma Contains_mid: "Contains (pre @ mid @ post) mid"
  by (rule Contains_append) (rule Contains_prefix, rule HasPrefix_append)

lemma metadataText_contains: "Contains (metadataText filename absolute) absolute"
proof -
  have "metadataText filename absolute =
          (recordingBanner @ filename @ newline @ ''   Full path: '') @ absolute
          @ (newline @ ''   Purpose: JSON-RPC message log for debugging and playback testing'')"
    by (simp add: metadataText_def)
  then show ?thesis by (simp only: Contains_mid)
qed

subsection \<open>A proxied call, branch by branch\<close>

lemma invoke_not_found:
  assumes "dynamicServers w serverName = None"
  shows "invoke world (DynamicProxyHandler serverName tool) w request =
     respond world
       (recordMessage w ''request'' ''tool_call'' (serverName @ ''_'' @ tool) serverName (RequestPayload request))
       (serverName @ ''_'' @ tool) serverName
       (NewToolResultError (''Server '' @ quoted serverName @ '' not found''))"
  using assms by (simp add: Let_def)

lemma invoke_disconnected:
  assumes "dynamicServers w serverName = Some info"
    and "\<not> IsConnected info \<or> Client info = None"
  shows "invoke world (DynamicProxyHandler serverName tool) w request =
     respond world
       (recordMessage w ''request'' ''tool_call'' (serverName @ ''_'' @ tool) serverName (RequestPayload request))
       (serverName @ ''_'' @ tool) serverName
       (NewToolResultError
          ((if ErrorMessage info \<noteq> []
            then ''Server '' @ quoted serverName @ '' is disconnected'' @ '': '' @ ErrorMessage info
            else ''Server '' @ quoted serverName @ '' is disconnected'')
           @ newline @ ''Use server_reconnect to restore connection.''))"
  using assms by (auto simp: Let_def)

lemma invoke_connected:
  assumes "dynamicServers w serverName = Some info"
    and "IsConnected info" and "Client info = Some c"
  shows "invoke world (DynamicProxyHandler serverName tool) w request =
     (let w1 = recordMessage w ''request'' ''tool_call'' (serverName @ ''_'' @ tool) serverName
                 (RequestPayload request);
          w2 = emit w1 (EvCallTool c tool (Arguments request))
      in case callToolResult world (trace w) c tool (Arguments request) of
        Inl err \<Rightarrow>
          if isConnectionError world err then
            respond world
              (w2\<lparr>dynamicServers := (dynamicServers w)(serverName \<mapsto>
                    info\<lparr>IsConnected := False, ErrorMessage := err\<rparr>)\<rparr>)
              (serverName @ ''_'' @ tool) serverName
              (NewToolResultError (''Server '' @ quoted serverName @ '' connection failed: '' @ err
                 @ newline @ ''Use server_reconnect to restore connection.''))
          else
            respond world w2 (serverName @ ''_'' @ tool) serverName
              (NewToolResultError (''['' @ serverName @ ''] '' @ err))
      | Inr result \<Rightarrow>
          respond world w2 (serverName @ ''_'' @ tool) serverName
            (if IsError result then
               (if length (Content result) > 0
                then NewToolResultError (contentText (hd (Content result)))
                else NewToolResultError ''Tool execution failed'')
             else
               (if length (Content result) > 0
                then NewToolResultText (flattenContent (Content result))
                else NewToolResultText ''Tool executed successfully'')))"
  using assms by (simp add: Let_def CallTool_def split: sum.splits)

declare invoke.simps [simp del]

lemma RegisterTool_fields [simp]:
  "dynamicServers (RegisterTool w t c) = dynamicServers w"
  "proxyClients (RegisterTool w t c) = proxyClients w"
  "proxyInherit (RegisterTool w t c) = proxyInherit w"
  "baseTools (RegisterTool w t c) = baseTools w"
  "recordEnabled (RegisterTool w t c) = recordEnabled w"
  "recordFilename (RegisterTool w t c) = recordFilename w"
  "recordFile (RegisterTool w t c) = recordFile w"
  "nextClient (RegisterTool w t c) = nextClient w"
  "trace (RegisterTool w t c) = trace w"
  by (simp_all add: RegisterTool_def)

lemma AddTool_fields [simp]:
  "dynamicServers (AddTool w n h) = dynamicServers w"
  "proxyClients (AddTool w n h) = proxyClients w"
  "proxyInherit (AddTool w n h) = proxyInherit w"
  "registry (AddTool w n h) = registry w"
  "recordEnabled (AddTool w n h) = recordEnabled w"
  "recordFilename (AddTool w n h) = recordFilename w"
  "recordFile (AddTool w n h) = recordFile w"
  "nextClient (AddTool w n h) = nextClient w"
  "trace (AddTool w n h) = trace w"
  by (simp_all add: AddTool_def)

lemma reRegisterTools_fields [simp]:
  "dynamicServers (reRegisterTools n c reg tools w) = dynamicServers w"
  "proxyClients (reRegisterTools n c reg tools w) = proxyClients w"
  "proxyInherit (reRegisterTools n c reg tools w) = proxyInherit w"
  "baseTools (reRegisterTools n c reg tools w) = baseTools w"
  "recordEnabled (reRegisterTools n c reg tools w) = recordEnabled w"
  "recordFilename (reRegisterTools n c reg tools w) = recordFilename w"
  "recordFile (reRegisterTools n c reg tools w) = recordFile w"
  "nextClient (reRegisterTools n c reg tools w) = nextClient w"
  "trace (reRegisterTools n c reg tools w) = trace w"
  by (induction tools arbitrary: w; simp add: Let_def)+

lemma registerTools_fields [simp]:
  "dynamicServers (fst (registerTools n c tools (w, si))) = dynamicServers w"
  "proxyClients (fst (registerTools n c tools (w, si))) = proxyClients w"
  "proxyInherit (fst (registerTools n c tools (w, si))) = proxyInherit w"
  "recordEnabled (fst (registerTools n c tools (w, si))) = recordEnabled w"
  "recordFilename (fst (registerTools n c tools (w, si))) = recordFilename w"
  "recordFile (fst (registerTools n c tools (w, si))) = recordFile w"
  "nextClient (fst (registerTools n c tools (w, si))) = nextClient w"
  "trace (fst (registerTools n c tools (w, si))) = trace w"
  by (induction tools arbitrary: w si; simp add: Let_def)+

lemma registerTools_info [simp]:
  "Client (snd (registerTools n c tools (w, si))) = Client si"
  "Config (snd (registerTools n c tools (w, si))) = Config si"
  "IsConnected (snd (registerTools n c tools (w, si))) = IsConnected si"
  "ErrorMessage (snd (registerTools n c tools (w, si))) = ErrorMessage si"
  "InfoName (snd (registerTools n c tools (w, si))) = InfoName si"
  by (induction tools arbitrary: w si; simp add: Let_def)+

subsection \<open>server_disconnect, branch by branch\<close>

lemma disconnect_no_name:
  assumes "RequireString request ''name'' = None"
  shows "handleServerDisconnect world w request =
     Returns (respond world
       (recordMessage w ''request'' ''tool_call'' ''server_disconnect'' ''proxy'' (RequestPayload request))
       ''server_disconnect'' ''proxy'' (NewToolResultError ''name is required''))"
  using assms by (simp add: handleServerDisconnect_def Let_def)

lemma disconnect_unknown:
  assumes "RequireString request ''name'' = Some name" and "dynamicServers w name = None"
  shows "handleServerDisconnect world w request =
     Returns (respond world
       (recordMessage w ''request'' ''tool_call'' ''server_disconnect'' ''proxy'' (RequestPayload request))
       ''server_disconnect'' ''proxy'' (NewToolResultError (''Server '' @ quoted name @ '' not found'')))"
  using assms by (simp add: handleServerDisconnect_def Let_def)

lemma disconnect_already:
  assumes "RequireString request ''name'' = Some name" and "dynamicServers w name = Some info"
    and "\<not> IsConnected info"
  shows "handleServerDisconnect world w request =
     Returns (respond world
       (recordMessage w ''request'' ''tool_call'' ''server_disconnect'' ''proxy'' (RequestPayload request))
       ''server_disconnect'' ''proxy''
       (NewToolResultText (''Server '' @ quoted name @ '' is already disconnected'')))"
  using assms by (simp add: handleServerDisconnect_def Let_def)

lemma disconnect_connected:
  assumes "RequireString request ''name'' = Some name" and "dynamicServers w name = Some info"
    and "IsConnected info" and "Client info = Some c" and "proxyClients w \<noteq> []"
  shows "handleServerDisconnect world w request =
     Returns (respond world
       ((Close (recordMessage w ''request'' ''tool_call'' ''server_disconnect'' ''proxy''
                  (RequestPayload request)) c)
          \<lparr>proxyClients := filter (\<lambda>c. ClientServerName c \<noteq> name) (proxyClients w),
            dynamicServers := (dynamicServers w)(name \<mapsto>
              info\<lparr>IsConnected := False, ErrorMessage := ''Server disconnected by user'',
                    Client := None\<rparr>)\<rparr>)
       ''server_disconnect'' ''proxy''
       (NewToolResultText (''Disconnected server '' @ quoted name
          @ ''. Tools remain registered but will return errors.'' @ [CHR 0x5C, CHR ''n'']
          @ ''Use server_reconnect to restore with new binary/command.'')))"
  using assms by (simp add: handleServerDisconnect_def closeAndUnlist_def Let_def)

lemma disconnect_panics:
  assumes "RequireString request ''name'' = Some name" and "dynamicServers w name = Some info"
    and "IsConnected info" and "Client info = Some c" and "proxyClients w = []"
  shows "handleServerDisconnect world w request = Panics ''makeslice: cap out of range''"
  using assms by (simp add: handleServerDisconnect_def closeAndUnlist_def Let_def)

subsection \<open>server_add, branch by branch\<close>

lemma configured_added [simp]:
  "configured w c (addedConfig world name command)
     = trace w @ [EvSetInheritConfig c (ResolveInheritConfig (addedConfig world name command) (proxyInherit w))]"
  by (simp add: configured_def addedConfig_def)

lemma add_exists:
  assumes "RequireString request ''name'' = Some name"
    and "RequireString request ''command'' = Some command"
    and "dynamicServers w name \<noteq> None"
  shows "handleServerAdd world w request =
     respond world
       (recordMessage w ''request'' ''tool_call'' ''server_add'' ''proxy'' (RequestPayload request))
       ''server_add'' ''proxy'' (NewToolResultError (''Server '' @ quoted name @ '' already exists''))"
  using assms by (auto simp: handleServerAdd_def Let_def)

lemma add_connect_fails:
  assumes "RequireString request ''name'' = Some name"
    and "RequireString request ''command'' = Some command"
    and "dynamicServers w name = None" and "Fields world command \<noteq> []"
    and "connectResult world (configured w (addedClient w name) (addedConfig world name command))
           (addedClient w name) = Some err"
  shows "handleServerAdd world w request =
     respond world
       ((recordMessage w ''request'' ''tool_call'' ''server_add'' ''proxy'' (RequestPayload request))
          \<lparr>nextClient := Suc (nextClient w),
            trace := configured w (addedClient w name) (addedConfig world name command)
                     @ [EvConnect (addedClient w name)]\<rparr>)
       ''server_add'' ''proxy'' (NewToolResultError (''Failed to connect: '' @ err))"
  using assms
  by (simp add: handleServerAdd_def Let_def NewStdioClient_def Connect_def emit_def
        addedClient_def addedConfig_def configured_def)

lemma add_initialize_fails:
  assumes "RequireString request ''name'' = Some name"
    and "RequireString request ''command'' = Some command"
    and "dynamicServers w name = None" and "Fields world command \<noteq> []"
    and "connectResult world (configured w (addedClient w name) (addedConfig world name command))
           (addedClient w name) = None"
    and "initializeResult world
           (configured w (addedClient w name) (addedConfig world name command) @ [EvConnect (addedClient w name)])
           (addedClient w name) = Some err"
  shows "handleServerAdd world w request =
     respond world
       ((recordMessage w ''request'' ''tool_call'' ''server_add'' ''proxy'' (RequestPayload request))
          \<lparr>nextClient := Suc (nextClient w),
            trace := configured w (addedClient w name) (addedConfig world name command)
                     @ [EvConnect (addedClient w name), EvInitialize (addedClient w name),
                        EvClose (addedClient w name)]\<rparr>)
       ''server_add'' ''proxy'' (NewToolResultError (''Failed to initialize: '' @ err))"
  using assms
  by (simp add: handleServerAdd_def Let_def NewStdioClient_def Connect_def Initialize_def Close_def
        emit_def addedClient_def addedConfig_def configured_def)

lemma add_list_fails:
  assumes "RequireString request ''name'' = Some name"
    and "RequireString request ''command'' = Some command"
    and "dynamicServers w name = None" and "Fields world command \<noteq> []"
    and "connectResult world (configured w (addedClient w name) (addedConfig world name command))
           (addedClient w name) = None"
    and "initializeResult world
           (configured w (addedClient w name) (addedConfig world name command) @ [EvConnect (addedClient w name)])
           (addedClient w name) = None"
    and "listToolsResult world
           (configured w (addedClient w name) (addedConfig world name command)
              @ [EvConnect (addedClient w name), EvInitialize (addedClient w name)])
           (addedClient w name) = Inl err"
  shows "handleServerAdd world w request =
     respond world
       ((recordMessage w ''request'' ''tool_call'' ''server_add'' ''proxy'' (RequestPayload request))
          \<lparr>nextClient := Suc (nextClient w),
            trace := configured w (addedClient w name) (addedConfig world name command)
                     @ [EvConnect (addedClient w name), EvInitialize (addedClient w name),
                        EvListTools (addedClient w name), EvClose (addedClient w name)]\<rparr>)
       ''server_add'' ''proxy'' (NewToolResultError (''Failed to list tools: '' @ err))"
  using assms
  by (simp add: handleServerAdd_def Let_def NewStdioClient_def Connect_def Initialize_def
        ListTools_def Close_def emit_def addedClient_def addedConfig_def configured_def)

subsection \<open>server_reconnect with the stored configuration\<close>


lemma invoke_effect:
  assumes "dynamicServers w n = Some info"
  shows "(\<exists>info'. dynamicServers (snd (invoke world (DynamicProxyHandler n tool) w request)) n = Some info'
            \<and> Client info' = Client info)
       \<and> trace (snd (invoke world (DynamicProxyHandler n tool) w request))
           = trace w @ (if IsConnected info
                        then (case Client info of Some c \<Rightarrow> [EvCallTool c tool (Arguments request)]
                              | None \<Rightarrow> [])
                        else [])"
proof (cases "IsConnected info \<and> Client info \<noteq> None")
  case True
  then obtain c where c: "IsConnected info" "Client info = Some c" by auto
  show ?thesis
    unfolding invoke_connected [OF assms c]
    using c assms by (simp add: Let_def split: sum.splits)
next
  case False
  then have d: "\<not> IsConnected info \<or> Client info = None" by simp
  show ?thesis
    unfolding invoke_disconnected [OF assms d]
    using d assms by auto
qed


lemma invokeAll_same_client:
  assumes "dynamicServers w n = Some info" and "Client info = Some c"
    and "\<forall>hr \<in> set calls. \<exists>tool. fst hr = DynamicProxyHandler n tool"
  shows "\<exists>evs. trace (invokeAll world calls w) = trace w @ evs
           \<and> (\<forall>e \<in> set evs. \<exists>tool args. e = EvCallTool c tool args)"
  using assms
proof (induction calls arbitrary: w info)
  case Nil
  then show ?case by simp
next
  case (Cons hr calls)
  obtain h request where hr: "hr = (h, request)" by (cases hr)
  from Cons.prems(3) hr obtain tool where h: "h = DynamicProxyHandler n tool" by auto
  let ?w = "snd (invoke world h w request)"
  from invoke_effect [OF Cons.prems(1), of world tool request] Cons.prems(2)
  obtain info' where i: "dynamicServers ?w n = Some info'" "Client info' = Some c"
    and t: "trace ?w = trace w @ (if IsConnected info then [EvCallTool c tool (Arguments request)] else [])"
    unfolding h by auto
  from Cons.prems(3) have rest: "\<forall>hr \<in> set calls. \<exists>tool. fst hr = DynamicProxyHandler n tool"
    by simp
  from Cons.IH [OF i rest]
  obtain evs where evs: "trace (invokeAll world calls ?w) = trace ?w @ evs"
    "\<forall>e \<in> set evs. \<exists>tool args. e = EvCallTool c tool args" by blast
  let ?evs = "(if IsConnected info then [EvCallTool c tool (Arguments request)] else []) @ evs"
  have "trace (invokeAll world (hr # calls) w) = trace w @ ?evs"
    using evs(1) t by (simp add: hr)
  moreover have "\<forall>e \<in> set ?evs. \<exists>tool args. e = EvCallTool c tool args"
    using evs(2) by auto
  ultimately show ?case by blast
qed

lemma respond_base:
  assumes "length (Content r) = 1"
    and "recordEnabled w1 = recordEnabled w" and "recordFilename w1 = recordFilename w"
  shows "\<exists>base. length (Content base) = 1
           \<and> fst (respond world w1 t s r) = (addRecordingMetadata world w base, None)"
  using assms(1) addRecordingMetadata_cong [OF assms(2,3)]
  by (intro exI [of _ r]) simp

lemma invoke_base:
  "\<exists>base. length (Content base) = 1
     \<and> fst (invoke world (DynamicProxyHandler n tool) w request)
         = (addRecordingMetadata world w base, None)"
proof (cases "dynamicServers w n")
  case None
  show ?thesis
    unfolding invoke_not_found [OF None] by (rule respond_base) simp_all
next
  case (Some info)
  show ?thesis
  proof (cases "IsConnected info \<and> Client info \<noteq> None")
    case False
    then have d: "\<not> IsConnected info \<or> Client info = None" by simp
    show ?thesis
      unfolding invoke_disconnected [OF Some d] by (rule respond_base) simp_all
  next
    case True
    then obtain c where c: "IsConnected info" "Client info = Some c" by auto
    show ?thesis
    proof (cases "callToolResult world (trace w) c tool (Arguments request)")
      case (Inl err)
      show ?thesis
      proof (cases "isConnectionError world err")
        case True
        show ?thesis
          unfolding invoke_connected [OF Some c] Let_def Inl sum.case if_P [OF True]
          by (rule respond_base) simp_all
      next
        case False
        show ?thesis
          unfolding invoke_connected [OF Some c] Let_def Inl sum.case if_not_P [OF False]
          by (rule respond_base) simp_all
      qed
    next
      case (Inr result)
      show ?thesis
        unfolding invoke_connected [OF Some c] Let_def Inr sum.case
        by (rule respond_base) simp_all
    qed
  qed
qed

subsection \<open>Every client of the table is on the client list\<close>

lemma clientsListedD:
  "clientsListed w \<Longrightarrow> dynamicServers w n = Some info \<Longrightarrow>
   Name (Config info) = n
   \<and> (\<forall>c. Client info = Some c \<longrightarrow> ClientServerName c = n \<and> c \<in> set (proxyClients w))"
  by (simp add: clientsListed_def)

lemma clientsListed_cong:
  "dynamicServers w' = dynamicServers w \<Longrightarrow> proxyClients w' = proxyClients w \<Longrightarrow>
   clientsListed w' = clientsListed w"
  by (simp add: clientsListed_def)

lemma clientsListed_recordMessage [simp]:
  "clientsListed (recordMessage w d m t s p) = clientsListed w"
  by (simp add: clientsListed_def)

lemma clientsListed_respond [simp]:
  "clientsListed (snd (respond world w t s r)) = clientsListed w"
  by simp

lemma clientsListed_update:
  assumes inv: "clientsListed w"
    and other: "\<And>m. m \<noteq> n \<Longrightarrow> dynamicServers w' m = dynamicServers w m"
    and here: "\<And>info'. dynamicServers w' n = Some info' \<Longrightarrow>
                 Name (Config info') = n
                 \<and> (\<forall>c. Client info' = Some c \<longrightarrow>
                       ClientServerName c = n \<and> c \<in> set (proxyClients w'))"
    and kept: "\<And>x. x \<in> set (proxyClients w) \<Longrightarrow> ClientServerName x \<noteq> n \<Longrightarrow>
                 x \<in> set (proxyClients w')"
  shows "clientsListed w'"
  unfolding clientsListed_def
proof (intro allI impI)
  fix m info assume m: "dynamicServers w' m = Some info"
  show "Name (Config info) = m
        \<and> (\<forall>c. Client info = Some c \<longrightarrow> ClientServerName c = m \<and> c \<in> set (proxyClients w'))"
  proof (cases "m = n")
    case True
    with m here show ?thesis by simp
  next
    case False
    with m other have old: "dynamicServers w m = Some info" by simp
    have a: "Name (Config info) = m"
      and b: "\<forall>c. Client info = Some c \<longrightarrow> ClientServerName c = m \<and> c \<in> set (proxyClients w)"
      using clientsListedD [OF inv old] by simp_all
    show ?thesis
    proof (intro conjI allI impI)
      show "Name (Config info) = m" by (rule a)
    next
      fix c assume "Client info = Some c"
      with b show "ClientServerName c = m" by simp
    next
      fix c assume "Client info = Some c"
      with b have "c \<in> set (proxyClients w)" and "ClientServerName c = m" by simp_all
      with False show "c \<in> set (proxyClients w')" by (simp add: kept)
    qed
  qed
qed

text \<open>The record of \<open>name\<close> is written again with the configuration and the client it had, or with no client.\<close>

lemma clientsListed_rewrite:
  assumes inv: "clientsListed w" and info: "dynamicServers w name = Some info"
    and ds: "dynamicServers w' = (dynamicServers w)(name \<mapsto> info')"
    and cfg: "Name (Config info') = name"
    and cl: "Client info' = None \<or> Client info' = Client info"
    and pc: "\<And>x. x \<in> set (proxyClients w) \<Longrightarrow> ClientServerName x \<noteq> name \<Longrightarrow>
               x \<in> set (proxyClients w')"
    and pc': "\<And>c. Client info' = Some c \<Longrightarrow> c \<in> set (proxyClients w) \<Longrightarrow> c \<in> set (proxyClients w')"
  shows "clientsListed w'"
proof (rule clientsListed_update [OF inv, where n = name])
  fix m assume "m \<noteq> name" then show "dynamicServers w' m = dynamicServers w m"
    using ds by simp
next
  fix i assume "dynamicServers w' name = Some i"
  then have i: "i = info'" using ds by simp
  have old: "\<forall>c. Client info = Some c \<longrightarrow> ClientServerName c = name \<and> c \<in> set (proxyClients w)"
    using clientsListedD [OF inv info] by simp
  show "Name (Config i) = name
         \<and> (\<forall>c. Client i = Some c \<longrightarrow> ClientServerName c = name \<and> c \<in> set (proxyClients w'))"
    unfolding i
  proof (intro conjI allI impI)
    show "Name (Config info') = name" by (rule cfg)
  next
    fix c assume c: "Client info' = Some c"
    with cl have "Client info = Some c" by simp
    with old show "ClientServerName c = name" by simp
  next
    fix c assume c: "Client info' = Some c"
    with cl have "Client info = Some c" by simp
    with old have "c \<in> set (proxyClients w)" by simp
    with c show "c \<in> set (proxyClients w')" by (rule pc')
  qed
next
  fix x assume "x \<in> set (proxyClients w)" "ClientServerName x \<noteq> name"
  then show "x \<in> set (proxyClients w')" by (rule pc)
qed

lemma clientsListed_new: "clientsListed (NewDynamicWrapper inherit)"
  by (simp add: clientsListed_def NewDynamicWrapper_def)

lemma clientsListed_populateStaticServer:
  assumes inv: "clientsListed w"
  shows "clientsListed (populateStaticServer allTools discoveryResults serverConfig w)"
proof (cases "find (\<lambda>c. ClientServerName c = Name serverConfig) (proxyClients w)")
  case None
  show ?thesis unfolding populateStaticServer_def None option.case Let_def
    by (rule clientsListed_update [OF inv, where n = "Name serverConfig"]) simp_all
next
  case (Some c)
  then have c: "ClientServerName c = Name serverConfig" "c \<in> set (proxyClients w)"
    by (auto simp: find_Some_iff)
  from c show ?thesis unfolding populateStaticServer_def Some option.case Let_def
    by - (rule clientsListed_update [OF inv, where n = "Name serverConfig"], auto)
qed

lemma clientsListed_populate:
  "clientsListed w \<Longrightarrow> clientsListed (populateStaticServers servers allTools discoveryResults w)"
  unfolding populateStaticServers_def
  by (induction servers arbitrary: w) (simp_all add: clientsListed_populateStaticServer)

lemma clientsListed_add:
  assumes "clientsListed w"
  shows "clientsListed (snd (handleServerAdd world w request))"
  using assms
  by (auto simp: handleServerAdd_def Let_def clientsListed_def split_beta Connect_def
           Initialize_def ListTools_def NewStdioClient_def
           split: option.splits sum.splits if_splits)

lemma Returns_state: "Returns r = Returns (x, w') \<Longrightarrow> w' = snd r"
  by auto

lemma clientsListed_remove:
  assumes inv: "clientsListed w" and run: "handleServerRemove world w request = Returns (x, w')"
  shows "clientsListed w'"
proof -
  let ?w1 = "recordMessage w ''request'' ''tool_call'' ''server_remove'' ''proxy'' (RequestPayload request)"
  show ?thesis
  proof (cases "RequireString request ''name''")
    case None
    then have "handleServerRemove world w request = Returns (respond world ?w1
        ''server_remove'' ''proxy'' (NewToolResultError ''name is required''))"
      by (simp add: handleServerRemove_def Let_def)
    from run [unfolded this] have "w' = snd (respond world ?w1
        ''server_remove'' ''proxy'' (NewToolResultError ''name is required''))"
      by (rule Returns_state)
    with inv show ?thesis by simp
  next
    case (Some name)
    show ?thesis
    proof (cases "dynamicServers w name")
      case None
      with Some have "handleServerRemove world w request = Returns (respond world ?w1
        ''server_remove'' ''proxy'' (NewToolResultError (''Server '' @ quoted name @ '' not found'')))"
        by (simp add: handleServerRemove_def Let_def)
      from run [unfolded this] have "w' = snd (respond world ?w1
        ''server_remove'' ''proxy'' (NewToolResultError (''Server '' @ quoted name @ '' not found'')))"
        by (rule Returns_state)
      with inv show ?thesis by simp
    next
      case info: (Some info)
      show ?thesis
      proof (cases "Client info")
        case None
        with Some info have "handleServerRemove world w request
            = Panics ''invalid memory address or nil pointer dereference''"
          by (simp add: handleServerRemove_def Let_def)
        with run show ?thesis by simp
      next
        case c: (Some c)
        from clientsListedD [OF inv info] c have nm: "ClientServerName c = name" by simp
        show ?thesis
        proof (cases "proxyClients w = []")
          case True
          with Some info c have "handleServerRemove world w request = Panics ''makeslice: cap out of range''"
            by (simp add: handleServerRemove_def Let_def)
          with run show ?thesis by simp
        next
          case False
          let ?w4 = "(Close ?w1 c)\<lparr>dynamicServers := (dynamicServers w)(name := None),
                        proxyClients := filter (\<lambda>x. x \<noteq> c) (proxyClients w)\<rparr>"
          let ?r = "NewToolResultText (''Removed server '' @ quoted name @ ''. Note: ''
                              @ itoa (length (Tools info))
                              @ '' tools remain registered but are now unavailable.'')"
          from Some info c False
          have "handleServerRemove world w request
                  = Returns (respond world ?w4 ''server_remove'' ''proxy'' ?r)"
            by (simp add: handleServerRemove_def Let_def)
          from run [unfolded this] have "w' = snd (respond world ?w4 ''server_remove'' ''proxy'' ?r)"
            by (rule Returns_state)
          then have ds: "dynamicServers w' = (dynamicServers w)(name := None)"
            and pc: "proxyClients w' = filter (\<lambda>x. x \<noteq> c) (proxyClients w)"
            by simp_all
          show ?thesis
          proof (rule clientsListed_update [OF inv, where n = name])
            fix m assume "m \<noteq> name" then show "dynamicServers w' m = dynamicServers w m"
              using ds by simp
          next
            fix i assume "dynamicServers w' name = Some i"
            then have False using ds by simp
            then show "Name (Config i) = name
               \<and> (\<forall>c. Client i = Some c \<longrightarrow> ClientServerName c = name \<and> c \<in> set (proxyClients w'))" ..
          next
            fix x assume "x \<in> set (proxyClients w)" "ClientServerName x \<noteq> name"
            with nm show "x \<in> set (proxyClients w')" by (auto simp: pc)
          qed
        qed
      qed
    qed
  qed
qed

lemma clientsListed_disconnect:
  assumes inv: "clientsListed w" and run: "handleServerDisconnect world w request = Returns (x, w')"
  shows "clientsListed w'"
proof -
  let ?w1 = "recordMessage w ''request'' ''tool_call'' ''server_disconnect'' ''proxy'' (RequestPayload request)"
  let ?info1 = "\<lambda>info. info\<lparr>IsConnected := False, ErrorMessage := ''Server disconnected by user'',
                           Client := None\<rparr>"
  let ?r = "\<lambda>name. NewToolResultText (''Disconnected server '' @ quoted name
                @ ''. Tools remain registered but will return errors.'' @ [CHR 0x5C, CHR ''n'']
                @ ''Use server_reconnect to restore with new binary/command.'')"
  show ?thesis
  proof (cases "RequireString request ''name''")
    case None
    from run [unfolded disconnect_no_name [OF None]] have "w' = snd (respond world ?w1
        ''server_disconnect'' ''proxy'' (NewToolResultError ''name is required''))"
      by (rule Returns_state)
    with inv show ?thesis by simp
  next
    case (Some name)
    show ?thesis
    proof (cases "dynamicServers w name")
      case None
      from run [unfolded disconnect_unknown [OF Some None]] have "w' = snd (respond world ?w1
        ''server_disconnect'' ''proxy'' (NewToolResultError (''Server '' @ quoted name @ '' not found'')))"
        by (rule Returns_state)
      with inv show ?thesis by simp
    next
      case info: (Some info)
      from clientsListedD [OF inv info] have nm: "Name (Config info) = name" by simp
      show ?thesis
      proof (cases "IsConnected info")
        case False
        from run [unfolded disconnect_already [OF Some info False]] have "w' = snd (respond world ?w1
          ''server_disconnect'' ''proxy''
          (NewToolResultText (''Server '' @ quoted name @ '' is already disconnected'')))"
          by (rule Returns_state)
        with inv show ?thesis by simp
      next
        case True
        show ?thesis
        proof (cases "Client info")
          case None
          have "handleServerDisconnect world w request = Returns (respond world
             (?w1\<lparr>dynamicServers := (dynamicServers w)(name \<mapsto> ?info1 info)\<rparr>)
             ''server_disconnect'' ''proxy'' (?r name))"
            using Some info True None by (simp add: handleServerDisconnect_def Let_def)
          from run [unfolded this] have "w' = snd (respond world
             (?w1\<lparr>dynamicServers := (dynamicServers w)(name \<mapsto> ?info1 info)\<rparr>)
             ''server_disconnect'' ''proxy'' (?r name))"
            by (rule Returns_state)
          then have ds: "dynamicServers w' = (dynamicServers w)(name \<mapsto> ?info1 info)"
            and pc: "proxyClients w' = proxyClients w"
            by simp_all
          show ?thesis
            by (rule clientsListed_rewrite [OF inv info ds]) (simp_all add: pc nm)
        next
          case c: (Some c)
          show ?thesis
          proof (cases "proxyClients w = []")
            case True
            from run have False
              unfolding disconnect_panics [OF Some info \<open>IsConnected info\<close> c True] by simp
            then show ?thesis ..
          next
            case False
            from run [unfolded disconnect_connected [OF Some info True c False]]
            have "w' = snd (respond world
              ((Close ?w1 c)
                \<lparr>proxyClients := filter (\<lambda>c. ClientServerName c \<noteq> name) (proxyClients w),
                  dynamicServers := (dynamicServers w)(name \<mapsto> ?info1 info)\<rparr>)
              ''server_disconnect'' ''proxy'' (?r name))"
              by (rule Returns_state)
            then have ds: "dynamicServers w' = (dynamicServers w)(name \<mapsto> ?info1 info)"
              and pc: "proxyClients w' = filter (\<lambda>c. ClientServerName c \<noteq> name) (proxyClients w)"
              by simp_all
            show ?thesis
              by (rule clientsListed_rewrite [OF inv info ds]) (simp_all add: pc nm)
          qed
        qed
      qed
    qed
  qed
qed

text \<open>On such a state \<open>server_disconnect\<close> returns: the client list of a connected record is not empty.\<close>

lemma disconnect_returns:
  assumes inv: "clientsListed w"
  shows "\<exists>x. handleServerDisconnect world w request = Returns x"
proof (cases "RequireString request ''name''")
  case None
  show ?thesis unfolding disconnect_no_name [OF None] by simp
next
  case (Some name)
  show ?thesis
  proof (cases "dynamicServers w name")
    case None
    show ?thesis unfolding disconnect_unknown [OF Some None] by simp
  next
    case info: (Some info)
    show ?thesis
    proof (cases "IsConnected info")
      case False
      show ?thesis unfolding disconnect_already [OF Some info False] by simp
    next
      case True
      show ?thesis
      proof (cases "Client info")
        case None
        with Some info True show ?thesis by (simp add: handleServerDisconnect_def Let_def)
      next
        case c: (Some c)
        with clientsListedD [OF inv info] have "c \<in> set (proxyClients w)" by simp
        then have ne: "proxyClients w \<noteq> []" by auto
        show ?thesis unfolding disconnect_connected [OF Some info True c ne] by simp
      qed
    qed
  qed
qed

lemma replaceClient_set:
  "replaceClient name c cs = Some cs' \<Longrightarrow>
   c \<in> set cs' \<and> (\<forall>x \<in> set cs. ClientServerName x \<noteq> name \<longrightarrow> x \<in> set cs')"
  by (induction cs arbitrary: cs') (auto split: if_splits)

lemma relisted_new: "c \<in> set (relisted name c cs)"
  using replaceClient_set [of name c cs] by (cases "replaceClient name c cs") (auto simp: relisted_def)

lemma relisted_kept:
  "x \<in> set cs \<Longrightarrow> ClientServerName x \<noteq> name \<Longrightarrow> x \<in> set (relisted name c cs)"
  using replaceClient_set [of name c cs] by (cases "replaceClient name c cs") (auto simp: relisted_def)

lemma reconnectWith_fields:
  assumes "reconnectWith world w name commandStr info cfg = ((result, goErr), w')"
  shows "((\<exists>msg. dynamicServers w' = (dynamicServers w)(name \<mapsto>
                info\<lparr>IsConnected := False, ErrorMessage := msg, Config := cfg\<rparr>))
          \<and> proxyClients w' = proxyClients w)
       \<or> (dynamicServers w' = (dynamicServers w)(name \<mapsto>
              info\<lparr>Client := Some \<lparr>ClientId = nextClient w, ClientServerName = Name cfg\<rparr>,
                    Config := cfg, ErrorMessage := [], IsConnected := True\<rparr>)
          \<and> proxyClients w' =
                relisted name \<lparr>ClientId = nextClient w, ClientServerName = Name cfg\<rparr> (proxyClients w))"
  using assms
  by (auto simp: reconnectWith_def Let_def NewStdioClient_def Connect_def Initialize_def
        ListTools_def respond_eq reconnectFailed_def relisted_def
      split: option.splits sum.splits if_splits)

lemma clientsListed_reconnectWith:
  assumes inv: "clientsListed w" and info: "dynamicServers w name = Some info"
    and nm: "Name cfg = name"
  shows "clientsListed (snd (reconnectWith world w name commandStr info cfg))"
proof -
  obtain result goErr w' where run: "reconnectWith world w name commandStr info cfg = ((result, goErr), w')"
    by (cases "reconnectWith world w name commandStr info cfg") auto
  let ?c = "\<lparr>ClientId = nextClient w, ClientServerName = Name cfg\<rparr>"
  from reconnectWith_fields [OF run] have "clientsListed w'"
  proof (elim disjE conjE exE)
    fix msg
    assume ds: "dynamicServers w' = (dynamicServers w)(name \<mapsto>
                info\<lparr>IsConnected := False, ErrorMessage := msg, Config := cfg\<rparr>)"
      and pc: "proxyClients w' = proxyClients w"
    show ?thesis
      by (rule clientsListed_rewrite [OF inv info ds]) (simp_all add: pc nm)
  next
    assume ds: "dynamicServers w' = (dynamicServers w)(name \<mapsto>
              info\<lparr>Client := Some ?c, Config := cfg, ErrorMessage := [], IsConnected := True\<rparr>)"
      and pc: "proxyClients w' = relisted name ?c (proxyClients w)"
    show ?thesis
    proof (rule clientsListed_update [OF inv, where n = name])
      fix m assume "m \<noteq> name" then show "dynamicServers w' m = dynamicServers w m"
        using ds by simp
    next
      fix i assume "dynamicServers w' name = Some i"
      then have "i = info\<lparr>Client := Some ?c, Config := cfg, ErrorMessage := [], IsConnected := True\<rparr>"
        using ds by simp
      then show "Name (Config i) = name
             \<and> (\<forall>c. Client i = Some c \<longrightarrow> ClientServerName c = name \<and> c \<in> set (proxyClients w'))"
        using nm by (simp add: pc relisted_new)
    next
      fix x assume "x \<in> set (proxyClients w)" "ClientServerName x \<noteq> name"
      then show "x \<in> set (proxyClients w')" by (simp add: pc relisted_kept)
    qed
  qed
  with run show ?thesis by simp
qed

lemma clientsListed_reconnect:
  assumes inv: "clientsListed w"
  shows "clientsListed (snd (handleServerReconnect world w request))"
proof (cases "RequireString request ''name''")
  case None
  with inv show ?thesis by (simp add: handleServerReconnect_def Let_def)
next
  case (Some name)
  show ?thesis
  proof (cases "dynamicServers w name")
    case None
    with Some inv show ?thesis by (simp add: handleServerReconnect_def Let_def)
  next
    case info: (Some info)
    let ?w1 = "recordMessage w ''request'' ''tool_call'' ''server_reconnect'' ''proxy'' (RequestPayload request)"
    have inv1: "clientsListed ?w1" using inv by simp
    have info1: "dynamicServers ?w1 name = Some info" using info by simp
    from clientsListedD [OF inv info] have nm: "Name (Config info) = name" by simp
    note rw = clientsListed_reconnectWith [OF inv1 info1]
    show ?thesis
      using Some info inv
      by (simp add: handleServerReconnect_def Let_def rw nm)
  qed
qed

lemma clientsListed_invoke:
  assumes inv: "clientsListed w"
  shows "clientsListed (snd (invoke world h w request))"
proof (cases h)
  case (DynamicProxyHandler sn tn)
  obtain result goErr w' where run: "invoke world (DynamicProxyHandler sn tn) w request = ((result, goErr), w')"
    by (cases "invoke world (DynamicProxyHandler sn tn) w request") auto
  then have fields: "proxyClients w' = proxyClients w
      \<and> (dynamicServers w' = dynamicServers w
           \<or> (\<exists>info err. dynamicServers w sn = Some info
                  \<and> dynamicServers w' = (dynamicServers w)(sn \<mapsto>
                        info\<lparr>IsConnected := False, ErrorMessage := err\<rparr>)))"
    by (auto simp: invoke.simps Let_def CallTool_def respond_eq
             split: option.splits sum.splits if_splits prod.splits)
  then have pc: "proxyClients w' = proxyClients w" by simp
  from fields have "clientsListed w'"
  proof (elim conjE disjE exE)
    assume "dynamicServers w' = dynamicServers w"
    from clientsListed_cong [OF this pc] inv show ?thesis by simp
  next
    fix info err
    assume info: "dynamicServers w sn = Some info"
      and ds: "dynamicServers w' = (dynamicServers w)(sn \<mapsto> info\<lparr>IsConnected := False, ErrorMessage := err\<rparr>)"
    from clientsListedD [OF inv info] have nm: "Name (Config info) = sn" by simp
    show ?thesis
      by (rule clientsListed_rewrite [OF inv info ds]) (simp_all add: pc nm)
  qed
  with run DynamicProxyHandler show ?thesis by simp
qed

subsection \<open>Bound tools, tool names and allocated clients\<close>

lemma grows_refl:
  "dynamicServers w' = dynamicServers w \<Longrightarrow> baseTools w' = baseTools w \<Longrightarrow>
   proxyClients w' = proxyClients w \<Longrightarrow> nextClient w \<le> nextClient w' \<Longrightarrow> grows w w'"
  by (auto simp: grows_def)

lemma grows_boundByName: "grows w w' \<Longrightarrow> boundByName w \<Longrightarrow> boundByName w'"
  unfolding grows_def boundByName_def by meson

lemma grows_toolsBound: "grows w w' \<Longrightarrow> toolsBound w \<Longrightarrow> toolsBound w'"
  unfolding grows_def toolsBound_def by (meson subsetD)

lemma grows_clientsAllocated: "grows w w' \<Longrightarrow> clientsAllocated w \<Longrightarrow> clientsAllocated w'"
  unfolding grows_def clientsAllocated_def by (meson less_le_trans)

lemma AddTool_lookup:
  "map_of (baseTools (AddTool w p h)) q = (if q = p then Some h else map_of (baseTools w) q)"
  by (simp add: AddTool_def update_conv')

lemma AddTool_keys: "fst ` set (baseTools (AddTool w p h)) = insert p (fst ` set (baseTools w))"
  by (simp add: AddTool_def dom_update)

lemma registerTools_baseTools:
  "baseTools (fst (registerTools name c tools (w, si))) = boundAfter name tools (baseTools w)"
  by (induction tools arbitrary: w si)
     (simp_all add: boundAfter_def Let_def AddTool_def createDynamicProxyHandler_def)

lemma registerTools_record:
  "snd (registerTools name c tools (w, si))
     = si\<lparr>Tools := Tools si @ map (\<lambda>tool. name @ ''_'' @ TName tool) tools\<rparr>"
  by (induction tools arbitrary: w si) (simp_all add: Let_def)

lemma boundAfter_lookup:
  "map_of (boundAfter name tools bound) p = Some h \<Longrightarrow>
   map_of bound p = Some h
   \<or> (\<exists>sn tn. h = createDynamicProxyHandler sn tn \<and> p = sn @ ''_'' @ tn)"
proof (induction tools arbitrary: bound)
  case Nil
  then show ?case by (simp add: boundAfter_def)
next
  case (Cons tool tools)
  from Cons.prems have "map_of (boundAfter name tools
       (AList.update (name @ ''_'' @ TName tool) (createDynamicProxyHandler name (TName tool)) bound)) p
       = Some h"
    by (simp add: boundAfter_def)
  from Cons.IH [OF this] show ?case
    by (auto simp: update_conv' split: if_splits)
qed

lemma boundAfter_keys:
  "fst ` set (boundAfter name tools bound)
     = fst ` set bound \<union> (\<lambda>tool. name @ ''_'' @ TName tool) ` set tools"
  by (induction tools arbitrary: bound) (auto simp: boundAfter_def dom_update)

lemma add_success:
  assumes "RequireString request ''name'' = Some name"
    and "RequireString request ''command'' = Some command"
    and "dynamicServers w name = None" and "Fields world command \<noteq> []"
    and "connectResult world (configured w (addedClient w name) (addedConfig world name command))
           (addedClient w name) = None"
    and "initializeResult world
           (configured w (addedClient w name) (addedConfig world name command) @ [EvConnect (addedClient w name)])
           (addedClient w name) = None"
    and "listToolsResult world
           (configured w (addedClient w name) (addedConfig world name command)
              @ [EvConnect (addedClient w name), EvInitialize (addedClient w name)])
           (addedClient w name) = Inr tools"
  shows "dynamicServers (snd (handleServerAdd world w request)) = (dynamicServers w)(name \<mapsto>
            \<lparr>InfoName = name, Client = Some (addedClient w name),
             Tools = map (\<lambda>tool. name @ ''_'' @ TName tool) tools,
             Config = addedConfig world name command, IsConnected = True, ErrorMessage = []\<rparr>)"
    and "baseTools (snd (handleServerAdd world w request)) = boundAfter name tools (baseTools w)"
    and "proxyClients (snd (handleServerAdd world w request)) = proxyClients w @ [addedClient w name]"
    and "nextClient (snd (handleServerAdd world w request)) = Suc (nextClient w)"
  using assms
  by (simp_all add: handleServerAdd_def Let_def NewStdioClient_def Connect_def Initialize_def
        ListTools_def emit_def addedClient_def addedConfig_def configured_def
        registerTools_baseTools registerTools_record split_beta)

lemma add_fields:
  "(dynamicServers (snd (handleServerAdd world w request)) = dynamicServers w
      \<and> baseTools (snd (handleServerAdd world w request)) = baseTools w
      \<and> proxyClients (snd (handleServerAdd world w request)) = proxyClients w
      \<and> nextClient w \<le> nextClient (snd (handleServerAdd world w request)))
   \<or> (\<exists>name tools cfg.
         dynamicServers (snd (handleServerAdd world w request)) = (dynamicServers w)(name \<mapsto>
            \<lparr>InfoName = name, Client = Some (addedClient w name),
             Tools = map (\<lambda>tool. name @ ''_'' @ TName tool) tools, Config = cfg,
             IsConnected = True, ErrorMessage = []\<rparr>)
         \<and> baseTools (snd (handleServerAdd world w request)) = boundAfter name tools (baseTools w)
         \<and> proxyClients (snd (handleServerAdd world w request)) = proxyClients w @ [addedClient w name]
         \<and> nextClient (snd (handleServerAdd world w request)) = Suc (nextClient w))"
  (is "?same \<or> ?added")
proof (cases "RequireString request ''name''")
  case None
  then have ?same by (simp add: handleServerAdd_def Let_def)
  then show ?thesis ..
next
  case name: (Some name)
  show ?thesis
  proof (cases "RequireString request ''command''")
    case None
    with name have ?same by (simp add: handleServerAdd_def Let_def)
    then show ?thesis ..
  next
    case command: (Some command)
    show ?thesis
    proof (cases "dynamicServers w name = None \<and> Fields world command \<noteq> []")
      case False
      with name command have ?same by (auto simp: handleServerAdd_def Let_def)
      then show ?thesis ..
    next
      case True
      then have free: "dynamicServers w name = None" and parts: "Fields world command \<noteq> []"
        by simp_all
      let ?c = "addedClient w name"
      let ?t0 = "configured w ?c (addedConfig world name command)"
      show ?thesis
      proof (cases "connectResult world ?t0 ?c")
        case (Some err)
        have ?same
          unfolding add_connect_fails [OF name command free parts Some] by simp
        then show ?thesis ..
      next
        case con: None
        show ?thesis
        proof (cases "initializeResult world (?t0 @ [EvConnect ?c]) ?c")
          case (Some err)
          have ?same
            unfolding add_initialize_fails [OF name command free parts con Some] by simp
          then show ?thesis ..
        next
          case ini: None
          show ?thesis
          proof (cases "listToolsResult world (?t0 @ [EvConnect ?c, EvInitialize ?c]) ?c")
            case (Inl err)
            have ?same
              unfolding add_list_fails [OF name command free parts con ini Inl] by simp
            then show ?thesis ..
          next
            case (Inr tools)
            note ok = add_success [OF name command free parts con ini Inr]
            have ?added
              by (rule exI [of _ name], rule exI [of _ tools],
                  rule exI [of _ "addedConfig world name command"])
                 (simp only: ok simp_thms)
            then show ?thesis ..
          qed
        qed
      qed
    qed
  qed
qed

lemma grows_add: "grows w (snd (handleServerAdd world w request))"
proof -
  let ?w' = "snd (handleServerAdd world w request)"
  from add_fields [of world w request] show ?thesis
  proof (elim disjE conjE exE)
    assume "dynamicServers ?w' = dynamicServers w" "baseTools ?w' = baseTools w"
      "proxyClients ?w' = proxyClients w" "nextClient w \<le> nextClient ?w'"
    then show ?thesis by (rule grows_refl)
  next
    fix name tools cfg
    let ?c = "addedClient w name"
    assume ds: "dynamicServers ?w' = (dynamicServers w)(name \<mapsto>
                \<lparr>InfoName = name, Client = Some ?c,
                 Tools = map (\<lambda>tool. name @ ''_'' @ TName tool) tools, Config = cfg,
                 IsConnected = True, ErrorMessage = []\<rparr>)"
      and bt: "baseTools ?w' = boundAfter name tools (baseTools w)"
      and pc: "proxyClients ?w' = proxyClients w @ [?c]"
      and nc: "nextClient ?w' = Suc (nextClient w)"
    show ?thesis
      unfolding grows_def
    proof (intro conjI allI impI ballI)
      fix p h assume "map_of (baseTools ?w') p = Some h"
      then show "map_of (baseTools w) p = Some h
         \<or> (\<exists>sn tn. h = createDynamicProxyHandler sn tn \<and> p = sn @ ''_'' @ tn)"
        unfolding bt by (rule boundAfter_lookup)
    next
      show "fst ` set (baseTools w) \<subseteq> fst ` set (baseTools ?w')"
        unfolding bt boundAfter_keys by simp
    next
      fix n info' p assume "dynamicServers ?w' n = Some info'" "p \<in> set (Tools info')"
      then show "(\<exists>info. dynamicServers w n = Some info \<and> p \<in> set (Tools info))
            \<or> p \<in> fst ` set (baseTools ?w')"
        unfolding bt boundAfter_keys ds by (auto split: if_splits)
    next
      show "nextClient w \<le> nextClient ?w'" by (simp add: nc)
    next
      fix c assume "c \<in> set (proxyClients ?w')"
      then show "c \<in> set (proxyClients w) \<or> ClientId c < nextClient ?w'"
        unfolding pc nc by (auto simp: addedClient_def)
    qed
  qed
qed


lemma grows_update:
  assumes "baseTools w' = baseTools w" and "nextClient w \<le> nextClient w'"
    and "\<And>c. c \<in> set (proxyClients w') \<Longrightarrow> c \<in> set (proxyClients w) \<or> ClientId c < nextClient w'"
    and "\<And>n info'. dynamicServers w' n = Some info' \<Longrightarrow>
           \<exists>info. dynamicServers w n = Some info \<and> Tools info' = Tools info"
  shows "grows w w'"
  unfolding grows_def
proof (intro conjI allI impI ballI)
  fix p h assume "map_of (baseTools w') p = Some h"
  then show "map_of (baseTools w) p = Some h
     \<or> (\<exists>sn tn. h = createDynamicProxyHandler sn tn \<and> p = sn @ ''_'' @ tn)"
    by (simp add: assms(1))
next
  show "fst ` set (baseTools w) \<subseteq> fst ` set (baseTools w')" by (simp add: assms(1))
next
  fix n info' p assume a: "dynamicServers w' n = Some info'" and p: "p \<in> set (Tools info')"
  from assms(4) [OF a] obtain info where "dynamicServers w n = Some info" "Tools info' = Tools info"
    by auto
  with p have "\<exists>info. dynamicServers w n = Some info \<and> p \<in> set (Tools info)" by simp
  then show "(\<exists>info. dynamicServers w n = Some info \<and> p \<in> set (Tools info))
        \<or> p \<in> fst ` set (baseTools w')" ..
next
  show "nextClient w \<le> nextClient w'" by (rule assms(2))
next
  fix c assume "c \<in> set (proxyClients w')"
  then show "c \<in> set (proxyClients w) \<or> ClientId c < nextClient w'" by (rule assms(3))
qed

lemma grows_remove:
  assumes run: "handleServerRemove world w request = Returns (x, w')"
  shows "grows w w'"
proof -
  let ?w1 = "recordMessage w ''request'' ''tool_call'' ''server_remove'' ''proxy'' (RequestPayload request)"
  show ?thesis
  proof (cases "RequireString request ''name''")
    case None
    then have "handleServerRemove world w request = Returns (respond world ?w1
        ''server_remove'' ''proxy'' (NewToolResultError ''name is required''))"
      by (simp add: handleServerRemove_def Let_def)
    from run [unfolded this] have "w' = snd (respond world ?w1
        ''server_remove'' ''proxy'' (NewToolResultError ''name is required''))"
      by (rule Returns_state)
    then show ?thesis by (intro grows_refl) simp_all
  next
    case (Some name)
    show ?thesis
    proof (cases "dynamicServers w name")
      case None
      with Some have "handleServerRemove world w request = Returns (respond world ?w1
        ''server_remove'' ''proxy'' (NewToolResultError (''Server '' @ quoted name @ '' not found'')))"
        by (simp add: handleServerRemove_def Let_def)
      from run [unfolded this] have "w' = snd (respond world ?w1
        ''server_remove'' ''proxy'' (NewToolResultError (''Server '' @ quoted name @ '' not found'')))"
        by (rule Returns_state)
      then show ?thesis by (intro grows_refl) simp_all
    next
      case info: (Some info)
      show ?thesis
      proof (cases "Client info")
        case None
        with Some info have "handleServerRemove world w request
            = Panics ''invalid memory address or nil pointer dereference''"
          by (simp add: handleServerRemove_def Let_def)
        with run show ?thesis by simp
      next
        case c: (Some c)
        show ?thesis
        proof (cases "proxyClients w = []")
          case True
          with Some info c have "handleServerRemove world w request = Panics ''makeslice: cap out of range''"
            by (simp add: handleServerRemove_def Let_def)
          with run show ?thesis by simp
        next
          case False
          let ?w4 = "(Close ?w1 c)\<lparr>dynamicServers := (dynamicServers w)(name := None),
                        proxyClients := filter (\<lambda>x. x \<noteq> c) (proxyClients w)\<rparr>"
          let ?r = "NewToolResultText (''Removed server '' @ quoted name @ ''. Note: ''
                              @ itoa (length (Tools info))
                              @ '' tools remain registered but are now unavailable.'')"
          from Some info c False
          have "handleServerRemove world w request
                  = Returns (respond world ?w4 ''server_remove'' ''proxy'' ?r)"
            by (simp add: handleServerRemove_def Let_def)
          from run [unfolded this] have w': "w' = snd (respond world ?w4 ''server_remove'' ''proxy'' ?r)"
            by (rule Returns_state)
          show ?thesis
            by (rule grows_update) (auto simp: w' split: if_splits)
        qed
      qed
    qed
  qed
qed

lemma grows_disconnect:
  assumes run: "handleServerDisconnect world w request = Returns (x, w')"
  shows "grows w w'"
proof -
  let ?w1 = "recordMessage w ''request'' ''tool_call'' ''server_disconnect'' ''proxy'' (RequestPayload request)"
  let ?info1 = "\<lambda>info. info\<lparr>IsConnected := False, ErrorMessage := ''Server disconnected by user'',
                           Client := None\<rparr>"
  let ?r = "\<lambda>name. NewToolResultText (''Disconnected server '' @ quoted name
                @ ''. Tools remain registered but will return errors.'' @ [CHR 0x5C, CHR ''n'']
                @ ''Use server_reconnect to restore with new binary/command.'')"
  show ?thesis
  proof (cases "RequireString request ''name''")
    case None
    from run [unfolded disconnect_no_name [OF None]] have "w' = snd (respond world ?w1
        ''server_disconnect'' ''proxy'' (NewToolResultError ''name is required''))"
      by (rule Returns_state)
    then show ?thesis by (intro grows_refl) simp_all
  next
    case (Some name)
    show ?thesis
    proof (cases "dynamicServers w name")
      case None
      from run [unfolded disconnect_unknown [OF Some None]] have "w' = snd (respond world ?w1
        ''server_disconnect'' ''proxy'' (NewToolResultError (''Server '' @ quoted name @ '' not found'')))"
        by (rule Returns_state)
      then show ?thesis by (intro grows_refl) simp_all
    next
      case info: (Some info)
      show ?thesis
      proof (cases "IsConnected info")
        case False
        from run [unfolded disconnect_already [OF Some info False]] have "w' = snd (respond world ?w1
          ''server_disconnect'' ''proxy''
          (NewToolResultText (''Server '' @ quoted name @ '' is already disconnected'')))"
          by (rule Returns_state)
        then show ?thesis by (intro grows_refl) simp_all
      next
        case True
        show ?thesis
        proof (cases "Client info")
          case None
          have "handleServerDisconnect world w request = Returns (respond world
             (?w1\<lparr>dynamicServers := (dynamicServers w)(name \<mapsto> ?info1 info)\<rparr>)
             ''server_disconnect'' ''proxy'' (?r name))"
            using Some info True None by (simp add: handleServerDisconnect_def Let_def)
          from run [unfolded this] have w': "w' = snd (respond world
             (?w1\<lparr>dynamicServers := (dynamicServers w)(name \<mapsto> ?info1 info)\<rparr>)
             ''server_disconnect'' ''proxy'' (?r name))"
            by (rule Returns_state)
          show ?thesis
            by (rule grows_update) (auto simp: w' info split: if_splits)
        next
          case c: (Some c)
          show ?thesis
          proof (cases "proxyClients w = []")
            case True
            from run have False
              unfolding disconnect_panics [OF Some info \<open>IsConnected info\<close> c True] by simp
            then show ?thesis ..
          next
            case False
            from run [unfolded disconnect_connected [OF Some info True c False]]
            have w': "w' = snd (respond world
              ((Close ?w1 c)
                \<lparr>proxyClients := filter (\<lambda>c. ClientServerName c \<noteq> name) (proxyClients w),
                  dynamicServers := (dynamicServers w)(name \<mapsto> ?info1 info)\<rparr>)
              ''server_disconnect'' ''proxy'' (?r name))"
              by (rule Returns_state)
            show ?thesis
              by (rule grows_update) (auto simp: w' info split: if_splits)
          qed
        qed
      qed
    qed
  qed
qed

lemma relisted_subset: "x \<in> set (relisted name c cs) \<Longrightarrow> x \<in> set cs \<or> x = c"
proof -
  have "replaceClient name c cs = Some cs' \<Longrightarrow> x \<in> set cs' \<Longrightarrow> x \<in> set cs \<or> x = c" for cs'
    by (induction cs arbitrary: cs') (auto split: if_splits)
  then show "x \<in> set (relisted name c cs) \<Longrightarrow> x \<in> set cs \<or> x = c"
    by (cases "replaceClient name c cs") (auto simp: relisted_def)
qed

lemma reconnectWith_more:
  assumes "reconnectWith world w name commandStr info cfg = ((result, goErr), w')"
  shows "baseTools w' = baseTools w \<and> nextClient w' = Suc (nextClient w)"
  using assms
  by (auto simp: reconnectWith_def Let_def NewStdioClient_def Connect_def Initialize_def
        ListTools_def respond_eq reconnectFailed_def
      split: option.splits sum.splits if_splits)

lemma grows_reconnectWith:
  assumes info: "dynamicServers w name = Some info"
  shows "grows w (snd (reconnectWith world w name commandStr info cfg))"
proof -
  obtain result goErr w' where run: "reconnectWith world w name commandStr info cfg = ((result, goErr), w')"
    by (cases "reconnectWith world w name commandStr info cfg") auto
  from reconnectWith_more [OF run]
  have bt: "baseTools w' = baseTools w" and nc: "nextClient w' = Suc (nextClient w)" by simp_all
  let ?c = "\<lparr>ClientId = nextClient w, ClientServerName = Name cfg\<rparr>"
  from reconnectWith_fields [OF run] have "grows w w'"
  proof (elim disjE conjE exE)
    fix msg
    assume ds: "dynamicServers w' = (dynamicServers w)(name \<mapsto>
                info\<lparr>IsConnected := False, ErrorMessage := msg, Config := cfg\<rparr>)"
      and pc: "proxyClients w' = proxyClients w"
    show ?thesis
      by (rule grows_update [OF bt]) (auto simp: nc pc ds info split: if_splits)
  next
    assume ds: "dynamicServers w' = (dynamicServers w)(name \<mapsto>
              info\<lparr>Client := Some ?c, Config := cfg, ErrorMessage := [], IsConnected := True\<rparr>)"
      and pc: "proxyClients w' = relisted name ?c (proxyClients w)"
    show ?thesis
    proof (rule grows_update [OF bt])
      show "nextClient w \<le> nextClient w'" by (simp add: nc)
    next
      fix c assume "c \<in> set (proxyClients w')"
      then have "c \<in> set (proxyClients w) \<or> c = ?c" unfolding pc by (rule relisted_subset)
      then show "c \<in> set (proxyClients w) \<or> ClientId c < nextClient w'" by (auto simp: nc)
    next
      fix n info' assume "dynamicServers w' n = Some info'"
      then show "\<exists>info. dynamicServers w n = Some info \<and> Tools info' = Tools info"
        by (auto simp: ds info split: if_splits)
    qed
  qed
  with run show ?thesis by simp
qed

lemma grows_recordMessage [simp]: "grows (recordMessage w d m t s p) w' = grows w w'"
  by (simp add: grows_def)

lemma grows_reconnect: "grows w (snd (handleServerReconnect world w request))"
proof (cases "RequireString request ''name''")
  case None
  then show ?thesis by (simp add: handleServerReconnect_def Let_def grows_refl)
next
  case (Some name)
  show ?thesis
  proof (cases "dynamicServers w name")
    case None
    with Some show ?thesis by (simp add: handleServerReconnect_def Let_def grows_refl)
  next
    case info: (Some info)
    let ?w1 = "recordMessage w ''request'' ''tool_call'' ''server_reconnect'' ''proxy'' (RequestPayload request)"
    have info1: "dynamicServers ?w1 name = Some info" using info by simp
    note rw = grows_reconnectWith [OF info1, simplified]
    show ?thesis
      using Some info
      by (simp add: handleServerReconnect_def Let_def rw grows_refl)
  qed
qed

lemma invoke_fields:
  assumes run: "invoke world (DynamicProxyHandler sn tn) w request = ((result, goErr), w')"
  shows "proxyClients w' = proxyClients w \<and> baseTools w' = baseTools w \<and> nextClient w' = nextClient w
      \<and> (dynamicServers w' = dynamicServers w
           \<or> (\<exists>info err. dynamicServers w sn = Some info
                  \<and> dynamicServers w' = (dynamicServers w)(sn \<mapsto>
                        info\<lparr>IsConnected := False, ErrorMessage := err\<rparr>)))"
  using run
  by (auto simp: invoke.simps Let_def CallTool_def respond_eq
           split: option.splits sum.splits if_splits prod.splits)

lemma grows_invoke: "grows w (snd (invoke world h w request))"
proof (cases h)
  case (DynamicProxyHandler sn tn)
  obtain result goErr w' where run: "invoke world (DynamicProxyHandler sn tn) w request = ((result, goErr), w')"
    by (cases "invoke world (DynamicProxyHandler sn tn) w request") auto
  from invoke_fields [OF run] have "grows w w'"
    by (intro grows_update) (auto split: if_splits)
  with run DynamicProxyHandler show ?thesis by simp
qed


subsection \<open>The state after start-up, and every state\<close>

lemma bindStaticTools_fields [simp]:
  "dynamicServers (bindStaticTools tools w) = dynamicServers w"
  "proxyClients (bindStaticTools tools w) = proxyClients w"
  "nextClient (bindStaticTools tools w) = nextClient w"
  unfolding bindStaticTools_def by (induction tools arbitrary: w; simp)+

lemma bindStaticTools_lookup:
  "map_of (baseTools (bindStaticTools tools w)) p = Some h \<Longrightarrow>
   map_of (baseTools w) p = Some h
   \<or> (\<exists>sn tn. h = createDynamicProxyHandler sn tn \<and> p = sn @ ''_'' @ tn)"
  unfolding bindStaticTools_def
proof (induction tools arbitrary: w)
  case Nil
  then show ?case by simp
next
  case (Cons tool tools)
  from Cons.prems Cons.IH [of "AddTool w (ServerName tool @ ''_'' @ OriginalName tool)
        (createDynamicProxyHandler (ServerName tool) (OriginalName tool))"]
  show ?case by (auto simp: AddTool_lookup split: if_splits)
qed

lemma bindStaticTools_keys:
  "fst ` set (baseTools (bindStaticTools tools w))
     = fst ` set (baseTools w) \<union> (\<lambda>tool. ServerName tool @ ''_'' @ OriginalName tool) ` set tools"
  unfolding bindStaticTools_def by (induction tools arbitrary: w) (auto simp: AddTool_keys)

lemma populateStaticServer_fields [simp]:
  "baseTools (populateStaticServer allTools discoveryResults serverConfig w) = baseTools w"
  "proxyClients (populateStaticServer allTools discoveryResults serverConfig w) = proxyClients w"
  "nextClient (populateStaticServer allTools discoveryResults serverConfig w) = nextClient w"
  by (simp_all add: populateStaticServer_def Let_def split: option.splits)

lemma populateStaticServers_fields [simp]:
  "baseTools (populateStaticServers servers allTools discoveryResults w) = baseTools w"
  "proxyClients (populateStaticServers servers allTools discoveryResults w) = proxyClients w"
  "nextClient (populateStaticServers servers allTools discoveryResults w) = nextClient w"
  unfolding populateStaticServers_def by (induction servers arbitrary: w; simp)+

lemma populateStaticServer_tools:
  "dynamicServers (populateStaticServer allTools discoveryResults serverConfig w) n = Some info \<Longrightarrow>
   dynamicServers w n = Some info \<or> set (Tools info) \<subseteq> PrefixedName ` set allTools"
  by (auto simp: populateStaticServer_def Let_def split: option.splits if_splits)

lemma populateStaticServers_tools:
  "dynamicServers (populateStaticServers servers allTools discoveryResults w) n = Some info \<Longrightarrow>
   dynamicServers w n = Some info \<or> set (Tools info) \<subseteq> PrefixedName ` set allTools"
  unfolding populateStaticServers_def
proof (induction servers arbitrary: w)
  case Nil
  then show ?case by simp
next
  case (Cons serverConfig servers)
  from Cons.prems have "dynamicServers (fold (populateStaticServer allTools discoveryResults) servers
       (populateStaticServer allTools discoveryResults serverConfig w)) n = Some info"
    by simp
  from Cons.IH [OF this] populateStaticServer_tools [of allTools discoveryResults serverConfig w n info]
  show ?case by blast
qed

lemma initialized_invariants:
  assumes empty: "dynamicServers w = Map.empty" and unbound: "baseTools w = []"
    and alloc: "\<forall>c \<in> set (proxyClients w). ClientId c < nextClient w"
    and names: "\<forall>tool \<in> set allTools. PrefixedName tool = ServerName tool @ ''_'' @ OriginalName tool"
  shows "clientsListed (populateStaticServers servers allTools discoveryResults (bindStaticTools allTools w))"
    and "boundByName (populateStaticServers servers allTools discoveryResults (bindStaticTools allTools w))"
    and "toolsBound (populateStaticServers servers allTools discoveryResults (bindStaticTools allTools w))"
    and "clientsAllocated (populateStaticServers servers allTools discoveryResults (bindStaticTools allTools w))"
proof -
  let ?b = "bindStaticTools allTools w"
  let ?s = "populateStaticServers servers allTools discoveryResults ?b"
  have "clientsListed ?b" by (simp add: clientsListed_def empty)
  then show "clientsListed ?s" by (rule clientsListed_populate)
  show "boundByName ?s"
    unfolding boundByName_def
  proof (intro allI impI)
    fix p h assume "map_of (baseTools ?s) p = Some h"
    then have "map_of (baseTools ?b) p = Some h" by simp
    from bindStaticTools_lookup [OF this] unbound
    show "\<exists>sn tn. h = createDynamicProxyHandler sn tn \<and> p = sn @ ''_'' @ tn" by simp
  qed
  show "toolsBound ?s"
    unfolding toolsBound_def
  proof (intro allI impI)
    fix n info p assume a: "dynamicServers ?s n = Some info" and p: "p \<in> set (Tools info)"
    from populateStaticServers_tools [OF a] empty have "set (Tools info) \<subseteq> PrefixedName ` set allTools"
      by simp
    with p obtain tool where "tool \<in> set allTools" "p = PrefixedName tool" by auto
    with names have "p \<in> (\<lambda>tool. ServerName tool @ ''_'' @ OriginalName tool) ` set allTools"
      by force
    then show "p \<in> fst ` set (baseTools ?s)" by (simp add: bindStaticTools_keys)
  qed
  show "clientsAllocated ?s" using alloc by (simp add: clientsAllocated_def)
qed

lemma callTool_Some:
  "callTool world w toolName request = Some r \<longleftrightarrow>
     (\<exists>h. map_of (baseTools w) toolName = Some h \<and> r = invoke world h w request)"
  by (auto simp: callTool_def split: option.splits)

lemma reachable_invariants:
  "reachable world w \<Longrightarrow> clientsListed w \<and> boundByName w \<and> toolsBound w \<and> clientsAllocated w"
proof (induction rule: reachable.induct)
  case (initialized w allTools servers discoveryResults)
  from initialized_invariants [OF initialized] show ?case by (intro conjI)
next
  case (added w request)
  with grows_add [of w world request] show ?case
    by (simp add: clientsListed_add grows_boundByName grows_toolsBound grows_clientsAllocated)
next
  case (removed w request x w')
  from removed(3) have "clientsListed w'" by (simp add: clientsListed_remove [OF _ removed(2)])
  with removed(3) grows_remove [OF removed(2)] show ?case
    by (simp add: grows_boundByName grows_toolsBound grows_clientsAllocated)
next
  case (disconnected w request x w')
  from disconnected(3) have "clientsListed w'"
    by (simp add: clientsListed_disconnect [OF _ disconnected(2)])
  with disconnected(3) grows_disconnect [OF disconnected(2)] show ?case
    by (simp add: grows_boundByName grows_toolsBound grows_clientsAllocated)
next
  case (reconnected w request)
  with grows_reconnect [of w world request] show ?case
    by (simp add: clientsListed_reconnect grows_boundByName grows_toolsBound grows_clientsAllocated)
next
  case (called w toolName request r)
  from called(2) obtain h where r: "r = invoke world h w request" by (auto simp: callTool_Some)
  from called(3) grows_invoke [of w world h request] show ?case
    unfolding r
    by (simp add: clientsListed_invoke grows_boundByName grows_toolsBound grows_clientsAllocated)
qed

lemma reachable_clientsListed: "reachable world w \<Longrightarrow> clientsListed w"
  by (simp add: reachable_invariants)

lemma reachable_disconnect_returns:
  "reachable world w \<Longrightarrow> \<exists>x. handleServerDisconnect world w request = Returns x"
  by (rule disconnect_returns) (rule reachable_clientsListed)

lemma reachable_client_listed:
  "reachable world w \<Longrightarrow> dynamicServers w name = Some info \<Longrightarrow> Client info = Some c \<Longrightarrow>
   c \<in> set (proxyClients w)"
  using clientsListedD [OF reachable_clientsListed] by simp

lemma remove_without_client_panics:
  assumes "RequireString request ''name'' = Some name" and "dynamicServers w name = Some info"
    and "Client info = None"
  shows "handleServerRemove world w request
           = Panics ''invalid memory address or nil pointer dereference''"
  using assms by (simp add: handleServerRemove_def Let_def)

subsection \<open>Classification of an error text\<close>

lemma Contains_iff: "Contains s sub \<longleftrightarrow> (\<exists>pre post. s = pre @ sub @ post)"
proof
  assume "Contains s sub"
  then show "\<exists>pre post. s = pre @ sub @ post"
  proof (induction s)
    case Nil
    then show ?case by simp
  next
    case (Cons c cs)
    from Cons.prems consider "HasPrefix (c # cs) sub" | "Contains cs sub" by auto
    then show ?case
    proof cases
      case 1
      then have "c # cs = [] @ sub @ drop (length sub) (c # cs)"
        unfolding HasPrefix_def by (metis append_Nil append_take_drop_id)
      then show ?thesis by blast
    next
      case 2
      from Cons.IH [OF this] obtain pre post where "cs = pre @ sub @ post" by blast
      then have "c # cs = (c # pre) @ sub @ post" by simp
      then show ?thesis by blast
    qed
  qed
next
  assume "\<exists>pre post. s = pre @ sub @ post"
  then obtain pre post where "s = pre @ sub @ post" by blast
  then show "Contains s sub" by (simp only: Contains_mid)
qed

lemma of_char_lowerChar:
  "(of_char (lowerChar c) :: nat) =
     (if 65 \<le> (of_char c :: nat) \<and> (of_char c :: nat) \<le> 90 then of_char c + 32 else of_char c)"
  by (auto simp: lowerChar_def)

lemma char_eq_iff: "c = d \<longleftrightarrow> (of_char c :: nat) = of_char d"
  by simp

lemma lowerChar_foldEq:
  assumes "\<not> (65 \<le> (of_char k :: nat) \<and> (of_char k :: nat) \<le> 90)"
  shows "lowerChar c = k \<longleftrightarrow> foldEq c k"
  unfolding foldEq_def char_eq_iff [of "lowerChar c" k] char_eq_iff [of c k] of_char_lowerChar
  using assms by auto

lemma map_lowerChar_foldEq:
  assumes "\<forall>k \<in> set word. \<not> (65 \<le> (of_char k :: nat) \<and> (of_char k :: nat) \<le> 90)"
  shows "map lowerChar mid = word \<longleftrightarrow> list_all2 foldEq mid word"
  using assms
proof (induction mid arbitrary: word)
  case Nil
  show ?case by auto
next
  case (Cons c mid)
  show ?case
  proof (cases word)
    case Nil
    then show ?thesis by simp
  next
    case (Cons k word')
    with Cons.prems Cons.IH [of word'] show ?thesis by (simp add: lowerChar_foldEq)
  qed
qed

lemma Contains_lower_containsFold:
  assumes "\<forall>k \<in> set word. \<not> (65 \<le> (of_char k :: nat) \<and> (of_char k :: nat) \<le> 90)"
  shows "Contains (map lowerChar s) word \<longleftrightarrow> containsFold s word"
proof
  assume "Contains (map lowerChar s) word"
  then obtain pre post where "map lowerChar s = pre @ word @ post"
    unfolding Contains_iff by blast
  then have "\<exists>p r. s = p @ r \<and> pre = map lowerChar p \<and> word @ post = map lowerChar r"
    by (simp only: map_eq_append_conv)
  then obtain p r where pr: "s = p @ r" and r: "map lowerChar r = word @ post"
    by auto
  from r have "\<exists>m q. r = m @ q \<and> word = map lowerChar m \<and> post = map lowerChar q"
    by (simp only: map_eq_append_conv)
  then obtain m q where mq: "r = m @ q" and m: "map lowerChar m = word"
    by auto
  from pr mq have s: "s = p @ m @ q" by simp
  from m have "list_all2 foldEq m word" by (simp add: map_lowerChar_foldEq [OF assms])
  with s show "containsFold s word" unfolding containsFold_def by blast
next
  assume "containsFold s word"
  then obtain p m q where s: "s = p @ m @ q" and m: "list_all2 foldEq m word"
    unfolding containsFold_def by blast
  from m have "map lowerChar m = word" by (simp add: map_lowerChar_foldEq [OF assms])
  with s have "map lowerChar s = map lowerChar p @ word @ map lowerChar q" by simp
  then show "Contains (map lowerChar s) word" unfolding Contains_iff by blast
qed

lemma connectionWords_lower:
  "word \<in> set connectionWords \<Longrightarrow>
   \<forall>k \<in> set word. \<not> (65 \<le> (of_char k :: nat) \<and> (of_char k :: nat) \<le> 90)"
  by (auto simp: connectionWords_def)

lemma isConnectionError_matches: "isConnectionError world err \<longleftrightarrow> matchesConnectionWord world err"
proof (cases "isASCII err")
  case True
  have "isConnectionError world err \<longleftrightarrow> (\<exists>word \<in> set connectionWords. Contains (map lowerChar err) word)"
    using True by (simp add: isConnectionError_def Let_def ToLower_def connectionWords_def)
  also have "\<dots> \<longleftrightarrow> (\<exists>word \<in> set connectionWords. containsFold err word)"
    using Contains_lower_containsFold [OF connectionWords_lower] by blast
  finally show ?thesis using True by (simp add: matchesConnectionWord_def)
next
  case False
  have "isConnectionError world err \<longleftrightarrow> (\<exists>word \<in> set connectionWords. Contains (mapToLower world err) word)"
    using False by (simp add: isConnectionError_def Let_def ToLower_def connectionWords_def)
  then show ?thesis using False by (simp add: matchesConnectionWord_def Contains_iff)
qed

subsection \<open>Calls by tool name\<close>









section \<open>The claims about the wrapper\<close>



text \<open>
  Claim C2, as the code has it. Every response of a proxied tool call, an error as
  well as a success, is a result of one content item to which, when recording is enabled
  with a file name, exactly one item is appended: the metadata text, which contains the
  absolute path of the recording file (the file name itself when \<open>filepath.Abs\<close> fails).
  When recording is disabled nothing is appended.
\<close>

theorem recording_metadata_on_every_response:
  "\<exists>base :: CallToolResult. length (Content base) = 1
     \<and> IsError (fst (fst (invoke world (createDynamicProxyHandler n tool) w request))) = IsError base
     \<and> Content (fst (fst (invoke world (createDynamicProxyHandler n tool) w request)))
         = (if recordEnabled w \<and> recordFilename w \<noteq> []
            then Content base
                 @ [TextContent (metadataText (recordFilename w)
                      (case absPath world (recordFilename w) of Some p \<Rightarrow> p
                       | None \<Rightarrow> recordFilename w))]
            else Content base)
     \<and> Contains (metadataText filename absolute) absolute"
proof -
  from invoke_base [of world n tool w request]
  obtain base where b: "length (Content base) = 1"
    "fst (invoke world (DynamicProxyHandler n tool) w request) = (addRecordingMetadata world w base, None)"
    by blast
  have r: "fst (fst (invoke world (createDynamicProxyHandler n tool) w request))
           = addRecordingMetadata world w base"
    by (simp add: createDynamicProxyHandler_def b(2))
  have final: "length (Content base) = 1
     \<and> IsError (fst (fst (invoke world (createDynamicProxyHandler n tool) w request))) = IsError base
     \<and> Content (fst (fst (invoke world (createDynamicProxyHandler n tool) w request)))
         = (if recordEnabled w \<and> recordFilename w \<noteq> []
            then Content base
                 @ [TextContent (metadataText (recordFilename w)
                      (case absPath world (recordFilename w) of Some p \<Rightarrow> p
                       | None \<Rightarrow> recordFilename w))]
            else Content base)
     \<and> Contains (metadataText filename absolute) absolute"
    unfolding r by (simp add: addRecordingMetadata_Content b(1) metadataText_contains)
  show ?thesis by (rule exI [of _ base]) (rule final)
qed

theorem recording_metadata_on_every_response_witness:
  "\<exists>base :: CallToolResult. length (Content base) = 1
     \<and> Content (fst (fst (invoke exampleWorld (createDynamicProxyHandler ''echo'' ''greet'')
                            exampleRecording (stringArgs [(''who'', ''a'')]))))
         = Content base @ [TextContent (metadataText ''session.jsonl'' ''/work/session.jsonl'')]"
proof -
  have en: "recordEnabled exampleRecording \<and> recordFilename exampleRecording \<noteq> []"
    by (simp add: exampleRecording_def)
  have fn: "recordFilename exampleRecording = ''session.jsonl''"
    by (simp add: exampleRecording_def)
  have ab: "absPath exampleWorld ''session.jsonl'' = Some ''/work/session.jsonl''"
    by (simp add: exampleWorld_def)
  from recording_metadata_on_every_response [where world = exampleWorld and n = "''echo''"
      and tool = "''greet''" and w = exampleRecording and request = "stringArgs [(''who'', ''a'')]"
      and filename = "[]" and absolute = "[]"]
  obtain base :: CallToolResult where b: "length (Content base) = 1
     \<and> IsError (fst (fst (invoke exampleWorld (createDynamicProxyHandler ''echo'' ''greet'')
                            exampleRecording (stringArgs [(''who'', ''a'')])))) = IsError base
     \<and> Content (fst (fst (invoke exampleWorld (createDynamicProxyHandler ''echo'' ''greet'')
                            exampleRecording (stringArgs [(''who'', ''a'')]))))
         = (if recordEnabled exampleRecording \<and> recordFilename exampleRecording \<noteq> []
            then Content base
                 @ [TextContent (metadataText (recordFilename exampleRecording)
                      (case absPath exampleWorld (recordFilename exampleRecording) of Some p \<Rightarrow> p
                       | None \<Rightarrow> recordFilename exampleRecording))]
            else Content base)
     \<and> Contains (metadataText [] []) []"
    by (rule exE)
  from b have b1: "length (Content base) = 1" by (rule conjunct1)
  have b2: "Content (fst (fst (invoke exampleWorld (createDynamicProxyHandler ''echo'' ''greet'')
                            exampleRecording (stringArgs [(''who'', ''a'')]))))
         = (if recordEnabled exampleRecording \<and> recordFilename exampleRecording \<noteq> []
            then Content base
                 @ [TextContent (metadataText (recordFilename exampleRecording)
                      (case absPath exampleWorld (recordFilename exampleRecording) of Some p \<Rightarrow> p
                       | None \<Rightarrow> recordFilename exampleRecording))]
            else Content base)"
    by (rule b [THEN conjunct2, THEN conjunct2, THEN conjunct1])
  have final: "length (Content base) = 1
     \<and> Content (fst (fst (invoke exampleWorld (createDynamicProxyHandler ''echo'' ''greet'')
                            exampleRecording (stringArgs [(''who'', ''a'')]))))
         = Content base @ [TextContent (metadataText ''session.jsonl'' ''/work/session.jsonl'')]"
    unfolding b2 if_P [OF en] unfolding fn ab option.case using b1 by (intro conjI refl)
  show ?thesis by (rule exI [of _ base]) (rule final)
qed

text \<open>
  An error response carries the metadata item too: every return of the handlers passes
  its result, error or not, through \<open>addRecordingMetadata\<close>, which does not read
  \<open>IsError\<close>. Here the upstream is unknown and recording is on.
\<close>

theorem error_response_metadata_counterexample:
  "recordEnabled exampleRecording
   \<and> IsError (fst (fst (invoke exampleWorld (createDynamicProxyHandler ''fs'' ''read_file'')
                          exampleRecording (stringArgs [(''path'', ''/x'')]))))
   \<and> Content (fst (fst (invoke exampleWorld (createDynamicProxyHandler ''fs'' ''read_file'')
                          exampleRecording (stringArgs [(''path'', ''/x'')]))))
       = [TextContent (''Server '' @ quoted ''fs'' @ '' not found''),
          TextContent (metadataText ''session.jsonl'' ''/work/session.jsonl'')]"
  by code_simp

text \<open>
  Claim C7. When \<open>CallTool\<close> returns an error, the handler returns a result with
  \<open>IsError\<close> and a nil Go error, after that one call on the client. When the error text
  matches one of the five words without regard to case, the record is marked
  disconnected with the error text as its error message and the message tells to use
  \<open>server_reconnect\<close>; otherwise the table is unchanged and the message is the error
  text after the upstream name in square brackets. The match is stated without the
  functions of the code: a part of the text agrees with the word byte by byte, up to
  the case of ASCII letters (for a text with a byte of 128 or more: the word is a part
  of what the library's lower-casing returns).
\<close>

theorem call_error_classified:
  assumes "dynamicServers w n = Some info" and "IsConnected info" and "Client info = Some c"
    and "callToolResult world (trace w) c tool (Arguments request) = Inl err"
    and "invoke world (createDynamicProxyHandler n tool) w request = ((result, goErr), w')"
  shows "goErr = None \<and> IsError result
     \<and> trace w' = trace w @ [EvCallTool c tool (Arguments request)]
     \<and> (if matchesConnectionWord world err
        then dynamicServers w' = (dynamicServers w)(n \<mapsto> info\<lparr>IsConnected := False, ErrorMessage := err\<rparr>)
             \<and> hd (Content result)
                 = TextContent (''Server '' @ quoted n @ '' connection failed: '' @ err @ newline
                                @ ''Use server_reconnect to restore connection.'')
        else dynamicServers w' = dynamicServers w
             \<and> hd (Content result) = TextContent (''['' @ n @ ''] '' @ err))"
proof (cases "isConnectionError world err")
  case True
  then have m: "matchesConnectionWord world err" by (simp add: isConnectionError_matches)
  from assms(5) [unfolded createDynamicProxyHandler_def invoke_connected [OF assms(1-3)] Let_def
      assms(4) sum.case if_P [OF True] respond_eq]
  show ?thesis
    unfolding if_P [OF m] by (simp add: addRecordingMetadata_hd)
next
  case False
  then have m: "\<not> matchesConnectionWord world err" by (simp add: isConnectionError_matches)
  from assms(5) [unfolded createDynamicProxyHandler_def invoke_connected [OF assms(1-3)] Let_def
      assms(4) sum.case if_not_P [OF False] respond_eq]
  show ?thesis
    unfolding if_not_P [OF m] by (simp add: addRecordingMetadata_hd)
qed

theorem call_error_classified_witness:
  "matchesConnectionWord (failingCalls ''unexpected EOF'') ''unexpected EOF''
   \<and> IsError (fst (fst (invoke (failingCalls ''unexpected EOF'')
                          (createDynamicProxyHandler ''echo'' ''greet'') exampleConnected
                          (stringArgs [(''who'', ''a'')]))))
   \<and> map_option IsConnected
        (dynamicServers (snd (invoke (failingCalls ''unexpected EOF'')
                                (createDynamicProxyHandler ''echo'' ''greet'') exampleConnected
                                (stringArgs [(''who'', ''a'')]))) ''echo'') = Some False
   \<and> map_option ErrorMessage
        (dynamicServers (snd (invoke (failingCalls ''unexpected EOF'')
                                (createDynamicProxyHandler ''echo'' ''greet'') exampleConnected
                                (stringArgs [(''who'', ''a'')]))) ''echo'') = Some ''unexpected EOF''
   \<and> \<not> matchesConnectionWord (failingCalls ''tool not found'') ''tool not found''
   \<and> IsError (fst (fst (invoke (failingCalls ''tool not found'')
                          (createDynamicProxyHandler ''echo'' ''greet'') exampleConnected
                          (stringArgs [(''who'', ''a'')]))))
   \<and> dynamicServers (snd (invoke (failingCalls ''tool not found'')
                            (createDynamicProxyHandler ''echo'' ''greet'') exampleConnected
                            (stringArgs [(''who'', ''a'')]))) = dynamicServers exampleConnected
   \<and> hd (Content (fst (fst (invoke (failingCalls ''tool not found'')
                              (createDynamicProxyHandler ''echo'' ''greet'') exampleConnected
                              (stringArgs [(''who'', ''a'')])))))
       = TextContent ''[echo] tool not found''"
proof -
  let ?c0 = "\<lparr>ClientId = 0, ClientServerName = ''echo''\<rparr>"
  let ?info = "\<lparr>InfoName = ''echo'', Client = Some ?c0, Tools = [''echo_greet''],
                Config = addedConfig exampleWorld ''echo'' ''/usr/bin/echo-mcp --fast'',
                IsConnected = True, ErrorMessage = []\<rparr>"
  let ?req = "stringArgs [(''who'', ''a'')]"
  let ?X = "invoke (failingCalls ''unexpected EOF'') (createDynamicProxyHandler ''echo'' ''greet'')
              exampleConnected ?req"
  let ?Y = "invoke (failingCalls ''tool not found'') (createDynamicProxyHandler ''echo'' ''greet'')
              exampleConnected ?req"
  have h1: "dynamicServers exampleConnected ''echo'' = Some ?info" by code_simp
  have h2: "IsConnected ?info" and h3: "Client ?info = Some ?c0" by simp_all
  have h4: "callToolResult (failingCalls err) (trace exampleConnected) ?c0 ''greet'' (Arguments ?req)
            = Inl err" for err
    by (simp add: failingCalls_def)
  have x: "?X = ((fst (fst ?X), snd (fst ?X)), snd ?X)" by simp
  have y: "?Y = ((fst (fst ?Y), snd (fst ?Y)), snd ?Y)" by simp
  have "isConnectionError (failingCalls ''unexpected EOF'') ''unexpected EOF''" by code_simp
  then have yes: "matchesConnectionWord (failingCalls ''unexpected EOF'') ''unexpected EOF''"
    by (simp add: isConnectionError_matches)
  have "\<not> isConnectionError (failingCalls ''tool not found'') ''tool not found''" by code_simp
  then have no: "\<not> matchesConnectionWord (failingCalls ''tool not found'') ''tool not found''"
    by (simp add: isConnectionError_matches)
  from call_error_classified [OF h1 h2 h3 h4 x] yes
  have x1: "IsError (fst (fst ?X))"
    and x2: "dynamicServers (snd ?X) = (dynamicServers exampleConnected)(''echo'' \<mapsto>
           ?info\<lparr>IsConnected := False, ErrorMessage := ''unexpected EOF''\<rparr>)"
    by simp_all
  from call_error_classified [OF h1 h2 h3 h4 y] no
  have y1: "IsError (fst (fst ?Y))"
    and y2: "dynamicServers (snd ?Y) = dynamicServers exampleConnected"
    and y3: "hd (Content (fst (fst ?Y))) = TextContent (''['' @ ''echo'' @ ''] '' @ ''tool not found'')"
    by simp_all
  from y3 have y4: "hd (Content (fst (fst ?Y))) = TextContent ''[echo] tool not found''" by simp
  from yes x1 x2 no y1 y2 y4 show ?thesis by simp
qed

text \<open>
  Claim C8. For an unknown name \<open>server_disconnect\<close> returns an error result and changes
  neither the table nor the clients. For a connected record whose client is on the
  proxy server's client list (as it is in every state that the wrapper reaches, lemma
  \<open>reachable_client_listed\<close>; on an empty list the handler panics) it closes the client,
  clears the reference, sets \<open>IsConnected\<close> to false and the error message to
  \<open>Server disconnected by user\<close>, and returns a success result; a second
  \<open>server_disconnect\<close> of the same name returns a success result and leaves the table,
  the clients, the registry and the trace as they were.
\<close>

theorem disconnect_idempotent:
  assumes "RequireString request ''name'' = Some name"
  shows "(dynamicServers w name = None \<longrightarrow>
           (\<exists>r w'. handleServerDisconnect world w request = Returns ((r, None), w') \<and> IsError r
              \<and> dynamicServers w' = dynamicServers w \<and> proxyClients w' = proxyClients w
              \<and> trace w' = trace w))
     \<and> (\<forall>info c. dynamicServers w name = Some info \<and> IsConnected info \<and> Client info = Some c
             \<and> c \<in> set (proxyClients w) \<longrightarrow>
           (\<exists>r w'. handleServerDisconnect world w request = Returns ((r, None), w') \<and> \<not> IsError r
              \<and> dynamicServers w' = (dynamicServers w)(name \<mapsto>
                    info\<lparr>IsConnected := False, ErrorMessage := ''Server disconnected by user'',
                          Client := None\<rparr>)
              \<and> trace w' = trace w @ [EvClose c]
              \<and> (\<exists>r2 w''. handleServerDisconnect world w' request = Returns ((r2, None), w'')
                    \<and> \<not> IsError r2
                    \<and> dynamicServers w'' = dynamicServers w' \<and> proxyClients w'' = proxyClients w'
                    \<and> registry w'' = registry w' \<and> baseTools w'' = baseTools w'
                    \<and> trace w'' = trace w')))"
proof (intro conjI impI allI)
  assume "dynamicServers w name = None"
  from disconnect_unknown [OF assms this, of world]
  show "\<exists>r w'. handleServerDisconnect world w request = Returns ((r, None), w') \<and> IsError r
              \<and> dynamicServers w' = dynamicServers w \<and> proxyClients w' = proxyClients w
              \<and> trace w' = trace w"
    by (simp add: respond_def Let_def)
next
  fix info c
  assume a: "dynamicServers w name = Some info \<and> IsConnected info \<and> Client info = Some c
             \<and> c \<in> set (proxyClients w)"
  then have ne: "proxyClients w \<noteq> []" by auto
  let ?info1 = "info\<lparr>IsConnected := False, ErrorMessage := ''Server disconnected by user'',
                          Client := None\<rparr>"
  let ?R = "respond world
       ((Close (recordMessage w ''request'' ''tool_call'' ''server_disconnect'' ''proxy''
                  (RequestPayload request)) c)
          \<lparr>proxyClients := filter (\<lambda>c. ClientServerName c \<noteq> name) (proxyClients w),
            dynamicServers := (dynamicServers w)(name \<mapsto> ?info1)\<rparr>)
       ''server_disconnect'' ''proxy''
       (NewToolResultText (''Disconnected server '' @ quoted name
          @ ''. Tools remain registered but will return errors.'' @ [CHR 0x5C, CHR ''n'']
          @ ''Use server_reconnect to restore with new binary/command.''))"
  from a ne have first: "handleServerDisconnect world w request = Returns ?R"
    by (simp add: disconnect_connected [OF assms])
  have d1: "dynamicServers (snd ?R) name = Some ?info1" "\<not> IsConnected ?info1"
    by simp_all
  let ?R2 = "respond world
       (recordMessage (snd ?R) ''request'' ''tool_call'' ''server_disconnect'' ''proxy''
          (RequestPayload request))
       ''server_disconnect'' ''proxy''
       (NewToolResultText (''Server '' @ quoted name @ '' is already disconnected''))"
  have second: "handleServerDisconnect world (snd ?R) request = Returns ?R2"
    by (rule disconnect_already [OF assms d1])
  have "handleServerDisconnect world w request = Returns ((fst (fst ?R), None), snd ?R)
        \<and> \<not> IsError (fst (fst ?R))
        \<and> dynamicServers (snd ?R) = (dynamicServers w)(name \<mapsto> ?info1)
        \<and> trace (snd ?R) = trace w @ [EvClose c]
        \<and> (handleServerDisconnect world (snd ?R) request = Returns ((fst (fst ?R2), None), snd ?R2)
           \<and> \<not> IsError (fst (fst ?R2))
           \<and> dynamicServers (snd ?R2) = dynamicServers (snd ?R)
           \<and> proxyClients (snd ?R2) = proxyClients (snd ?R)
           \<and> registry (snd ?R2) = registry (snd ?R) \<and> baseTools (snd ?R2) = baseTools (snd ?R)
           \<and> trace (snd ?R2) = trace (snd ?R))"
    unfolding first second by (simp add: respond_def Let_def)
  then show "\<exists>r w'. handleServerDisconnect world w request = Returns ((r, None), w') \<and> \<not> IsError r
              \<and> dynamicServers w' = (dynamicServers w)(name \<mapsto> ?info1)
              \<and> trace w' = trace w @ [EvClose c]
              \<and> (\<exists>r2 w''. handleServerDisconnect world w' request = Returns ((r2, None), w'')
                    \<and> \<not> IsError r2
                    \<and> dynamicServers w'' = dynamicServers w' \<and> proxyClients w'' = proxyClients w'
                    \<and> registry w'' = registry w' \<and> baseTools w'' = baseTools w'
                    \<and> trace w'' = trace w')"
    by blast
qed

theorem disconnect_idempotent_witness:
  "\<exists>r w' r2 w''.
     handleServerDisconnect exampleWorld exampleConnected (stringArgs [(''name'', ''echo'')])
       = Returns ((r, None), w')
     \<and> \<not> IsError r
     \<and> map_option Client (dynamicServers w' ''echo'') = Some None
     \<and> map_option ErrorMessage (dynamicServers w' ''echo'') = Some ''Server disconnected by user''
     \<and> trace w' = trace exampleConnected @ [EvClose \<lparr>ClientId = 0, ClientServerName = ''echo''\<rparr>]
     \<and> handleServerDisconnect exampleWorld w' (stringArgs [(''name'', ''echo'')])
         = Returns ((r2, None), w'')
     \<and> \<not> IsError r2 \<and> dynamicServers w'' = dynamicServers w' \<and> trace w'' = trace w'"
proof -
  let ?c0 = "\<lparr>ClientId = 0, ClientServerName = ''echo''\<rparr>"
  let ?info = "\<lparr>InfoName = ''echo'', Client = Some ?c0, Tools = [''echo_greet''],
                Config = addedConfig exampleWorld ''echo'' ''/usr/bin/echo-mcp --fast'',
                IsConnected = True, ErrorMessage = []\<rparr>"
  let ?req = "stringArgs [(''name'', ''echo'')]"
  have h0: "RequireString ?req ''name'' = Some ''echo''" by code_simp
  have h1: "dynamicServers exampleConnected ''echo'' = Some ?info" by code_simp
  have h4: "?c0 \<in> set (proxyClients exampleConnected)" by code_simp
  from disconnect_idempotent [OF h0, of exampleConnected exampleWorld, THEN conjunct2, rule_format, of ?info ?c0]
    h1 h4
  obtain r w' r2 w'' where
    "handleServerDisconnect exampleWorld exampleConnected ?req = Returns ((r, None), w')"
    "\<not> IsError r"
    "dynamicServers w' = (dynamicServers exampleConnected)(''echo'' \<mapsto>
        ?info\<lparr>IsConnected := False, ErrorMessage := ''Server disconnected by user'', Client := None\<rparr>)"
    "trace w' = trace exampleConnected @ [EvClose ?c0]"
    "handleServerDisconnect exampleWorld w' ?req = Returns ((r2, None), w'')"
    "\<not> IsError r2" "dynamicServers w'' = dynamicServers w'" "trace w'' = trace w'"
    by auto
  then show ?thesis
    by (intro exI [of _ r] exI [of _ w'] exI [of _ r2] exI [of _ w'']) simp
qed

text \<open>
  Claim C9, as the code has it. \<open>server_add\<close> with a name that the table holds returns
  the error \<open>Server '<name>' already exists\<close>, allocates no client and does nothing to any
  client. When connect fails it returns an error result without calling \<open>Close\<close>; when
  initialize or the tool listing fails it closes the new client and returns an error
  result. In all these cases the table, the registry, the bound tools and the client
  list are unchanged.
\<close>

theorem server_add_failure_paths:
  assumes "RequireString request ''name'' = Some name"
    and "RequireString request ''command'' = Some command"
    and "handleServerAdd world w request = ((result, goErr), w')"
    and "c = \<lparr>ClientId = nextClient w, ClientServerName = name\<rparr>"
    and "t0 = configured w c (addedConfig world name command)"
  shows "(dynamicServers w name \<noteq> None \<longrightarrow>
            IsError result
            \<and> hd (Content result) = TextContent (''Server '' @ quoted name @ '' already exists'')
            \<and> trace w' = trace w \<and> nextClient w' = nextClient w \<and> unchangedServers w w')
     \<and> (dynamicServers w name = None \<and> Fields world command \<noteq> [] \<longrightarrow>
          (\<forall>err. connectResult world t0 c = Some err \<longrightarrow>
             IsError result \<and> hd (Content result) = TextContent (''Failed to connect: '' @ err)
             \<and> trace w' = t0 @ [EvConnect c] \<and> unchangedServers w w')
        \<and> (\<forall>err. connectResult world t0 c = None
                 \<and> initializeResult world (t0 @ [EvConnect c]) c = Some err \<longrightarrow>
             IsError result \<and> hd (Content result) = TextContent (''Failed to initialize: '' @ err)
             \<and> trace w' = t0 @ [EvConnect c, EvInitialize c, EvClose c] \<and> unchangedServers w w')
        \<and> (\<forall>err. connectResult world t0 c = None
                 \<and> initializeResult world (t0 @ [EvConnect c]) c = None
                 \<and> listToolsResult world (t0 @ [EvConnect c, EvInitialize c]) c = Inl err \<longrightarrow>
             IsError result \<and> hd (Content result) = TextContent (''Failed to list tools: '' @ err)
             \<and> trace w' = t0 @ [EvConnect c, EvInitialize c, EvListTools c, EvClose c]
             \<and> unchangedServers w w'))"
proof -
  have c: "c = addedClient w name" by (simp add: assms(4) addedClient_def)
  have t0: "t0 = configured w (addedClient w name) (addedConfig world name command)"
    by (simp add: assms(5) c)
  have a: "IsError result
            \<and> hd (Content result) = TextContent (''Server '' @ quoted name @ '' already exists'')
            \<and> trace w' = trace w \<and> nextClient w' = nextClient w \<and> unchangedServers w w'"
    if "dynamicServers w name \<noteq> None"
    using assms(3) [unfolded add_exists [OF assms(1,2) that] respond_eq]
    by (simp add: unchangedServers_def addRecordingMetadata_hd)
  have b1: "IsError result \<and> hd (Content result) = TextContent (''Failed to connect: '' @ err)
             \<and> trace w' = t0 @ [EvConnect c] \<and> unchangedServers w w'"
    if "dynamicServers w name = None" "Fields world command \<noteq> []" "connectResult world t0 c = Some err"
    for err
    using assms(3) [unfolded add_connect_fails [OF assms(1,2) that(1,2) that(3) [unfolded t0 c]] respond_eq]
    by (simp add: unchangedServers_def addRecordingMetadata_hd t0 c)
  have b2: "IsError result \<and> hd (Content result) = TextContent (''Failed to initialize: '' @ err)
             \<and> trace w' = t0 @ [EvConnect c, EvInitialize c, EvClose c] \<and> unchangedServers w w'"
    if "dynamicServers w name = None" "Fields world command \<noteq> []" "connectResult world t0 c = None"
      "initializeResult world (t0 @ [EvConnect c]) c = Some err" for err
    using assms(3) [unfolded add_initialize_fails [OF assms(1,2) that(1,2) that(3) [unfolded t0 c]
          that(4) [unfolded t0 c]] respond_eq]
    by (simp add: unchangedServers_def addRecordingMetadata_hd t0 c)
  have b3: "IsError result \<and> hd (Content result) = TextContent (''Failed to list tools: '' @ err)
             \<and> trace w' = t0 @ [EvConnect c, EvInitialize c, EvListTools c, EvClose c]
             \<and> unchangedServers w w'"
    if "dynamicServers w name = None" "Fields world command \<noteq> []" "connectResult world t0 c = None"
      "initializeResult world (t0 @ [EvConnect c]) c = None"
      "listToolsResult world (t0 @ [EvConnect c, EvInitialize c]) c = Inl err" for err
    using assms(3) [unfolded add_list_fails [OF assms(1,2) that(1,2) that(3) [unfolded t0 c]
          that(4) [unfolded t0 c] that(5) [unfolded t0 c]] respond_eq]
    by (simp add: unchangedServers_def addRecordingMetadata_hd t0 c)
  from a b1 b2 b3 show ?thesis by blast
qed

theorem server_add_failure_paths_witness:
  "dynamicServers exampleConnected ''echo'' \<noteq> None
   \<and> IsError (fst (fst (handleServerAdd exampleWorld exampleConnected
        (stringArgs [(''name'', ''echo''), (''command'', ''/usr/bin/other'')]))))
   \<and> hd (Content (fst (fst (handleServerAdd exampleWorld exampleConnected
        (stringArgs [(''name'', ''echo''), (''command'', ''/usr/bin/other'')])))))
       = TextContent (''Server '' @ quoted ''echo'' @ '' already exists'')
   \<and> trace (snd (handleServerAdd exampleWorld exampleConnected
        (stringArgs [(''name'', ''echo''), (''command'', ''/usr/bin/other'')]))) = trace exampleConnected
   \<and> hd (Content (fst (fst (handleServerAdd (failingConnect ''exec: not found'') (NewDynamicWrapper None)
        (stringArgs [(''name'', ''fs''), (''command'', ''/usr/bin/none'')])))))
       = TextContent ''Failed to connect: exec: not found''
   \<and> unchangedServers (NewDynamicWrapper None)
       (snd (handleServerAdd (failingConnect ''exec: not found'') (NewDynamicWrapper None)
          (stringArgs [(''name'', ''fs''), (''command'', ''/usr/bin/none'')])))
   \<and> hd (Content (fst (fst (handleServerAdd (failingInitialize ''bad handshake'') (NewDynamicWrapper None)
        (stringArgs [(''name'', ''fs''), (''command'', ''/usr/bin/none'')])))))
       = TextContent ''Failed to initialize: bad handshake''
   \<and> last (trace (snd (handleServerAdd (failingInitialize ''bad handshake'') (NewDynamicWrapper None)
        (stringArgs [(''name'', ''fs''), (''command'', ''/usr/bin/none'')]))))
       = EvClose \<lparr>ClientId = 0, ClientServerName = ''fs''\<rparr>
   \<and> unchangedServers (NewDynamicWrapper None)
       (snd (handleServerAdd (failingInitialize ''bad handshake'') (NewDynamicWrapper None)
          (stringArgs [(''name'', ''fs''), (''command'', ''/usr/bin/none'')])))
   \<and> hd (Content (fst (fst (handleServerAdd (failingListTools ''no tools'') (NewDynamicWrapper None)
        (stringArgs [(''name'', ''fs''), (''command'', ''/usr/bin/none'')])))))
       = TextContent ''Failed to list tools: no tools''
   \<and> last (trace (snd (handleServerAdd (failingListTools ''no tools'') (NewDynamicWrapper None)
        (stringArgs [(''name'', ''fs''), (''command'', ''/usr/bin/none'')]))))
       = EvClose \<lparr>ClientId = 0, ClientServerName = ''fs''\<rparr>
   \<and> unchangedServers (NewDynamicWrapper None)
       (snd (handleServerAdd (failingListTools ''no tools'') (NewDynamicWrapper None)
          (stringArgs [(''name'', ''fs''), (''command'', ''/usr/bin/none'')])))"
proof -
  let ?req = "stringArgs [(''name'', ''echo''), (''command'', ''/usr/bin/other'')]"
  let ?X = "handleServerAdd exampleWorld exampleConnected ?req"
  have h1: "RequireString ?req ''name'' = Some ''echo''" by code_simp
  have h2: "RequireString ?req ''command'' = Some ''/usr/bin/other''" by code_simp
  have h3: "?X = ((fst (fst ?X), snd (fst ?X)), snd ?X)" by simp
  have ex: "dynamicServers exampleConnected ''echo'' \<noteq> None" by code_simp
  from server_add_failure_paths [OF h1 h2 h3 refl refl, THEN conjunct1, rule_format, OF ex] ex
  have exists: "dynamicServers exampleConnected ''echo'' \<noteq> None \<and> IsError (fst (fst ?X))
     \<and> hd (Content (fst (fst ?X))) = TextContent (''Server '' @ quoted ''echo'' @ '' already exists'')
     \<and> trace (snd ?X) = trace exampleConnected"
    by simp
  let ?w = "NewDynamicWrapper None"
  let ?fs = "stringArgs [(''name'', ''fs''), (''command'', ''/usr/bin/none'')]"
  let ?c = "\<lparr>ClientId = nextClient ?w, ClientServerName = ''fs''\<rparr>"
  have c0: "?c = \<lparr>ClientId = 0, ClientServerName = ''fs''\<rparr>" by (simp add: NewDynamicWrapper_def)
  have g1: "RequireString ?fs ''name'' = Some ''fs''" by code_simp
  have g2: "RequireString ?fs ''command'' = Some ''/usr/bin/none''" by code_simp
  have none: "dynamicServers ?w ''fs'' = None" by (simp add: NewDynamicWrapper_def)
  have parts: "Fields world ''/usr/bin/none'' \<noteq> []" for world by code_simp
  let ?A = "handleServerAdd (failingConnect ''exec: not found'') ?w ?fs"
  let ?B = "handleServerAdd (failingInitialize ''bad handshake'') ?w ?fs"
  let ?C = "handleServerAdd (failingListTools ''no tools'') ?w ?fs"
  have a3: "?A = ((fst (fst ?A), snd (fst ?A)), snd ?A)" by simp
  have b3: "?B = ((fst (fst ?B), snd (fst ?B)), snd ?B)" by simp
  have c3: "?C = ((fst (fst ?C), snd (fst ?C)), snd ?C)" by simp
  have "connectResult (failingConnect ''exec: not found'')
          (configured ?w ?c (addedConfig (failingConnect ''exec: not found'') ''fs'' ''/usr/bin/none'')) ?c
        = Some ''exec: not found''"
    by (simp add: failingConnect_def)
  from server_add_failure_paths [OF g1 g2 a3 refl refl, THEN conjunct2, rule_format,
      OF conjI [OF none parts], THEN conjunct1, rule_format, OF this]
  have connect: "hd (Content (fst (fst ?A))) = TextContent ''Failed to connect: exec: not found''
     \<and> unchangedServers ?w (snd ?A)"
    by simp
  have "connectResult (failingInitialize ''bad handshake'')
          (configured ?w ?c (addedConfig (failingInitialize ''bad handshake'') ''fs'' ''/usr/bin/none'')) ?c
        = None
      \<and> initializeResult (failingInitialize ''bad handshake'')
          (configured ?w ?c (addedConfig (failingInitialize ''bad handshake'') ''fs'' ''/usr/bin/none'')
           @ [EvConnect ?c]) ?c
        = Some ''bad handshake''"
    by (simp add: failingInitialize_def exampleWorld_def)
  from server_add_failure_paths [OF g1 g2 b3 refl refl, THEN conjunct2, rule_format,
      OF conjI [OF none parts], THEN conjunct2, THEN conjunct1, rule_format, OF this]
  have initialize: "hd (Content (fst (fst ?B))) = TextContent ''Failed to initialize: bad handshake''
     \<and> last (trace (snd ?B)) = EvClose \<lparr>ClientId = 0, ClientServerName = ''fs''\<rparr>
     \<and> unchangedServers ?w (snd ?B)"
    by (simp add: c0)
  have "connectResult (failingListTools ''no tools'')
          (configured ?w ?c (addedConfig (failingListTools ''no tools'') ''fs'' ''/usr/bin/none'')) ?c
        = None
      \<and> initializeResult (failingListTools ''no tools'')
          (configured ?w ?c (addedConfig (failingListTools ''no tools'') ''fs'' ''/usr/bin/none'')
           @ [EvConnect ?c]) ?c
        = None
      \<and> listToolsResult (failingListTools ''no tools'')
          (configured ?w ?c (addedConfig (failingListTools ''no tools'') ''fs'' ''/usr/bin/none'')
           @ [EvConnect ?c, EvInitialize ?c]) ?c
        = Inl ''no tools''"
    by (simp add: failingListTools_def exampleWorld_def)
  from server_add_failure_paths [OF g1 g2 c3 refl refl, THEN conjunct2, rule_format,
      OF conjI [OF none parts], THEN conjunct2, THEN conjunct2, rule_format, OF this]
  have list: "hd (Content (fst (fst ?C))) = TextContent ''Failed to list tools: no tools''
     \<and> last (trace (snd ?C)) = EvClose \<lparr>ClientId = 0, ClientServerName = ''fs''\<rparr>
     \<and> unchangedServers ?w (snd ?C)"
    by (simp add: c0)
  from exists connect initialize list show ?thesis by (simp only: simp_thms)
qed

text \<open>
  When \<open>Connect\<close> fails, \<open>handleServerAdd\<close> returns at once: \<open>Close\<close> is never called
  on the client it created.
\<close>

theorem connect_failure_not_closed_counterexample:
  "IsError (fst (fst (handleServerAdd (failingConnect ''exec: not found'') (NewDynamicWrapper None)
       (stringArgs [(''name'', ''fs''), (''command'', ''/usr/bin/none'')]))))
   \<and> EvConnect \<lparr>ClientId = 0, ClientServerName = ''fs''\<rparr>
       \<in> set (trace (snd (handleServerAdd (failingConnect ''exec: not found'') (NewDynamicWrapper None)
              (stringArgs [(''name'', ''fs''), (''command'', ''/usr/bin/none'')]))))
   \<and> EvClose \<lparr>ClientId = 0, ClientServerName = ''fs''\<rparr>
       \<notin> set (trace (snd (handleServerAdd (failingConnect ''exec: not found'') (NewDynamicWrapper None)
              (stringArgs [(''name'', ''fs''), (''command'', ''/usr/bin/none'')]))))"
  by code_simp

end
